(* ===== verification/Prelude.thy ===== *)
theory Prelude
  imports Main "HOL-Library.AList" "HOL-Library.Word" "HOL-Library.Sublist"
begin

text \<open>
  What every component of the development shares: the collections of rewrite rules that carry
  the component proofs, generic lemmas on lists and association lists, Go's built-in map as an
  association list, and the result type \<open>gerr + 'a\<close> style combinators for Go's
  \<^verbatim>\<open>(value, error)\<close> pairs. Nothing here is about the program.
\<close>

named_theorems go_simps \<open>equations of the modelled Go library functions\<close>
named_theorems validate_simps \<open>unfolding rules for the validators\<close>
named_theorems world_simps \<open>effects of the primitive actions on the trace\<close>
named_theorems handler_defs \<open>definitions of the handlers of a component\<close>

section \<open>Sums as Go results\<close>

definition is_ok :: "'e + 'a \<Rightarrow> bool" where
  "is_ok r = (case r of Inl _ \<Rightarrow> False | Inr _ \<Rightarrow> True)"

lemma is_ok_simps [simp]: "is_ok (Inr x)" "\<not> is_ok (Inl e)"
  by (simp_all add: is_ok_def)

lemma is_ok_iff: "is_ok r \<longleftrightarrow> (\<exists>x. r = Inr x)"
  by (cases r) simp_all

section \<open>First failing check\<close>

text \<open>
  A chain of \<^verbatim>\<open>if err := check(..); err != nil { return err }\<close>: the first check that
  fails decides, later ones are not evaluated.
\<close>

primrec first_error :: "'e option list \<Rightarrow> 'e option" where
  "first_error [] = None"
| "first_error (c # cs) = (case c of Some e \<Rightarrow> Some e | None \<Rightarrow> first_error cs)"

declare first_error.simps(2) [simp del]

lemma first_error_None [simp]: "first_error cs = None \<longleftrightarrow> (\<forall>c \<in> set cs. c = None)"
  by (induction cs) (auto simp: first_error.simps(2) split: option.splits)

lemma first_error_Some_mem: "first_error cs = Some e \<Longrightarrow> Some e \<in> set cs"
  by (induction cs) (auto simp: first_error.simps(2) split: option.splits)

lemma first_error_append:
  "first_error (cs @ ds) = (case first_error cs of Some e \<Rightarrow> Some e | None \<Rightarrow> first_error ds)"
  by (induction cs) (simp_all add: first_error.simps(2) del: first_error_None split: option.splits)

section \<open>Lists\<close>

lemma filter_eq_all: "(\<forall>x \<in> set xs. P x) \<Longrightarrow> filter P xs = xs"
  by (induction xs) simp_all

lemma length_filter_mono:
  "(\<And>x. x \<in> set xs \<Longrightarrow> P x \<Longrightarrow> Q x) \<Longrightarrow> length (filter P xs) \<le> length (filter Q xs)"
  by (induction xs) (simp_all add: le_SucI)

lemma dropWhile_idem: "dropWhile P (dropWhile P xs) = dropWhile P xs"
  by (induction xs) simp_all

text \<open>Dropping a suffix keeps the first element, unless everything is dropped.\<close>

lemma dropWhile_snoc_not: "\<not> P x \<Longrightarrow> dropWhile P (ys @ [x]) = dropWhile P ys @ [x]"
  by (induction ys) simp_all

lemma dropWhile_rev_not:
  assumes "dropWhile P xs = xs"
  shows "dropWhile P (rev (dropWhile P (rev xs))) = rev (dropWhile P (rev xs))"
proof (cases xs)
  case (Cons x xs')
  with assms have "\<not> P x" by (metis dropWhile_eq_Cons_conv)
  with Cons show ?thesis by (simp add: dropWhile_snoc_not)
qed simp

section \<open>Go maps\<close>

text \<open>
  Go's built-in map as an association list with distinct keys; insertion order is kept in the
  list, and functions that range over the map take the iteration order as an argument, since
  Go leaves it unspecified.
\<close>

type_synonym ('k, 'v) gomap = "('k \<times> 'v) list"

abbreviation gomap_wf :: "('k, 'v) gomap \<Rightarrow> bool" where
  "gomap_wf m \<equiv> distinct (map fst m)"

abbreviation gomap_get :: "('k, 'v) gomap \<Rightarrow> 'k \<Rightarrow> 'v option" where
  "gomap_get m k \<equiv> map_of m k"

abbreviation gomap_put :: "'k \<Rightarrow> 'v \<Rightarrow> ('k, 'v) gomap \<Rightarrow> ('k, 'v) gomap" where
  "gomap_put k v m \<equiv> AList.update k v m"

abbreviation gomap_del :: "'k \<Rightarrow> ('k, 'v) gomap \<Rightarrow> ('k, 'v) gomap" where
  "gomap_del k m \<equiv> AList.delete k m"

lemma gomap_get_put [simp]: "gomap_get (gomap_put k v m) k' = (if k' = k then Some v else gomap_get m k')"
  by (simp add: update_conv')

lemma gomap_get_del [simp]: "gomap_get (gomap_del k m) k' = (if k' = k then None else gomap_get m k')"
  by (simp add: delete_conv')

lemma gomap_wf_put [simp]: "gomap_wf m \<Longrightarrow> gomap_wf (gomap_put k v m)"
  by (rule distinct_update)

lemma gomap_wf_del [simp]: "gomap_wf m \<Longrightarrow> gomap_wf (gomap_del k m)"
  by (rule distinct_delete)

lemma gomap_put_new: "k \<notin> fst ` set m \<Longrightarrow> gomap_put k v m = m @ [(k, v)]"
  by (induction m) auto

lemma gomap_length_put:
  "length (gomap_put k v m) = (if k \<in> fst ` set m then length m else Suc (length m))"
  by (induction m) auto

end
