(* ===== verification/Go_Strings.thy ===== *)
theory Go_Strings
  imports Prelude Unicode_Tables
begin

text \<open>
  Go strings are byte sequences, here Isabelle's \<open>string\<close> (a list of 8-bit characters). This
  theory models what the program uses of the packages \<^verbatim>\<open>strings\<close>, \<^verbatim>\<open>unicode\<close>,
  \<^verbatim>\<open>unicode/utf8\<close> and \<^verbatim>\<open>fmt\<close>: UTF-8 decoding as \<^verbatim>\<open>for _, r := range s\<close> does it,
  \<^verbatim>\<open>TrimSpace\<close>, \<^verbatim>\<open>ContainsAny\<close>, \<^verbatim>\<open>Contains\<close>, \<^verbatim>\<open>Count\<close>, \<^verbatim>\<open>ReplaceAll\<close>,
  \<^verbatim>\<open>ToLower\<close>, \<^verbatim>\<open>Join\<close>, and \<^verbatim>\<open>Sprintf\<close> for the verbs \<^verbatim>\<open>%s\<close> and \<^verbatim>\<open>%d\<close>.
\<close>

section \<open>UTF-8\<close>

definition rune_error :: rune where
  "rune_error = 65533"

definition cont_byte :: "nat \<Rightarrow> bool" where
  "cont_byte b \<longleftrightarrow> 128 \<le> b \<and> b \<le> 191"

text \<open>The range of the second byte depends on the first (no overlong forms, no surrogates).\<close>

definition second_byte :: "nat \<Rightarrow> nat \<Rightarrow> bool" where
  "second_byte b0 b1 \<longleftrightarrow>
     (if b0 = 224 then 160 else if b0 = 240 then 144 else 128) \<le> b1 \<and>
     b1 \<le> (if b0 = 237 then 159 else if b0 = 244 then 143 else 191)"

text \<open>\<^verbatim>\<open>utf8.DecodeRune\<close>: the first rune and its width; a byte that starts no encoding is
  \<^verbatim>\<open>RuneError\<close> of width 1.\<close>

fun decode_bytes :: "nat list \<Rightarrow> rune \<times> nat" where
  "decode_bytes [] = (rune_error, 0)"
| "decode_bytes (b0 # bs) =
     (if b0 < 128 then (b0, 1)
      else if b0 < 194 \<or> 244 < b0 then (rune_error, 1)
      else case bs of
        [] \<Rightarrow> (rune_error, 1)
      | b1 # bs1 \<Rightarrow>
          if \<not> second_byte b0 b1 then (rune_error, 1)
          else if b0 < 224 then (b0 mod 32 * 64 + b1 mod 64, 2)
          else (case bs1 of
            [] \<Rightarrow> (rune_error, 1)
          | b2 # bs2 \<Rightarrow>
              if \<not> cont_byte b2 then (rune_error, 1)
              else if b0 < 240 then (b0 mod 16 * 4096 + b1 mod 64 * 64 + b2 mod 64, 3)
              else (case bs2 of
                [] \<Rightarrow> (rune_error, 1)
              | b3 # _ \<Rightarrow>
                  if \<not> cont_byte b3 then (rune_error, 1)
                  else (b0 mod 8 * 262144 + b1 mod 64 * 4096 + b2 mod 64 * 64 + b3 mod 64, 4))))"

definition decode_rune :: "string \<Rightarrow> rune \<times> nat" where
  "decode_rune s = decode_bytes (map of_char s)"

lemma decode_bytes_width: "bs \<noteq> [] \<Longrightarrow> 0 < snd (decode_bytes bs) \<and> snd (decode_bytes bs) \<le> length bs"
  by (cases bs) (auto split: list.splits)

lemma decode_bytes_prefix:
  "decode_bytes (as @ bs) = (r, n) \<Longrightarrow> as \<noteq> [] \<Longrightarrow> n \<le> length as \<Longrightarrow> decode_bytes as = (r, n)"
  by (cases as) (auto split: list.splits if_splits simp: append_eq_Cons_conv)

lemma decode_rune_width: "s \<noteq> [] \<Longrightarrow> 0 < snd (decode_rune s) \<and> snd (decode_rune s) \<le> length s"
  using decode_bytes_width [of "map of_char s"] by (simp add: decode_rune_def)

text \<open>\<^verbatim>\<open>for _, r := range s\<close>: the runes of a string, each with the bytes it was read from.\<close>

function runes :: "string \<Rightarrow> (rune \<times> string) list" where
  "runes s = (if s = [] then []
     else (let (r, n) = decode_rune s in (r, take n s) # runes (drop n s)))"
  by pat_completeness auto
termination
proof (relation "measure length")
  fix s :: string and x r n
  assume "s \<noteq> []" and "x = decode_rune s" and "(r, n) = x"
  then show "(drop n s, s) \<in> measure length"
    using decode_rune_width [of s] by (cases "decode_rune s") auto
qed simp

declare runes.simps [simp del]

lemma runes_Nil [simp]: "runes [] = []"
  by (simp add: runes.simps)

lemma runes_Cons:
  "runes (c # s) = (fst (decode_rune (c # s)), take (snd (decode_rune (c # s))) (c # s))
     # runes (drop (snd (decode_rune (c # s))) (c # s))"
  by (simp add: runes.simps [of "c # s"] case_prod_beta)

lemma runes_ascii [simp]:
  "(of_char c :: nat) < 128 \<Longrightarrow> runes (c # s) = (of_char c, [c]) # runes s"
  by (simp add: runes_Cons decode_rune_def)

lemma runes_eq_Nil [simp]: "runes s = [] \<longleftrightarrow> s = []"
  by (cases s) (simp_all add: runes_Cons)

lemma concat_runes [simp]: "concat (map snd (runes s)) = s"
proof (induction s rule: runes.induct)
  case (1 s)
  show ?case
  proof (cases s)
    case (Cons c cs)
    with "1" have "concat (map snd (runes (drop (snd (decode_rune s)) s))) = drop (snd (decode_rune s)) s"
      by (cases "decode_rune s") auto
    with Cons show ?thesis by (simp add: runes_Cons)
  qed simp
qed

text \<open>Decoding is stable when the string is cut at a rune boundary.\<close>

lemma runes_append_split:
  "runes s = xs @ ys \<Longrightarrow> runes (concat (map snd xs)) = xs \<and> runes (concat (map snd ys)) = ys"
proof (induction xs arbitrary: s)
  case Nil
  then have "concat (map snd ys) = s" by (metis append_Nil concat_runes)
  with Nil show ?case by simp
next
  case (Cons x xs)
  then obtain c cs where s: "s = c # cs" by (cases s) auto
  define n where "n = snd (decode_rune s)"
  have n: "0 < n" "n \<le> length s"
    using decode_rune_width [of s] s by (auto simp: n_def)
  from Cons.prems s have x: "x = (fst (decode_rune s), take n s)"
    and rest: "runes (drop n s) = xs @ ys"
    by (auto simp: runes_Cons n_def)
  note IH = Cons.IH [OF rest]
  have dec: "decode_rune (take n s @ concat (map snd xs)) = decode_rune s"
  proof -
    have "s = (take n s @ concat (map snd xs)) @ concat (map snd ys)"
      using rest concat_runes [of "drop n s"] by simp
    then have "decode_bytes (map of_char (take n s @ concat (map snd xs)) @ map of_char (concat (map snd ys)))
       = (fst (decode_rune s), n)"
      by (simp add: decode_rune_def n_def flip: map_append)
    then have "decode_bytes (map of_char (take n s @ concat (map snd xs))) = (fst (decode_rune s), n)"
      by (rule decode_bytes_prefix) (use n in auto)
    then show ?thesis by (simp add: decode_rune_def n_def)
  qed
  obtain d ds where d: "take n s @ concat (map snd xs) = d # ds"
    using n s by (cases "take n s @ concat (map snd xs)") auto
  have "runes (d # ds) = (fst (decode_rune s), take n (d # ds)) # runes (drop n (d # ds))"
    using runes_Cons [of d ds] unfolding dec [unfolded d] n_def .
  then have "runes (take n s @ concat (map snd xs)) = x # xs"
    unfolding d [symmetric] using IH n x by simp
  with IH x show ?case by simp
qed

section \<open>Character classes and trimming\<close>

definition is_space :: "rune \<Rightarrow> bool" where
  "is_space r = in_ranges space_ranges r"

definition is_letter :: "rune \<Rightarrow> bool" where
  "is_letter r = in_ranges letter_ranges r"

definition is_digit :: "rune \<Rightarrow> bool" where
  "is_digit r = in_ranges digit_ranges r"

definition trim_runes :: "(rune \<times> string) list \<Rightarrow> (rune \<times> string) list" where
  "trim_runes xs = rev (dropWhile (is_space \<circ> fst) (rev (dropWhile (is_space \<circ> fst) xs)))"

text \<open>\<^verbatim>\<open>strings.TrimSpace\<close>.\<close>

definition trim_space :: "string \<Rightarrow> string" where
  "trim_space s = concat (map snd (trim_runes (runes s)))"

text \<open>The test \<^verbatim>\<open>strings.TrimSpace(s) == ""\<close>, which every validator makes.\<close>

abbreviation blank :: "string \<Rightarrow> bool" where
  "blank s \<equiv> trim_space s = []"

lemma trim_runes_idem: "trim_runes (trim_runes xs) = trim_runes xs"
  by (simp add: trim_runes_def dropWhile_idem dropWhile_rev_not)

lemma trim_runes_infix: "\<exists>as bs. xs = as @ trim_runes xs @ bs"
proof -
  let ?P = "is_space \<circ> fst" and ?d = "dropWhile (is_space \<circ> fst) xs"
  have "rev ?d = takeWhile ?P (rev ?d) @ dropWhile ?P (rev ?d)" by simp
  then have "?d = trim_runes xs @ rev (takeWhile ?P (rev ?d))"
    unfolding trim_runes_def by (metis rev_append rev_rev_ident)
  then have "xs = takeWhile ?P xs @ trim_runes xs @ rev (takeWhile ?P (rev ?d))"
    by (metis takeWhile_dropWhile_id)
  then show ?thesis by blast
qed

lemma runes_trim_space: "runes (trim_space s) = trim_runes (runes s)"
proof -
  obtain as bs where *: "runes s = as @ trim_runes (runes s) @ bs"
    using trim_runes_infix by blast
  from runes_append_split [OF *] have "runes (concat (map snd (trim_runes (runes s) @ bs)))
    = trim_runes (runes s) @ bs" by blast
  from runes_append_split [OF this] show ?thesis by (simp add: trim_space_def)
qed

lemma trim_space_idem [simp]: "trim_space (trim_space s) = trim_space s"
  unfolding trim_space_def [of "trim_space s"] runes_trim_space trim_runes_idem
  by (simp add: trim_space_def)

lemma trim_space_Nil [simp]: "trim_space [] = []"
  by (simp add: trim_space_def trim_runes_def)

text \<open>A string is blank exactly when all its runes are white space.\<close>

lemma trim_runes_eq_Nil: "trim_runes xs = [] \<longleftrightarrow> (\<forall>x \<in> set xs. is_space (fst x))"
  by (simp add: trim_runes_def) (induction xs, auto)

lemma blank_iff: "blank s \<longleftrightarrow> (\<forall>x \<in> set (runes s). is_space (fst x))"
proof -
  have "trim_space s = [] \<longleftrightarrow> runes (trim_space s) = []" by simp
  also have "\<dots> \<longleftrightarrow> trim_runes (runes s) = []" by (simp only: runes_trim_space)
  finally show ?thesis by (simp only: trim_runes_eq_Nil)
qed

section \<open>Searching\<close>

definition contains_char :: "string \<Rightarrow> char \<Rightarrow> bool" where
  "contains_char s c \<longleftrightarrow> List.member s c"

definition contains_any :: "string \<Rightarrow> string \<Rightarrow> bool" where
  "contains_any s chars \<longleftrightarrow> list_ex (\<lambda>c. List.member chars c) s"

text \<open>The cutset \<^verbatim>\<open>" \t\r\n"\<close> of the validators.\<close>

definition ws_chars :: string where
  "ws_chars = [CHR '' '', CHR 0x09, CHR 0x0D, CHR 0x0A]"

lemma contains_char_iff [simp]: "contains_char s c \<longleftrightarrow> c \<in> set s"
  by (simp add: contains_char_def)

lemma contains_any_iff [simp]: "contains_any s chars \<longleftrightarrow> set s \<inter> set chars \<noteq> {}"
  by (auto simp: contains_any_def list_ex_iff)

text \<open>\<^verbatim>\<open>strings.Contains(s, sub)\<close>.\<close>

fun contains :: "string \<Rightarrow> string \<Rightarrow> bool" where
  "contains [] sub = (sub = [])"
| "contains (c # s) sub = (prefix sub (c # s) \<or> contains s sub)"

lemma contains_iff: "contains s sub \<longleftrightarrow> sublist sub s"
  by (induction s) (auto simp: sublist_Cons_right)

text \<open>
  \<^verbatim>\<open>strings.Count(s, "%s")\<close> and \<^verbatim>\<open>strings.ReplaceAll(s, "%s", "")\<close>, the only instances the
  program uses: non-overlapping, left to right.
\<close>

fun count_verbs :: "string \<Rightarrow> nat" where
  "count_verbs (a # b # s) =
     (if a = CHR ''%'' \<and> b = CHR ''s'' then Suc (count_verbs s) else count_verbs (b # s))"
| "count_verbs s = 0"

fun remove_verbs :: "string \<Rightarrow> string" where
  "remove_verbs (a # b # s) =
     (if a = CHR ''%'' \<and> b = CHR ''s'' then remove_verbs s else a # remove_verbs (b # s))"
| "remove_verbs s = s"

text \<open>
  \<^verbatim>\<open>fmt.Sprintf\<close> with string arguments. Verbs other than \<^verbatim>\<open>%s\<close> are copied: the validators
  of both pattern kinds reject every other use of the percent sign, so none reaches it.
\<close>

fun sprintf :: "string \<Rightarrow> string list \<Rightarrow> string" where
  "sprintf (a # b # s) args =
     (if a = CHR ''%'' \<and> b = CHR ''s''
      then (case args of [] \<Rightarrow> ''%!s(MISSING)'' @ sprintf s [] | x # xs \<Rightarrow> x @ sprintf s xs)
      else a # sprintf (b # s) args)"
| "sprintf s [] = s"
| "sprintf s args = s @ ''%!(EXTRA string='' @ concat args @ '')''"

text \<open>A pattern with at least one verb splits at the first one.\<close>

lemma count_verbs_split:
  assumes "0 < count_verbs p"
  obtains a b where "p = a @ ''%s'' @ b" and "remove_verbs p = a @ remove_verbs b"
    and "count_verbs p = Suc (count_verbs b)"
    and "\<And>args. sprintf p args = a @ sprintf (''%s'' @ b) args"
proof -
  have "\<exists>a b. p = a @ ''%s'' @ b \<and> remove_verbs p = a @ remove_verbs b \<and>
      count_verbs p = Suc (count_verbs b) \<and> (\<forall>args. sprintf p args = a @ sprintf (''%s'' @ b) args)"
    using assms
  proof (induction p rule: count_verbs.induct)
    case (1 x y s)
    show ?case
    proof (cases "x = CHR ''%'' \<and> y = CHR ''s''")
      case True
      then show ?thesis by (auto intro: exI [of _ "[]"])
    next
      case False
      then have eqs: "remove_verbs (x # y # s) = x # remove_verbs (y # s)"
        "count_verbs (x # y # s) = count_verbs (y # s)"
        "\<forall>args. sprintf (x # y # s) args = x # sprintf (y # s) args" by auto
      from False "1.IH" "1.prems" obtain a b where "y # s = a @ ''%s'' @ b"
        "remove_verbs (y # s) = a @ remove_verbs b" "count_verbs (y # s) = Suc (count_verbs b)"
        "\<forall>args. sprintf (y # s) args = a @ sprintf (''%s'' @ b) args" by auto
      with eqs have "x # y # s = (x # a) @ ''%s'' @ b"
        "remove_verbs (x # y # s) = (x # a) @ remove_verbs b"
        "count_verbs (x # y # s) = Suc (count_verbs b)"
        "\<forall>args. sprintf (x # y # s) args = (x # a) @ sprintf (''%s'' @ b) args"
        by (simp_all only: append_Cons simp_thms)
      then show ?thesis by blast
    qed
  qed simp_all
  then show thesis using that by blast
qed

lemma remove_verbs_none: "count_verbs p = 0 \<Longrightarrow> remove_verbs p = p"
  by (induction p rule: remove_verbs.induct) (auto split: if_splits)

lemma sprintf_none: "count_verbs p = 0 \<Longrightarrow> sprintf p [] = p"
  by (induction p rule: remove_verbs.induct) (auto split: if_splits)

text \<open>What a pattern with one or two verbs and no other percent sign expands to.\<close>

lemma sprintf_one:
  assumes "count_verbs p = 1" and "CHR ''%'' \<notin> set (remove_verbs p)"
  obtains a b where "p = a @ ''%s'' @ b" and "CHR ''%'' \<notin> set (a @ b)"
    and "\<forall>x. sprintf p [x] = a @ x @ b"
proof -
  obtain a b where p: "p = a @ ''%s'' @ b" and r: "remove_verbs p = a @ remove_verbs b"
    and c: "count_verbs p = Suc (count_verbs b)"
    and s: "\<And>args. sprintf p args = a @ sprintf (''%s'' @ b) args"
    using count_verbs_split [of p] assms(1) by (metis zero_less_one)
  from c assms(1) have b: "count_verbs b = 0" by simp
  show thesis
    by (rule that [of a b]) (use p r s assms(2) b in \<open>simp_all add: remove_verbs_none sprintf_none\<close>)
qed

lemma sprintf_two:
  assumes "count_verbs p = 2" and "CHR ''%'' \<notin> set (remove_verbs p)"
  obtains a b c where "p = a @ ''%s'' @ b @ ''%s'' @ c" and "CHR ''%'' \<notin> set (a @ b @ c)"
    and "\<forall>x y. sprintf p [x, y] = a @ x @ b @ y @ c"
proof -
  obtain a q where p: "p = a @ ''%s'' @ q" and r: "remove_verbs p = a @ remove_verbs q"
    and c: "count_verbs p = Suc (count_verbs q)"
    and s: "\<And>args. sprintf p args = a @ sprintf (''%s'' @ q) args"
    using count_verbs_split [of p] assms(1) by (metis zero_less_numeral)
  from c assms(1) have "count_verbs q = 1" by simp
  moreover from r assms(2) have "CHR ''%'' \<notin> set (remove_verbs q)" by simp
  ultimately obtain b d where q: "q = b @ ''%s'' @ d" "CHR ''%'' \<notin> set (b @ d)"
    "\<forall>x. sprintf q [x] = b @ x @ d" by (rule sprintf_one)
  show thesis
    by (rule that [of a b d]) (use p r s q assms(2) in auto)
qed

text \<open>A verb is found wherever it stands in a pattern.\<close>

lemma verbs_append:
  "count_verbs (x @ ''%s'' @ y) = Suc (count_verbs x + count_verbs y) \<and>
   remove_verbs (x @ ''%s'' @ y) = remove_verbs x @ remove_verbs y"
  by (induction x rule: count_verbs.induct) auto

lemma sprintf_prefix:
  "CHR ''%'' \<notin> set x \<Longrightarrow> sprintf (x @ ''%s'' @ y) (v # vs) = x @ v @ sprintf y vs"
proof (induction x)
  case (Cons a x)
  then show ?case by (cases x) auto
qed simp

lemma sprintf_plain: "CHR ''%'' \<notin> set z \<Longrightarrow> sprintf z [] = z"
proof (induction z)
  case (Cons a z)
  then show ?case by (cases z) auto
qed simp

section \<open>Lower case, joining, decimal numbers\<close>

text \<open>
  \<^verbatim>\<open>strings.ToLower\<close>. The program compares its result with ASCII words only, so beyond
  ASCII just the two code points whose lower case is an ASCII letter are mapped (U+0130 and
  U+212A); every other non-ASCII rune maps to a non-ASCII rune in Go and is left as it is.
\<close>

definition lower_char :: "char \<Rightarrow> char" where
  "lower_char c = (let n = of_char c in if 65 \<le> n \<and> n \<le> (90::nat) then char_of (n + 32) else c)"

definition lower_rune :: "rune \<times> string \<Rightarrow> string" where
  "lower_rune x = (if fst x = 304 then ''i'' else if fst x = 8490 then ''k''
     else map lower_char (snd x))"

definition to_lower :: "string \<Rightarrow> string" where
  "to_lower s = concat (map lower_rune (runes s))"

fun join_with :: "string \<Rightarrow> string list \<Rightarrow> string" where
  "join_with sep [] = []"
| "join_with sep [x] = x"
| "join_with sep (x # y # xs) = x @ sep @ join_with sep (y # xs)"

definition digit_char :: "nat \<Rightarrow> char" where
  "digit_char d = char_of (48 + d)"

fun show_nat :: "nat \<Rightarrow> string" where
  "show_nat n = (if n < 10 then [digit_char n] else show_nat (n div 10) @ [digit_char (n mod 10)])"

declare show_nat.simps [simp del]

fun read_nat :: "nat \<Rightarrow> string \<Rightarrow> nat" where
  "read_nat acc [] = acc"
| "read_nat acc (c # s) = read_nat (acc * 10 + (of_char c - 48)) s"

lemma read_nat_append: "read_nat acc (s @ t) = read_nat (read_nat acc s) t"
  by (induction s arbitrary: acc) simp_all

lemma of_char_digit_char: "d < 10 \<Longrightarrow> of_char (digit_char d) = 48 + d"
  by (simp add: digit_char_def of_char_of)

lemma read_show_nat: "read_nat 0 (show_nat n) = n"
proof (induction n rule: show_nat.induct)
  case (1 n)
  then show ?case
    by (cases "n < 10") (simp_all add: show_nat.simps [of n] read_nat_append of_char_digit_char)
qed

lemma show_nat_inject [simp]: "show_nat m = show_nat n \<longleftrightarrow> m = n"
  by (metis read_show_nat)

section \<open>Evaluating on literals\<close>

text \<open>On ASCII literals the string functions compute by rewriting with \<open>go_simps\<close>.\<close>

lemmas [go_simps] = trim_space_def trim_runes_def is_space_def space_ascii ws_chars_def

lemma is_space_ascii [simp]: "r < 128 \<Longrightarrow> is_space r \<longleftrightarrow> 9 \<le> r \<and> r \<le> 13 \<or> r = 32"
  by (simp add: is_space_def space_ascii)

text \<open>A string with an ASCII character that is no space is not blank.\<close>

lemma not_blank_ascii:
  "(of_char c :: nat) < 128 \<Longrightarrow> \<not> is_space (of_char c) \<Longrightarrow> \<not> blank (c # s)"
  by (auto simp: blank_iff simp del: is_space_ascii)

end
