(* ===== verification/Errors.thy ===== *)
theory Errors
  imports Go_Strings
begin

text \<open>
  Go's \<^verbatim>\<open>error\<close> values as the program builds and inspects them: the internal typed error
  (\<^verbatim>\<open>internal/runtimeerr\<close>), the public typed error (\<^verbatim>\<open>agentcore/errors.go\<close>), joined and
  wrapped errors, and the sentinels the code compares with \<^verbatim>\<open>errors.Is\<close>. \<open>to_public_error\<close> is
  the boundary every public method passes its errors through (\<^verbatim>\<open>agentcore/client.go\<close>).
  A nil error is \<open>None\<close>.
\<close>

section \<open>Codes\<close>

datatype rt_code =
    RtValidation | RtConnectionFailed | RtDisconnected | RtJetStreamFailed | RtKVStoreFailed
  | RtKVReadFailed | RtConfigNotFound | RtPublishFailed | RtDecodeFailed | RtEncodeFailed
  | RtSubscribeFailed | RtRegistryConflict | RtShutdown

datatype code =
    CodeValidation | CodeConnectionFailed | CodeDisconnected | CodeJetStreamFailed
  | CodeKVStoreFailed | CodeKVReadFailed | CodeConfigNotFound | CodePublishFailed
  | CodeSubscribeFailed | CodeDecodeFailed | CodeEncodeFailed | CodeRegistryConflict
  | CodeShutdown | CodeNotImplemented

fun rt_code_text :: "rt_code \<Rightarrow> string" where
  "rt_code_text RtValidation = ''validation''"
| "rt_code_text RtConnectionFailed = ''connection_failed''"
| "rt_code_text RtDisconnected = ''disconnected''"
| "rt_code_text RtJetStreamFailed = ''jetstream_failed''"
| "rt_code_text RtKVStoreFailed = ''kv_store_failed''"
| "rt_code_text RtKVReadFailed = ''kv_read_failed''"
| "rt_code_text RtConfigNotFound = ''config_not_found''"
| "rt_code_text RtPublishFailed = ''publish_failed''"
| "rt_code_text RtDecodeFailed = ''decode_failed''"
| "rt_code_text RtEncodeFailed = ''encode_failed''"
| "rt_code_text RtSubscribeFailed = ''subscribe_failed''"
| "rt_code_text RtRegistryConflict = ''registry_conflict''"
| "rt_code_text RtShutdown = ''shutdown''"

fun code_text :: "code \<Rightarrow> string" where
  "code_text CodeValidation = ''validation''"
| "code_text CodeConnectionFailed = ''connection_failed''"
| "code_text CodeDisconnected = ''disconnected''"
| "code_text CodeJetStreamFailed = ''jetstream_failed''"
| "code_text CodeKVStoreFailed = ''kv_store_failed''"
| "code_text CodeKVReadFailed = ''kv_read_failed''"
| "code_text CodeConfigNotFound = ''config_not_found''"
| "code_text CodePublishFailed = ''publish_failed''"
| "code_text CodeSubscribeFailed = ''subscribe_failed''"
| "code_text CodeDecodeFailed = ''decode_failed''"
| "code_text CodeEncodeFailed = ''encode_failed''"
| "code_text CodeRegistryConflict = ''registry_conflict''"
| "code_text CodeShutdown = ''shutdown''"
| "code_text CodeNotImplemented = ''not_implemented''"

text \<open>The string conversion \<^verbatim>\<open>Code(internal.Code)\<close>.\<close>

fun public_code :: "rt_code \<Rightarrow> code" where
  "public_code RtValidation = CodeValidation"
| "public_code RtConnectionFailed = CodeConnectionFailed"
| "public_code RtDisconnected = CodeDisconnected"
| "public_code RtJetStreamFailed = CodeJetStreamFailed"
| "public_code RtKVStoreFailed = CodeKVStoreFailed"
| "public_code RtKVReadFailed = CodeKVReadFailed"
| "public_code RtConfigNotFound = CodeConfigNotFound"
| "public_code RtPublishFailed = CodePublishFailed"
| "public_code RtDecodeFailed = CodeDecodeFailed"
| "public_code RtEncodeFailed = CodeEncodeFailed"
| "public_code RtSubscribeFailed = CodeSubscribeFailed"
| "public_code RtRegistryConflict = CodeRegistryConflict"
| "public_code RtShutdown = CodeShutdown"

lemma public_code_text [simp]: "code_text (public_code c) = rt_code_text c"
  by (cases c) simp_all

lemma public_code_inject [simp]: "public_code c = public_code d \<longleftrightarrow> c = d"
  by (cases c; cases d) simp_all

section \<open>Error values\<close>

text \<open>
  \<open>Sentinel\<close> is a package-level error variable, compared by identity; those of the NATS
  packages come from outside the repository, so the value carries the text the library gave it.
  \<open>ErrText\<close> is any other error without a cause, \<open>ErrWrap\<close> is \<^verbatim>\<open>fmt.Errorf("p: %w", err)\<close>.
\<close>

datatype sentinel =
    NatsErrKeyNotFound | NatsErrKeyDeleted | JsErrKeyNotFound | JsErrKeyDeleted
  | NatsErrBucketNotFound | CtxCanceled | CtxDeadlineExceeded

datatype gerr =
    Sentinel sentinel string
  | ErrText string
  | ErrWrap string gerr
  | ErrJoin "gerr list"
  | RtError (rt_err_code: rt_code) (rt_err_op: string) (rt_err_subject: string)
      (rt_err_key: string) (rt_err_message: string) (rt_err_retryable: bool)
      (rt_err_cause: "gerr option")
  | AgError (ag_err_code: code) (ag_err_op: string) (ag_err_subject: string)
      (ag_err_key: string) (ag_err_message: string) (ag_err_retryable: bool)
      (ag_err_cause: "gerr option")

abbreviation ctx_canceled :: gerr where
  "ctx_canceled \<equiv> Sentinel CtxCanceled ''context canceled''"

abbreviation ctx_deadline_exceeded :: gerr where
  "ctx_deadline_exceeded \<equiv> Sentinel CtxDeadlineExceeded ''context deadline exceeded''"

text \<open>\<^verbatim>\<open>(*Error).Error()\<close> of the two typed errors.\<close>

definition runtime_error_string :: "rt_code \<Rightarrow> string \<Rightarrow> string \<Rightarrow> string" where
  "runtime_error_string c op msg =
     (if op = [] \<and> msg = [] then rt_code_text c
      else if op = [] then rt_code_text c @ '': '' @ msg
      else if msg = [] then op @ '': '' @ rt_code_text c
      else op @ '': '' @ msg @ '' ('' @ rt_code_text c @ '')'')"

definition agent_error_string :: "code \<Rightarrow> string \<Rightarrow> string \<Rightarrow> string" where
  "agent_error_string c op msg =
     (if op = [] \<and> msg = [] then code_text c
      else if op = [] then code_text c @ '': '' @ msg
      else if msg = [] then op @ '': '' @ code_text c
      else op @ '': '' @ msg @ '' ('' @ code_text c @ '')'')"

fun error_text :: "gerr \<Rightarrow> string" where
  "error_text (Sentinel _ t) = t"
| "error_text (ErrText t) = t"
| "error_text (ErrWrap p e) = p @ '': '' @ error_text e"
| "error_text (ErrJoin es) = join_with [CHR 0x0A] (map error_text es)"
| "error_text (RtError c op _ _ msg _ _) = runtime_error_string c op msg"
| "error_text (AgError c op _ _ msg _ _) = agent_error_string c op msg"

text \<open>\<^verbatim>\<open>Unwrap\<close>: the causes directly below an error.\<close>

fun unwrap :: "gerr \<Rightarrow> gerr list" where
  "unwrap (ErrWrap _ e) = [e]"
| "unwrap (ErrJoin es) = es"
| "unwrap (RtError _ _ _ _ _ _ c) = (case c of None \<Rightarrow> [] | Some e \<Rightarrow> [e])"
| "unwrap (AgError _ _ _ _ _ _ c) = (case c of None \<Rightarrow> [] | Some e \<Rightarrow> [e])"
| "unwrap _ = []"

text \<open>\<^verbatim>\<open>errors.Is(err, sentinel)\<close> walks the tree of causes.\<close>

fun errors_is :: "gerr \<Rightarrow> sentinel \<Rightarrow> bool" where
  "errors_is (Sentinel s _) t = (s = t)"
| "errors_is (ErrText _) t = False"
| "errors_is (ErrWrap _ e) t = errors_is e t"
| "errors_is (ErrJoin es) t = list_ex (\<lambda>e. errors_is e t) es"
| "errors_is (RtError _ _ _ _ _ _ c) t = (case c of None \<Rightarrow> False | Some e \<Rightarrow> errors_is e t)"
| "errors_is (AgError _ _ _ _ _ _ c) t = (case c of None \<Rightarrow> False | Some e \<Rightarrow> errors_is e t)"

text \<open>
  \<^verbatim>\<open>errors.As(err, &internal)\<close> for \<^verbatim>\<open>*runtimeerr.Error\<close>: the first internal error of the
  tree, depth first.
\<close>

fun as_runtime :: "gerr \<Rightarrow> gerr option" and as_runtime_list :: "gerr list \<Rightarrow> gerr option" where
  "as_runtime (Sentinel _ _) = None"
| "as_runtime (ErrText _) = None"
| "as_runtime (ErrWrap _ e) = as_runtime e"
| "as_runtime (ErrJoin es) = as_runtime_list es"
| "as_runtime (RtError c op s k m r cause) = Some (RtError c op s k m r cause)"
| "as_runtime (AgError _ _ _ _ _ _ c) = (case c of None \<Rightarrow> None | Some e \<Rightarrow> as_runtime e)"
| "as_runtime_list [] = None"
| "as_runtime_list (e # es) = (case as_runtime e of Some r \<Rightarrow> Some r | None \<Rightarrow> as_runtime_list es)"

text \<open>\<^verbatim>\<open>errors.Join\<close>: nil arguments are dropped, all nil gives nil.\<close>

definition errors_join :: "gerr option list \<Rightarrow> gerr option" where
  "errors_join es = (case List.map_filter id es of [] \<Rightarrow> None | xs \<Rightarrow> Some (ErrJoin xs))"

section \<open>The public boundary\<close>

definition public_error :: "gerr \<Rightarrow> gerr" where
  "public_error e =
     (case as_runtime e of
        Some (RtError c op s k m r cause) \<Rightarrow> AgError (public_code c) op s k m r cause
      | _ \<Rightarrow> e)"

definition to_public_error :: "gerr option \<Rightarrow> gerr option" where
  "to_public_error err = map_option public_error err"

text \<open>\<^verbatim>\<open>Wrap(code, op, err)\<close>.\<close>

definition wrap_error :: "code \<Rightarrow> string \<Rightarrow> gerr option \<Rightarrow> gerr" where
  "wrap_error c op err = AgError c op [] [] [] False err"

text \<open>\<^verbatim>\<open>validationError\<close> of the internal packages and of the facade.\<close>

definition rt_validation_error :: "string \<Rightarrow> string \<Rightarrow> gerr" where
  "rt_validation_error op msg = RtError RtValidation op [] [] msg False None"

definition validation_error :: "string \<Rightarrow> string \<Rightarrow> gerr" where
  "validation_error op msg = AgError CodeValidation op [] [] msg False None"

section \<open>Lemmas\<close>

lemma as_runtime_RtError:
  "as_runtime e = Some r \<Longrightarrow> \<exists>c op s k m rt cause. r = RtError c op s k m rt cause"
  "as_runtime_list es = Some r \<Longrightarrow> \<exists>c op s k m rt cause. r = RtError c op s k m rt cause"
  by (induction e and es rule: as_runtime_as_runtime_list.induct) (auto split: option.splits)

lemma as_runtime_list_None: "as_runtime_list es = None \<longleftrightarrow> (\<forall>e \<in> set es. as_runtime e = None)"
  by (induction es) (auto split: option.splits)

lemma public_error_Rt [simp]:
  "public_error (RtError c op s k m r cause) = AgError (public_code c) op s k m r cause"
  by (simp add: public_error_def)

lemma public_error_none: "as_runtime e = None \<Longrightarrow> public_error e = e"
  by (simp add: public_error_def)

lemma to_public_error_simps [simp]:
  "to_public_error None = None"
  "to_public_error (Some e) = Some (public_error e)"
  "to_public_error err = None \<longleftrightarrow> err = None"
  by (simp_all add: to_public_error_def)

lemma public_rt_validation [simp]:
  "public_error (rt_validation_error op msg) = validation_error op msg"
  by (simp add: rt_validation_error_def validation_error_def)

lemma public_validation [simp]:
  "public_error (validation_error op msg) = validation_error op msg"
  by (simp add: public_error_none validation_error_def)

lemma errors_join_None [simp]: "errors_join es = None \<longleftrightarrow> (\<forall>e \<in> set es. e = None)"
  by (induction es) (auto simp: errors_join_def List.map_filter_def split: list.splits)

lemma public_error_not_Rt: "public_error e \<noteq> RtError c op s k m r cause"
proof (cases "as_runtime e")
  case None
  then show ?thesis by (cases e) (simp_all add: public_error_none)
next
  case (Some x)
  then obtain c' op' s' k' m' r' cause' where "x = RtError c' op' s' k' m' r' cause'"
    using as_runtime_RtError(1) by blast
  with Some show ?thesis by (simp add: public_error_def)
qed

end
