(* ===== verification/Go_Values.thy ===== *)
theory Go_Values
  imports Errors
begin

text \<open>
  The values of Go's \<^verbatim>\<open>time\<close> and \<^verbatim>\<open>context\<close> packages and the handles of the NATS
  libraries, as far as the program looks at them. A \<^verbatim>\<open>time.Duration\<close> is an \<open>int\<close> of
  nanoseconds (the program compares durations and never adds them), a \<^verbatim>\<open>time.Time\<close> an instant
  counted from the zero time together with the offset of its location, a context the way it was
  derived; whether it is done is asked of the environment. Connections, subscriptions and other
  library objects are pointers the program compares and passes on: numbers.
\<close>

type_synonym duration = int
type_synonym u64 = "64 word"
type_synonym bytes = string

record gotime =
  t_nanos :: int
  t_offset :: int

definition zero_time :: gotime where
  "zero_time = \<lparr>t_nanos = 0, t_offset = 0\<rparr>"

definition is_zero_time :: "gotime \<Rightarrow> bool" where
  "is_zero_time t \<longleftrightarrow> t_nanos t = 0"

definition time_utc :: "gotime \<Rightarrow> gotime" where
  "time_utc t = t\<lparr>t_offset := 0\<rparr>"

lemma is_zero_time_utc [simp]: "is_zero_time (time_utc t) = is_zero_time t"
  by (simp add: is_zero_time_def time_utc_def)

definition seconds :: "int \<Rightarrow> duration" where
  "seconds n = n * 1000000000"

definition milliseconds :: "int \<Rightarrow> duration" where
  "milliseconds n = n * 1000000"

text \<open>
  \<open>CtxCaller i d\<close> is a context passed in by a caller, \<open>d\<close> telling whether it has a
  deadline; the other constructors are the derivations the program makes. A nil context is
  \<open>None\<close> of type \<open>gctx option\<close>.
\<close>

datatype gctx =
    CtxBackground
  | CtxCaller nat bool
  | CtxTimeout gctx duration
  | CtxCancel gctx nat

fun ctx_has_deadline :: "gctx \<Rightarrow> bool" where
  "ctx_has_deadline CtxBackground = False"
| "ctx_has_deadline (CtxCaller _ d) = d"
| "ctx_has_deadline (CtxTimeout _ _) = True"
| "ctx_has_deadline (CtxCancel c _) = ctx_has_deadline c"

type_synonym conn = nat
type_synonym subscription = nat
type_synonym jetstream = nat
type_synonym kv_handle = nat
type_synonym watcher = nat

datatype nats_status =
    NatsDisconnected | NatsConnected | NatsClosed | NatsReconnecting | NatsConnecting
  | NatsDrainingSubs | NatsDrainingPubs

datatype kv_op = KvPut | KvDelete | KvPurge

text \<open>\<^verbatim>\<open>jetstream.KeyValueEntry\<close>.\<close>

record kv_entry =
  ke_bucket :: string
  ke_key :: string
  ke_value :: bytes
  ke_revision :: u64
  ke_created :: gotime
  ke_operation :: kv_op

text \<open>What a call of user code comes back with: a value, or the panic it raised.\<close>

datatype 'a outcome = Returns 'a | Panics string

end
