(* ===== verification/Json_Scan.thy ===== *)
theory Json_Scan
  imports Prelude
begin

text \<open>
  The byte-at-a-time scanner of Go's \<^verbatim>\<open>encoding/json\<close> (its \<^verbatim>\<open>scanner.go\<close>), which decides
  \<^verbatim>\<open>json.Valid\<close> and runs before every \<^verbatim>\<open>json.Unmarshal\<close>. A scanner is a step and a stack of
  enclosing objects and arrays; the four-state literals (\<^verbatim>\<open>true\<close>, \<^verbatim>\<open>false\<close>, \<^verbatim>\<open>null\<close>) are one
  step that holds the bytes still expected, and the hexadecimal escape one step that counts.
\<close>

datatype parse_state = ParseObjectKey | ParseObjectValue | ParseArrayValue

datatype scan_step =
    BeginValueOrEmpty | BeginValue | BeginStringOrEmpty | BeginString | EndValue | EndTop
  | InString | InStringEsc | InStringEscU nat
  | AfterNeg | Digits1 | AfterInt | AfterDot | Digits0 | AfterExp | AfterExpSign | ExpDigits
  | InLiteral string

record scanner =
  sc_step :: scan_step
  sc_stack :: "parse_state list"

definition max_nesting_depth :: nat where
  "max_nesting_depth = 10000"

definition json_space :: "char \<Rightarrow> bool" where
  "json_space c \<longleftrightarrow> c = CHR '' '' \<or> c = CHR 0x09 \<or> c = CHR 0x0D \<or> c = CHR 0x0A"

definition dec_digit :: "char \<Rightarrow> bool" where
  "dec_digit c \<longleftrightarrow> (48::nat) \<le> of_char c \<and> of_char c \<le> (57::nat)"

definition hex_digit :: "char \<Rightarrow> bool" where
  "hex_digit c \<longleftrightarrow> dec_digit c \<or> (65::nat) \<le> of_char c \<and> of_char c \<le> (70::nat)
     \<or> (97::nat) \<le> of_char c \<and> of_char c \<le> (102::nat)"

definition push_state :: "scan_step \<Rightarrow> parse_state \<Rightarrow> parse_state list \<Rightarrow> scanner option" where
  "push_state st p stack =
     (if length (p # stack) \<le> max_nesting_depth then Some \<lparr>sc_step = st, sc_stack = p # stack\<rparr>
      else None)"

definition pop_state :: "parse_state list \<Rightarrow> scanner" where
  "pop_state rest = \<lparr>sc_step = (if rest = [] then EndTop else EndValue), sc_stack = rest\<rparr>"

abbreviation goto :: "scan_step \<Rightarrow> parse_state list \<Rightarrow> scanner option" where
  "goto st stack \<equiv> Some \<lparr>sc_step = st, sc_stack = stack\<rparr>"

definition step_end_value :: "parse_state list \<Rightarrow> char \<Rightarrow> scanner option" where
  "step_end_value stack c =
     (case stack of
        [] \<Rightarrow> if json_space c then goto EndTop [] else None
      | ps # rest \<Rightarrow>
          if json_space c then goto EndValue stack
          else (case ps of
            ParseObjectKey \<Rightarrow>
              if c = CHR '':'' then goto BeginValue (ParseObjectValue # rest) else None
          | ParseObjectValue \<Rightarrow>
              if c = CHR '','' then goto BeginString (ParseObjectKey # rest)
              else if c = CHR ''}'' then Some (pop_state rest) else None
          | ParseArrayValue \<Rightarrow>
              if c = CHR '','' then goto BeginValue stack
              else if c = CHR '']'' then Some (pop_state rest) else None))"

definition step_begin_value :: "parse_state list \<Rightarrow> char \<Rightarrow> scanner option" where
  "step_begin_value stack c =
     (if json_space c then goto BeginValue stack
      else if c = CHR ''{'' then push_state BeginStringOrEmpty ParseObjectKey stack
      else if c = CHR ''['' then push_state BeginValueOrEmpty ParseArrayValue stack
      else if c = CHR 0x22 then goto InString stack
      else if c = CHR ''-'' then goto AfterNeg stack
      else if c = CHR ''0'' then goto AfterInt stack
      else if c = CHR ''t'' then goto (InLiteral ''rue'') stack
      else if c = CHR ''f'' then goto (InLiteral ''alse'') stack
      else if c = CHR ''n'' then goto (InLiteral ''ull'') stack
      else if dec_digit c then goto Digits1 stack
      else None)"

definition step_begin_string :: "parse_state list \<Rightarrow> char \<Rightarrow> scanner option" where
  "step_begin_string stack c =
     (if json_space c then goto BeginString stack
      else if c = CHR 0x22 then goto InString stack else None)"

definition step_after_int :: "parse_state list \<Rightarrow> char \<Rightarrow> scanner option" where
  "step_after_int stack c =
     (if c = CHR ''.'' then goto AfterDot stack
      else if c = CHR ''e'' \<or> c = CHR ''E'' then goto AfterExp stack
      else step_end_value stack c)"

definition esc_char :: "char \<Rightarrow> bool" where
  "esc_char c \<longleftrightarrow> List.member [CHR ''b'', CHR ''f'', CHR ''n'', CHR ''r'', CHR ''t'', CHR 0x5C, CHR ''/'', CHR 0x22] c"

fun scan_char :: "scanner \<Rightarrow> char \<Rightarrow> scanner option" where
  "scan_char \<lparr>sc_step = st, sc_stack = stack\<rparr> c =
     (case st of
        BeginValueOrEmpty \<Rightarrow>
          if json_space c then goto BeginValueOrEmpty stack
          else if c = CHR '']'' then step_end_value stack c
          else step_begin_value stack c
      | BeginValue \<Rightarrow> step_begin_value stack c
      | BeginStringOrEmpty \<Rightarrow>
          if json_space c then goto BeginStringOrEmpty stack
          else if c = CHR ''}'' then step_end_value (ParseObjectValue # tl stack) c
          else step_begin_string stack c
      | BeginString \<Rightarrow> step_begin_string stack c
      | EndValue \<Rightarrow> step_end_value stack c
      | EndTop \<Rightarrow> if json_space c then goto EndTop stack else None
      | InString \<Rightarrow>
          if c = CHR 0x22 then goto EndValue stack
          else if c = CHR 0x5C then goto InStringEsc stack
          else if of_char c < (32::nat) then None
          else goto InString stack
      | InStringEsc \<Rightarrow>
          if esc_char c then goto InString stack
          else if c = CHR ''u'' then goto (InStringEscU 3) stack
          else None
      | InStringEscU n \<Rightarrow>
          if hex_digit c then goto (if n = 0 then InString else InStringEscU (n - 1)) stack else None
      | AfterNeg \<Rightarrow>
          if c = CHR ''0'' then goto AfterInt stack
          else if dec_digit c then goto Digits1 stack else None
      | Digits1 \<Rightarrow> if dec_digit c then goto Digits1 stack else step_after_int stack c
      | AfterInt \<Rightarrow> step_after_int stack c
      | AfterDot \<Rightarrow> if dec_digit c then goto Digits0 stack else None
      | Digits0 \<Rightarrow>
          if dec_digit c then goto Digits0 stack
          else if c = CHR ''e'' \<or> c = CHR ''E'' then goto AfterExp stack
          else step_end_value stack c
      | AfterExp \<Rightarrow>
          if c = CHR ''+'' \<or> c = CHR ''-'' then goto AfterExpSign stack
          else if dec_digit c then goto ExpDigits stack else None
      | AfterExpSign \<Rightarrow> if dec_digit c then goto ExpDigits stack else None
      | ExpDigits \<Rightarrow> if dec_digit c then goto ExpDigits stack else step_end_value stack c
      | InLiteral rest \<Rightarrow>
          (case rest of
             [] \<Rightarrow> None
           | [x] \<Rightarrow> if c = x then goto EndValue stack else None
           | x # xs \<Rightarrow> if c = x then goto (InLiteral xs) stack else None))"

fun scan_all :: "scanner \<Rightarrow> string \<Rightarrow> scanner option" where
  "scan_all sc [] = Some sc"
| "scan_all sc (c # s) = (case scan_char sc c of None \<Rightarrow> None | Some sc' \<Rightarrow> scan_all sc' s)"

definition scan_start :: scanner where
  "scan_start = \<lparr>sc_step = BeginValue, sc_stack = []\<rparr>"

text \<open>\<^verbatim>\<open>(*scanner).eof()\<close>: one more space must bring the scanner to the end of the top value.\<close>

definition scan_eof :: "scanner \<Rightarrow> bool" where
  "scan_eof sc \<longleftrightarrow>
     (sc_step sc = EndTop \<or>
      (case scan_char sc (CHR '' '') of Some sc' \<Rightarrow> sc_step sc' = EndTop | None \<Rightarrow> False))"

definition json_valid :: "string \<Rightarrow> bool" where
  "json_valid s = (case scan_all scan_start s of Some sc \<Rightarrow> scan_eof sc | None \<Rightarrow> False)"

lemma scan_all_append:
  "scan_all sc (s @ t) = (case scan_all sc s of None \<Rightarrow> None | Some sc' \<Rightarrow> scan_all sc' t)"
  by (induction s arbitrary: sc) (auto split: option.splits)

lemma json_valid_nonempty: "json_valid s \<Longrightarrow> s \<noteq> []"
  by (auto simp: json_valid_def scan_start_def scan_eof_def step_begin_value_def json_space_def)

end
