(* ===== verification/Contracts.thy ===== *)
theory Contracts
  imports Go_Values Json_Scan
begin

text \<open>
  The wire contract of \<^verbatim>\<open>agentcore/contracts.go\<close> and its validators
  (\<^verbatim>\<open>agentcore/handlers_runtime.go\<close>, \<^verbatim>\<open>agentcore/client.go\<close>): the envelopes the library
  sends and receives, the stored desired configuration, the health snapshot. A
  \<^verbatim>\<open>json.RawMessage\<close> is its bytes.
\<close>

section \<open>Messages\<close>

record configure_command =
  cc_version :: string
  cc_rpc_id :: string
  cc_target :: string
  cc_uuid :: string
  cc_payload :: bytes
  cc_timestamp :: gotime

record desired_config_record =
  dr_version :: string
  dr_rpc_id :: string
  dr_target :: string
  dr_uuid :: string
  dr_payload :: bytes
  dr_timestamp :: gotime

record configure_notification =
  cn_version :: string
  cn_rpc_id :: string
  cn_target :: string
  cn_command_type :: string
  cn_uuid :: string
  cn_kv_bucket :: string
  cn_kv_key :: string
  cn_timestamp :: gotime

record action_command =
  ac_version :: string
  ac_rpc_id :: string
  ac_target :: string
  ac_command_type :: string
  ac_action :: string
  ac_payload :: bytes
  ac_timestamp :: gotime

record result_envelope =
  re_version :: string
  re_rpc_id :: string
  re_target :: string
  re_command_type :: string
  re_uuid :: string
  re_action :: string
  re_result :: string
  re_message :: string
  re_error_code :: string
  re_payload :: bytes
  re_timestamp :: gotime

record status_envelope =
  se_version :: string
  se_rpc_id :: string
  se_target :: string
  se_uuid :: string
  se_status :: string
  se_stage :: string
  se_message :: string
  se_payload :: bytes
  se_timestamp :: gotime

record stored_desired_config =
  sd_record :: desired_config_record
  sd_bucket :: string
  sd_key :: string
  sd_revision :: u64
  sd_created_at :: gotime
  sd_deleted :: bool

record submission_ack =
  sa_accepted :: bool
  sa_rpc_id :: string
  sa_target :: string
  sa_subject :: string
  sa_accepted_at :: gotime
  sa_kv_bucket :: string
  sa_kv_key :: string
  sa_kv_revision :: u64

section \<open>Connection states and health\<close>

datatype connection_state =
    StateNew | StateConnecting | StateConnected | StateReconnecting | StateDraining
  | StateClosed | StateDegraded

fun connection_state_text :: "connection_state \<Rightarrow> string" where
  "connection_state_text StateNew = ''new''"
| "connection_state_text StateConnecting = ''connecting''"
| "connection_state_text StateConnected = ''connected''"
| "connection_state_text StateReconnecting = ''reconnecting''"
| "connection_state_text StateDraining = ''draining''"
| "connection_state_text StateClosed = ''closed''"
| "connection_state_text StateDegraded = ''degraded''"

record health_snapshot =
  hs_state :: connection_state
  hs_connected_url :: string
  hs_jetstream_ready :: bool
  hs_kv_ready :: bool
  hs_registered :: nat
  hs_active :: nat
  hs_last_error :: string

section \<open>Field checks\<close>

definition required_string :: "string \<Rightarrow> string \<Rightarrow> string \<Rightarrow> gerr option" where
  "required_string op field value =
     (if blank value then Some (validation_error op (field @ '' is required'')) else None)"

definition optional_string :: "string \<Rightarrow> string \<Rightarrow> string \<Rightarrow> gerr option" where
  "optional_string op field value =
     (if value = [] then None
      else if blank value then Some (validation_error op (field @ '' cannot be whitespace''))
      else None)"

definition required_timestamp :: "string \<Rightarrow> string \<Rightarrow> gotime \<Rightarrow> gerr option" where
  "required_timestamp op field value =
     (if is_zero_time value then Some (validation_error op (field @ '' is required'')) else None)"

definition required_json :: "string \<Rightarrow> string \<Rightarrow> bytes \<Rightarrow> gerr option" where
  "required_json op field value =
     (if value = [] then Some (validation_error op (field @ '' is required''))
      else if \<not> json_valid value
        then Some (validation_error op (field @ '' must contain valid JSON''))
      else None)"

definition optional_json :: "string \<Rightarrow> string \<Rightarrow> bytes \<Rightarrow> gerr option" where
  "optional_json op field value =
     (if value = [] then None
      else if \<not> json_valid value
        then Some (validation_error op (field @ '' must contain valid JSON''))
      else None)"

lemmas field_check_defs [validate_simps] =
  required_string_def optional_string_def required_timestamp_def required_json_def
  optional_json_def

section \<open>Envelope validators\<close>

definition validate_configure_command :: "string \<Rightarrow> configure_command \<Rightarrow> gerr option" where
  "validate_configure_command op cmd = first_error [
     required_string op ''version'' (cc_version cmd),
     required_string op ''rpc_id'' (cc_rpc_id cmd),
     required_string op ''target'' (cc_target cmd),
     required_string op ''uuid'' (cc_uuid cmd),
     required_timestamp op ''timestamp'' (cc_timestamp cmd),
     required_json op ''payload'' (cc_payload cmd)]"

definition validate_configure_notification ::
  "string \<Rightarrow> configure_notification \<Rightarrow> gerr option" where
  "validate_configure_notification op msg = first_error [
     required_string op ''version'' (cn_version msg),
     required_string op ''rpc_id'' (cn_rpc_id msg),
     required_string op ''target'' (cn_target msg),
     required_string op ''command_type'' (cn_command_type msg),
     required_string op ''uuid'' (cn_uuid msg),
     required_string op ''kv_bucket'' (cn_kv_bucket msg),
     required_string op ''kv_key'' (cn_kv_key msg),
     required_timestamp op ''timestamp'' (cn_timestamp msg)]"

definition validate_action_command :: "string \<Rightarrow> action_command \<Rightarrow> gerr option" where
  "validate_action_command op msg = first_error [
     required_string op ''version'' (ac_version msg),
     required_string op ''rpc_id'' (ac_rpc_id msg),
     required_string op ''target'' (ac_target msg),
     required_string op ''command_type'' (ac_command_type msg),
     required_string op ''action'' (ac_action msg),
     required_timestamp op ''timestamp'' (ac_timestamp msg),
     required_json op ''payload'' (ac_payload msg)]"

definition validate_result_kind :: "string \<Rightarrow> result_envelope \<Rightarrow> gerr option" where
  "validate_result_kind op msg =
     (if re_command_type msg \<noteq> [] then
        (if re_command_type msg \<noteq> ''configure'' \<and> re_command_type msg \<noteq> ''action''
           then Some (validation_error op
                  (''command_type must be either '' @ [CHR 0x27] @ ''configure'' @ [CHR 0x27]
                   @ '' or '' @ [CHR 0x27] @ ''action'' @ [CHR 0x27]))
         else if re_command_type msg = ''configure'' \<and> blank (re_uuid msg)
           then Some (validation_error op ''uuid is required for configure results'')
         else if re_command_type msg = ''action'' \<and> blank (re_action msg)
           then Some (validation_error op ''action is required for action results'')
         else None)
      else None)"

definition validate_result_envelope :: "string \<Rightarrow> result_envelope \<Rightarrow> gerr option" where
  "validate_result_envelope op msg = first_error [
     required_string op ''version'' (re_version msg),
     required_string op ''rpc_id'' (re_rpc_id msg),
     required_string op ''target'' (re_target msg),
     required_string op ''result'' (re_result msg),
     required_timestamp op ''timestamp'' (re_timestamp msg),
     optional_string op ''command_type'' (re_command_type msg),
     optional_string op ''uuid'' (re_uuid msg),
     optional_string op ''action'' (re_action msg),
     optional_string op ''error_code'' (re_error_code msg),
     validate_result_kind op msg,
     optional_json op ''payload'' (re_payload msg)]"

definition validate_status_envelope :: "string \<Rightarrow> status_envelope \<Rightarrow> gerr option" where
  "validate_status_envelope op msg = first_error [
     required_string op ''version'' (se_version msg),
     required_string op ''target'' (se_target msg),
     required_string op ''status'' (se_status msg),
     required_timestamp op ''timestamp'' (se_timestamp msg),
     optional_string op ''rpc_id'' (se_rpc_id msg),
     optional_string op ''uuid'' (se_uuid msg),
     optional_string op ''stage'' (se_stage msg),
     optional_json op ''payload'' (se_payload msg)]"

lemmas validator_defs =
  validate_configure_command_def validate_configure_notification_def
  validate_action_command_def validate_result_envelope_def validate_status_envelope_def
  validate_result_kind_def

section \<open>The contract the validators share\<close>

text \<open>
  Every caller of a validator relies on one law: a rejection is a non-retryable validation error
  that carries the caller's operation. The boundary conversion leaves such an error alone.
\<close>

definition rejects :: "string \<Rightarrow> gerr option \<Rightarrow> bool" where
  "rejects op c \<longleftrightarrow> (\<forall>e. c = Some e \<longrightarrow> (\<exists>msg. e = validation_error op msg))"

lemma rejects_checks [simp]:
  "rejects op None"
  "rejects op (required_string op f v)"
  "rejects op (optional_string op f v)"
  "rejects op (required_timestamp op f t)"
  "rejects op (required_json op f v)"
  "rejects op (optional_json op f v)"
  "rejects op (validate_result_kind op r)"
  by (auto simp: rejects_def field_check_defs validate_result_kind_def)

lemma rejects_first_error [simp]:
  "(\<forall>c \<in> set cs. rejects op c) \<Longrightarrow> rejects op (first_error cs)"
  unfolding rejects_def by (metis first_error_Some_mem)

locale envelope_validator =
  fixes validate :: "string \<Rightarrow> 'm \<Rightarrow> gerr option"
  assumes rejects_with: "rejects op (validate op m)"
begin

lemma reject_msg: "validate op m = Some e \<Longrightarrow> \<exists>msg. e = validation_error op msg"
  using rejects_with [of op m] by (auto simp: rejects_def)

lemma reject_public: "validate op m = Some e \<Longrightarrow> public_error e = e"
  by (auto dest: reject_msg)

lemma validate_cases:
  obtains "validate op m = None" | msg where "validate op m = Some (validation_error op msg)"
  using reject_msg by (cases "validate op m") blast+

end

interpretation configure_command_check: envelope_validator validate_configure_command
  by unfold_locales (simp add: validate_configure_command_def)

interpretation configure_notification_check: envelope_validator validate_configure_notification
  by unfold_locales (simp add: validate_configure_notification_def)

interpretation action_command_check: envelope_validator validate_action_command
  by unfold_locales (simp add: validate_action_command_def)

interpretation result_envelope_check: envelope_validator validate_result_envelope
  by unfold_locales (simp add: validate_result_envelope_def)

interpretation status_envelope_check: envelope_validator validate_status_envelope
  by unfold_locales (simp add: validate_status_envelope_def)

end
