(* ===== verification/Session_Config.thy ===== *)
theory Session_Config
  imports Go_Values
begin

text \<open>
  The runtime configuration of the session layer (\<^verbatim>\<open>internal/session/types.go\<close>) and its
  normalisation (\<^verbatim>\<open>internal/session/options.go\<close>). The default server URL and the default
  reconnect buffer size are constants of the NATS client library: the record \<open>nats_defaults\<close>
  passes them in. The lemmas show what a normalised configuration guarantees to the rest of the
  library, that normalising again changes nothing, and exactly which configurations are refused.
\<close>

section \<open>Configuration records\<close>

record tls_config =
  tls_enabled :: bool
  tls_insecure_skip_verify :: bool
  tls_ca_file :: string
  tls_cert_file :: string
  tls_key_file :: string
  tls_server_name :: string

record nats_config =
  nc_servers :: "string list"
  nc_client_name :: string
  nc_credentials_file :: string
  nc_nkey_seed_file :: string
  nc_user_jwt_file :: string
  nc_username :: string
  nc_password :: string
  nc_token :: string
  nc_connect_timeout :: duration
  nc_retry_on_failed_connect :: bool
  nc_max_reconnects :: int
  nc_reconnect_wait :: duration
  nc_reconnect_buf_size :: int
  nc_tls :: "tls_config option"

record jetstream_config =
  jc_domain :: string
  jc_api_prefix :: string
  jc_default_timeout :: duration

record kv_config =
  kc_bucket :: string
  kc_key_pattern :: string
  kc_auto_create_bucket :: bool
  kc_history :: "8 word"
  kc_ttl :: duration
  kc_max_value_size :: int
  kc_storage :: string
  kc_replicas :: int

record timeout_config =
  tc_publish :: duration
  tc_subscribe :: duration
  tc_kv :: duration
  tc_shutdown :: duration

record retry_config =
  rc_publish_attempts :: int
  rc_publish_backoff :: duration

record session_config =
  sc_agent_name :: string
  sc_nats :: nats_config
  sc_jetstream :: jetstream_config
  sc_kv :: kv_config
  sc_timeouts :: timeout_config
  sc_retry :: retry_config

text \<open>\<^verbatim>\<open>nats.DefaultURL\<close> and \<^verbatim>\<open>nats.DefaultReconnectBufSize\<close>.\<close>

record nats_defaults =
  nd_url :: string
  nd_reconnect_buf_size :: int

section \<open>Defaults\<close>

definition default_connect_timeout :: duration where "default_connect_timeout = seconds 5"
definition default_reconnect_wait :: duration where "default_reconnect_wait = seconds 2"
definition default_max_reconnects :: int where "default_max_reconnects = -1"
definition default_jetstream_timeout :: duration where "default_jetstream_timeout = seconds 5"
definition default_publish_timeout :: duration where "default_publish_timeout = seconds 5"
definition default_subscribe_timeout :: duration where "default_subscribe_timeout = seconds 5"
definition default_kv_timeout :: duration where "default_kv_timeout = seconds 5"
definition default_shutdown_timeout :: duration where "default_shutdown_timeout = seconds 10"
definition default_publish_attempts :: int where "default_publish_attempts = 3"
definition default_publish_backoff :: duration where "default_publish_backoff = milliseconds 200"
definition default_kv_bucket :: string where "default_kv_bucket = ''cfg_desired''"
definition default_kv_key :: string where "default_kv_key = ''desired.%s''"
definition default_kv_history :: "8 word" where "default_kv_history = 1"
definition default_kv_replicas :: int where "default_kv_replicas = 1"
definition default_kv_storage :: string where "default_kv_storage = ''file''"
definition max_supported_history :: "8 word" where "max_supported_history = 64"

lemmas default_defs =
  default_connect_timeout_def default_reconnect_wait_def default_max_reconnects_def
  default_jetstream_timeout_def default_publish_timeout_def default_subscribe_timeout_def
  default_kv_timeout_def default_shutdown_timeout_def default_publish_attempts_def
  default_publish_backoff_def default_kv_bucket_def default_kv_key_def default_kv_history_def
  default_kv_replicas_def default_kv_storage_def max_supported_history_def seconds_def
  milliseconds_def

section \<open>Validation\<close>

definition non_negative :: "int \<Rightarrow> string \<Rightarrow> gerr option" where
  "non_negative v field = (if v < 0
     then Some (rt_validation_error ''normalize_runtime_config'' (field @ '' cannot be negative''))
     else None)"

definition check_ranges :: "session_config \<Rightarrow> gerr option" where
  "check_ranges c = first_error [
     non_negative (nc_connect_timeout (sc_nats c)) ''nats.connect_timeout'',
     non_negative (nc_reconnect_wait (sc_nats c)) ''nats.reconnect_wait'',
     (if nc_max_reconnects (sc_nats c) < -1
      then Some (rt_validation_error ''normalize_runtime_config''
             ''nats.max_reconnects must be -1 or greater'') else None),
     non_negative (nc_reconnect_buf_size (sc_nats c)) ''nats.reconnect_buf_size'',
     non_negative (jc_default_timeout (sc_jetstream c)) ''jetstream.default_timeout'',
     non_negative (tc_publish (sc_timeouts c)) ''timeouts.publish_timeout'',
     non_negative (tc_subscribe (sc_timeouts c)) ''timeouts.subscribe_timeout'',
     non_negative (tc_kv (sc_timeouts c)) ''timeouts.kv_timeout'',
     non_negative (tc_shutdown (sc_timeouts c)) ''timeouts.shutdown_timeout'',
     non_negative (rc_publish_attempts (sc_retry c)) ''retry.publish_attempts'',
     non_negative (rc_publish_backoff (sc_retry c)) ''retry.publish_backoff'',
     non_negative (kc_ttl (sc_kv c)) ''kv.ttl'',
     non_negative (kc_max_value_size (sc_kv c)) ''kv.max_value_size'',
     non_negative (kc_replicas (sc_kv c)) ''kv.replicas'']"

text \<open>\<^verbatim>\<open>validateKeyPattern\<close> returns plain errors.\<close>

definition validate_key_pattern :: "string \<Rightarrow> gerr option" where
  "validate_key_pattern pattern =
     (if contains_any pattern ws_chars
        then Some (ErrText ''kv.key_pattern cannot contain whitespace'')
      else if count_verbs pattern \<noteq> 1
        then Some (ErrText ''kv.key_pattern must contain exactly one %s placeholder'')
      else if contains_char (remove_verbs pattern) (CHR ''%'')
        then Some (ErrText ''kv.key_pattern contains unsupported format directives'')
      else None)"

section \<open>Normalisation\<close>

definition or_default :: "int \<Rightarrow> int \<Rightarrow> int" where
  "or_default v d = (if v = 0 then d else v)"

definition or_default_string :: "string \<Rightarrow> string \<Rightarrow> string" where
  "or_default_string v d = (if v = [] then d else v)"

definition clean_servers :: "string list \<Rightarrow> string list" where
  "clean_servers servers = filter (\<lambda>s. s \<noteq> []) (map trim_space servers)"

definition normalize_servers :: "nats_defaults \<Rightarrow> string list \<Rightarrow> string list" where
  "normalize_servers D servers =
     (let cleaned = clean_servers servers in if cleaned = [] then [nd_url D] else cleaned)"

definition normalize_nats :: "nats_defaults \<Rightarrow> nats_config \<Rightarrow> nats_config" where
  "normalize_nats D n = n\<lparr>
     nc_servers := normalize_servers D (nc_servers n),
     nc_connect_timeout := or_default (nc_connect_timeout n) default_connect_timeout,
     nc_max_reconnects := or_default (nc_max_reconnects n) default_max_reconnects,
     nc_reconnect_wait := or_default (nc_reconnect_wait n) default_reconnect_wait,
     nc_reconnect_buf_size := or_default (nc_reconnect_buf_size n) (nd_reconnect_buf_size D)\<rparr>"

definition normalize_timeouts :: "timeout_config \<Rightarrow> timeout_config" where
  "normalize_timeouts t = \<lparr>
     tc_publish = or_default (tc_publish t) default_publish_timeout,
     tc_subscribe = or_default (tc_subscribe t) default_subscribe_timeout,
     tc_kv = or_default (tc_kv t) default_kv_timeout,
     tc_shutdown = or_default (tc_shutdown t) default_shutdown_timeout\<rparr>"

definition normalize_retry :: "retry_config \<Rightarrow> retry_config" where
  "normalize_retry r = \<lparr>
     rc_publish_attempts = or_default (rc_publish_attempts r) default_publish_attempts,
     rc_publish_backoff = or_default (rc_publish_backoff r) default_publish_backoff\<rparr>"

definition normalize_kv :: "kv_config \<Rightarrow> gerr + kv_config" where
  "normalize_kv k =
     (let op = ''normalize_runtime_config'';
          bucket = or_default_string (trim_space (kc_bucket k)) default_kv_bucket;
          pattern = or_default_string (trim_space (kc_key_pattern k)) default_kv_key
      in case validate_key_pattern pattern of
           Some e \<Rightarrow> Inl (rt_validation_error op (error_text e))
         | None \<Rightarrow>
             (let history = (if kc_history k = 0 then default_kv_history else kc_history k) in
              if history > max_supported_history
                then Inl (rt_validation_error op ''kv.history must be between 1 and 64'')
              else
                (let replicas = or_default (kc_replicas k) default_kv_replicas;
                     storage = or_default_string (to_lower (trim_space (kc_storage k))) default_kv_storage
                 in if storage \<noteq> ''file'' \<and> storage \<noteq> ''memory''
                      then Inl (rt_validation_error op ''kv.storage must be file or memory'')
                    else Inr (k\<lparr>kc_bucket := bucket, kc_key_pattern := pattern,
                           kc_history := history, kc_replicas := replicas,
                           kc_storage := storage\<rparr>))))"

definition normalize_config :: "nats_defaults \<Rightarrow> session_config \<Rightarrow> gerr + session_config" where
  "normalize_config D cfg =
     (case check_ranges cfg of
        Some e \<Rightarrow> Inl e
      | None \<Rightarrow>
          (case normalize_kv (sc_kv cfg) of
             Inl e \<Rightarrow> Inl e
           | Inr kv \<Rightarrow> Inr (cfg\<lparr>
               sc_nats := normalize_nats D (sc_nats cfg),
               sc_jetstream := (sc_jetstream cfg)\<lparr>jc_default_timeout :=
                 or_default (jc_default_timeout (sc_jetstream cfg)) default_jetstream_timeout\<rparr>,
               sc_timeouts := normalize_timeouts (sc_timeouts cfg),
               sc_retry := normalize_retry (sc_retry cfg),
               sc_kv := kv\<rparr>)))"

section \<open>What a normalised configuration guarantees\<close>

text \<open>The library's constants are usable: a non-blank URL and a positive buffer.\<close>

definition defaults_ok :: "nats_defaults \<Rightarrow> bool" where
  "defaults_ok D \<longleftrightarrow> nd_url D \<noteq> [] \<and> trim_space (nd_url D) = nd_url D \<and> 0 < nd_reconnect_buf_size D"

definition nats_ok :: "nats_config \<Rightarrow> bool" where
  "nats_ok n \<longleftrightarrow> nc_servers n \<noteq> [] \<and> (\<forall>s \<in> set (nc_servers n). s \<noteq> [] \<and> trim_space s = s) \<and>
     0 < nc_connect_timeout n \<and> -1 \<le> nc_max_reconnects n \<and> nc_max_reconnects n \<noteq> 0 \<and>
     0 < nc_reconnect_wait n \<and> 0 < nc_reconnect_buf_size n"

definition timeouts_ok :: "timeout_config \<Rightarrow> bool" where
  "timeouts_ok t \<longleftrightarrow> 0 < tc_publish t \<and> 0 < tc_subscribe t \<and> 0 < tc_kv t \<and> 0 < tc_shutdown t"

definition retry_ok :: "retry_config \<Rightarrow> bool" where
  "retry_ok r \<longleftrightarrow> 1 \<le> rc_publish_attempts r \<and> 0 < rc_publish_backoff r"

definition kv_ok :: "kv_config \<Rightarrow> bool" where
  "kv_ok k \<longleftrightarrow> kc_bucket k \<noteq> [] \<and> trim_space (kc_bucket k) = kc_bucket k \<and>
     kc_key_pattern k \<noteq> [] \<and> trim_space (kc_key_pattern k) = kc_key_pattern k \<and>
     validate_key_pattern (kc_key_pattern k) = None \<and>
     1 \<le> unat (kc_history k) \<and> unat (kc_history k) \<le> 64 \<and>
     1 \<le> kc_replicas k \<and> 0 \<le> kc_ttl k \<and> 0 \<le> kc_max_value_size k \<and>
     (kc_storage k = ''file'' \<or> kc_storage k = ''memory'')"

definition effective_ok :: "session_config \<Rightarrow> bool" where
  "effective_ok c \<longleftrightarrow> nats_ok (sc_nats c) \<and> 0 < jc_default_timeout (sc_jetstream c) \<and>
     timeouts_ok (sc_timeouts c) \<and> retry_ok (sc_retry c) \<and> kv_ok (sc_kv c)"

lemmas effective_defs =
  effective_ok_def nats_ok_def timeouts_ok_def retry_ok_def kv_ok_def

lemma check_ranges_None:
  "check_ranges c = None \<longleftrightarrow>
     0 \<le> nc_connect_timeout (sc_nats c) \<and> 0 \<le> nc_reconnect_wait (sc_nats c) \<and>
     -1 \<le> nc_max_reconnects (sc_nats c) \<and> 0 \<le> nc_reconnect_buf_size (sc_nats c) \<and>
     0 \<le> jc_default_timeout (sc_jetstream c) \<and> 0 \<le> tc_publish (sc_timeouts c) \<and>
     0 \<le> tc_subscribe (sc_timeouts c) \<and> 0 \<le> tc_kv (sc_timeouts c) \<and>
     0 \<le> tc_shutdown (sc_timeouts c) \<and> 0 \<le> rc_publish_attempts (sc_retry c) \<and>
     0 \<le> rc_publish_backoff (sc_retry c) \<and> 0 \<le> kc_ttl (sc_kv c) \<and>
     0 \<le> kc_max_value_size (sc_kv c) \<and> 0 \<le> kc_replicas (sc_kv c)"
  by (simp add: check_ranges_def non_negative_def not_less)

lemma clean_servers_ok: "s \<in> set (clean_servers xs) \<Longrightarrow> s \<noteq> [] \<and> trim_space s = s"
  by (auto simp: clean_servers_def)

lemma clean_servers_fix: "(\<forall>s \<in> set xs. s \<noteq> [] \<and> trim_space s = s) \<Longrightarrow> clean_servers xs = xs"
  by (induction xs) (auto simp: clean_servers_def)

lemma normalize_servers_ok:
  "defaults_ok D \<Longrightarrow> normalize_servers D xs \<noteq> [] \<and>
     (\<forall>s \<in> set (normalize_servers D xs). s \<noteq> [] \<and> trim_space s = s)"
  using clean_servers_ok by (auto simp: normalize_servers_def Let_def defaults_ok_def)

lemma normalize_nats_ok:
  assumes "defaults_ok D" and "check_ranges c = None"
  shows "nats_ok (normalize_nats D (sc_nats c))"
  using assms normalize_servers_ok [OF assms(1)]
  by (simp add: nats_ok_def normalize_nats_def check_ranges_None or_default_def default_defs
      defaults_ok_def)

lemma normalize_nats_fix: "nats_ok n \<Longrightarrow> normalize_nats D n = n"
  by (simp add: nats_ok_def normalize_nats_def normalize_servers_def clean_servers_fix or_default_def)

lemma default_key_ok [simp]:
  "validate_key_pattern default_kv_key = None" "trim_space default_kv_key = default_kv_key"
  "trim_space default_kv_bucket = default_kv_bucket"
  by (simp_all add: validate_key_pattern_def default_kv_key_def default_kv_bucket_def go_simps)

lemma storage_fix [simp]:
  "to_lower (trim_space ''file'') = ''file''" "to_lower (trim_space ''memory'') = ''memory''"
  by (simp_all add: to_lower_def lower_rune_def lower_char_def go_simps)

lemma history_bounds:
  fixes h :: "8 word"
  assumes "h \<noteq> 0" and "h \<le> 64"
  shows "1 \<le> unat h" and "unat h \<le> 64"
  using assms by (simp_all add: word_le_nat_alt Suc_le_eq unat_gt_0)

lemma normalize_kv_Inr:
  "normalize_kv k = Inr k' \<longleftrightarrow>
     (let pattern = or_default_string (trim_space (kc_key_pattern k)) default_kv_key;
          history = (if kc_history k = 0 then default_kv_history else kc_history k);
          storage = or_default_string (to_lower (trim_space (kc_storage k))) default_kv_storage
      in validate_key_pattern pattern = None \<and> history \<le> max_supported_history \<and>
         (storage = ''file'' \<or> storage = ''memory'') \<and>
         k' = k\<lparr>kc_bucket := or_default_string (trim_space (kc_bucket k)) default_kv_bucket,
            kc_key_pattern := pattern, kc_history := history,
            kc_replicas := or_default (kc_replicas k) default_kv_replicas, kc_storage := storage\<rparr>)"
  unfolding normalize_kv_def Let_def by (simp only: not_le [symmetric] split: option.splits if_split) auto

lemma normalize_kv_ok:
  assumes "normalize_kv k = Inr k'" and "0 \<le> kc_ttl k" "0 \<le> kc_max_value_size k" "0 \<le> kc_replicas k"
  shows "kv_ok k'"
proof -
  let ?h = "if kc_history k = 0 then default_kv_history else kc_history k"
  from assms(1) have le: "?h \<le> 64" and "?h \<noteq> 0"
    by (auto simp: normalize_kv_Inr Let_def default_defs)
  then have "1 \<le> unat ?h" "unat ?h \<le> 64" using history_bounds [of ?h] by simp_all
  moreover have "default_kv_bucket \<noteq> []" "default_kv_key \<noteq> []" "0 < default_kv_replicas"
    by (simp_all add: default_defs)
  ultimately show ?thesis
    using assms by (simp add: normalize_kv_Inr Let_def kv_ok_def or_default_def or_default_string_def
        Suc_le_eq del: unat_gt_0)
qed

lemma normalize_kv_fix:
  assumes "kv_ok k"
  shows "normalize_kv k = Inr k"
proof -
  have "kc_history k \<noteq> 0" "kc_history k \<le> max_supported_history"
    using assms by (auto simp: kv_ok_def default_defs word_le_nat_alt)
  with assms show ?thesis
    by (auto simp: normalize_kv_Inr Let_def kv_ok_def or_default_def or_default_string_def)
qed

lemma normalized_effective:
  assumes "defaults_ok D" and "normalize_config D cfg = Inr c"
  shows "effective_ok c"
proof -
  from assms(2) obtain kv where *: "check_ranges cfg = None" "normalize_kv (sc_kv cfg) = Inr kv"
    and c: "sc_nats c = normalize_nats D (sc_nats cfg)" "sc_kv c = kv"
      "sc_timeouts c = normalize_timeouts (sc_timeouts cfg)"
      "sc_retry c = normalize_retry (sc_retry cfg)"
      "jc_default_timeout (sc_jetstream c) =
         or_default (jc_default_timeout (sc_jetstream cfg)) default_jetstream_timeout"
    by (auto simp: normalize_config_def split: option.splits sum.splits)
  moreover have "kv_ok kv" using * by (auto simp: check_ranges_None intro: normalize_kv_ok)
  ultimately show ?thesis
    using normalize_nats_ok [OF assms(1) *(1)] *(1)
    by (simp add: effective_ok_def timeouts_ok_def retry_ok_def normalize_timeouts_def
        normalize_retry_def or_default_def check_ranges_None default_defs)
qed

lemma effective_ok_ranges: "effective_ok c \<Longrightarrow> check_ranges c = None"
  by (simp add: effective_defs check_ranges_None)

lemma normalize_fix: "effective_ok c \<Longrightarrow> normalize_config D c = Inr c"
  by (simp add: normalize_config_def effective_ok_ranges)
    (simp add: effective_ok_def normalize_nats_fix normalize_kv_fix timeouts_ok_def retry_ok_def
      normalize_timeouts_def normalize_retry_def or_default_def)

text \<open>A concrete configuration, used to show that the hypotheses of the theorems can hold.\<close>

definition sample_defaults :: nats_defaults where
  "sample_defaults = \<lparr>nd_url = ''nats://127.0.0.1:4222'', nd_reconnect_buf_size = 8388608\<rparr>"

definition sample_config :: session_config where
  "sample_config = \<lparr>sc_agent_name = ''vyos'',
     sc_nats = \<lparr>nc_servers = ['' nats://a ''], nc_client_name = [], nc_credentials_file = [],
       nc_nkey_seed_file = [], nc_user_jwt_file = [], nc_username = [], nc_password = [],
       nc_token = [], nc_connect_timeout = 0, nc_retry_on_failed_connect = False,
       nc_max_reconnects = 0, nc_reconnect_wait = 7, nc_reconnect_buf_size = 0, nc_tls = None\<rparr>,
     sc_jetstream = \<lparr>jc_domain = [], jc_api_prefix = [], jc_default_timeout = 0\<rparr>,
     sc_kv = \<lparr>kc_bucket = [], kc_key_pattern = [], kc_auto_create_bucket = True, kc_history = 0,
       kc_ttl = 0, kc_max_value_size = 0, kc_storage = '' FILE '', kc_replicas = 0\<rparr>,
     sc_timeouts = \<lparr>tc_publish = 9, tc_subscribe = 0, tc_kv = 0, tc_shutdown = 0\<rparr>,
     sc_retry = \<lparr>rc_publish_attempts = 2, rc_publish_backoff = 0\<rparr>\<rparr>"

definition sample_effective :: session_config where
  "sample_effective = \<lparr>sc_agent_name = ''vyos'',
     sc_nats = \<lparr>nc_servers = [''nats://a''], nc_client_name = [], nc_credentials_file = [],
       nc_nkey_seed_file = [], nc_user_jwt_file = [], nc_username = [], nc_password = [],
       nc_token = [], nc_connect_timeout = 5000000000, nc_retry_on_failed_connect = False,
       nc_max_reconnects = -1, nc_reconnect_wait = 7, nc_reconnect_buf_size = 8388608, nc_tls = None\<rparr>,
     sc_jetstream = \<lparr>jc_domain = [], jc_api_prefix = [], jc_default_timeout = 5000000000\<rparr>,
     sc_kv = \<lparr>kc_bucket = ''cfg_desired'', kc_key_pattern = ''desired.%s'',
       kc_auto_create_bucket = True, kc_history = 1, kc_ttl = 0, kc_max_value_size = 0,
       kc_storage = ''file'', kc_replicas = 1\<rparr>,
     sc_timeouts = \<lparr>tc_publish = 9, tc_subscribe = 5000000000, tc_kv = 5000000000,
       tc_shutdown = 10000000000\<rparr>,
     sc_retry = \<lparr>rc_publish_attempts = 2, rc_publish_backoff = 200000000\<rparr>\<rparr>"

lemma sample_defaults_ok: "defaults_ok sample_defaults"
  by (simp add: defaults_ok_def sample_defaults_def go_simps)

lemma lower_FILE:
  "lower_char (CHR ''F'') = CHR ''f''" "lower_char (CHR ''I'') = CHR ''i''"
  "lower_char (CHR ''L'') = CHR ''l''" "lower_char (CHR ''E'') = CHR ''e''"
  by code_simp+

lemma sample_normalized: "normalize_config sample_defaults sample_config = Inr sample_effective"
proof -
  have "check_ranges sample_config = None"
    by (simp add: check_ranges_None sample_config_def)
  moreover have "normalize_kv (sc_kv sample_config) = Inr (sc_kv sample_effective)"
    by (simp add: normalize_kv_Inr or_default_def or_default_string_def default_defs go_simps
        sample_config_def sample_effective_def validate_key_pattern_def to_lower_def
        lower_rune_def lower_FILE)
  ultimately show ?thesis
    by (simp add: normalize_config_def)
      (simp add: sample_config_def sample_effective_def sample_defaults_def normalize_nats_def
        normalize_servers_def clean_servers_def normalize_timeouts_def normalize_retry_def
        or_default_def default_defs go_simps)
qed

text \<open>C32: every configuration that \<^verbatim>\<open>NewManager\<close> accepts is usable as it stands: there is at
  least one server and no server, bucket or key pattern is blank or padded; every timeout, the
  backoff and the reconnect wait are positive; at least one publish attempt is made; history is
  between 1 and 64, storage is file or memory, and the key pattern has exactly one placeholder.\<close>

theorem normalize_config_sound:
  assumes "defaults_ok D" and "normalize_config D cfg = Inr c"
  shows "effective_ok c"
  using assms by (rule normalized_effective)

theorem normalize_config_sound_witness:
  "normalize_config sample_defaults sample_config = Inr sample_effective \<and> effective_ok sample_effective"
  using sample_normalized normalize_config_sound [OF sample_defaults_ok sample_normalized] by simp

text \<open>Normalisation is idempotent: the effective configuration, normalised again, is itself,
  so reading it back and building a second manager from it changes nothing.\<close>

theorem normalize_config_idem:
  assumes "defaults_ok D" and "normalize_config D cfg = Inr c"
  shows "normalize_config D c = Inr c"
  by (rule normalize_fix) (rule normalized_effective [OF assms])

theorem normalize_config_idem_witness:
  "normalize_config sample_defaults sample_effective = Inr sample_effective"
  by (rule normalize_config_idem [OF sample_defaults_ok sample_normalized])

text \<open>An agent's own settings win over the defaults: every non-zero timeout and retry value
  survives normalisation unchanged, and so do the credentials, the TLS settings and the rest of
  the fields normalisation has no default for.\<close>

theorem normalize_config_override:
  assumes "normalize_config D cfg = Inr c"
  shows "tc_publish (sc_timeouts c) = or_default (tc_publish (sc_timeouts cfg)) (seconds 5) \<and>
    tc_subscribe (sc_timeouts c) = or_default (tc_subscribe (sc_timeouts cfg)) (seconds 5) \<and>
    tc_kv (sc_timeouts c) = or_default (tc_kv (sc_timeouts cfg)) (seconds 5) \<and>
    tc_shutdown (sc_timeouts c) = or_default (tc_shutdown (sc_timeouts cfg)) (seconds 10) \<and>
    rc_publish_attempts (sc_retry c) = or_default (rc_publish_attempts (sc_retry cfg)) 3 \<and>
    rc_publish_backoff (sc_retry c) = or_default (rc_publish_backoff (sc_retry cfg)) (milliseconds 200) \<and>
    nc_credentials_file (sc_nats c) = nc_credentials_file (sc_nats cfg) \<and>
    nc_tls (sc_nats c) = nc_tls (sc_nats cfg) \<and>
    kc_auto_create_bucket (sc_kv c) = kc_auto_create_bucket (sc_kv cfg) \<and>
    kc_ttl (sc_kv c) = kc_ttl (sc_kv cfg)"
  using assms
  by (auto simp: normalize_config_def normalize_kv_Inr Let_def normalize_nats_def
      normalize_timeouts_def normalize_retry_def default_defs split: option.splits sum.splits)

theorem normalize_config_override_witness:
  "tc_publish (sc_timeouts sample_effective) = 9 \<and> tc_kv (sc_timeouts sample_effective) = seconds 5"
  using normalize_config_override [OF sample_normalized]
  by (simp add: or_default_def sample_config_def)

end
