(* ===== verification/World.thy ===== *)
theory World
  imports Contracts Session_Config
begin

text \<open>
  The environment of the library. Everything outside \<^verbatim>\<open>src/\<close> that the code calls (the NATS
  and JetStream client, contexts and the clock, the agent's own handlers) is a field of the record
  \<open>ext\<close>, a parameter of every operation that uses it: a function of the environment's state
  \<open>'e\<close> that returns a result and the next state, so an environment may answer differently every
  time it is asked. Each call that can be observed from outside is also recorded, with its result,
  at the end of the trace of the \<open>world\<close>, in program order: statements about what the library
  does and in which order are statements about the trace.
\<close>

section \<open>Options of a connection\<close>

text \<open>\<^verbatim>\<open>tls.Config\<close>, the fields the library sets.\<close>

record tls_client =
  tl_min_version :: nat
  tl_insecure_skip_verify :: bool
  tl_server_name :: string
  tl_root_ca :: "bytes option"
  tl_certificate :: "(string \<times> string) option"

datatype nats_option =
    OptTimeout duration | OptRetryOnFailedConnect bool | OptMaxReconnects int
  | OptReconnectWait duration | OptReconnectBufSize int
  | OptDisconnectErrHandler | OptReconnectHandler | OptClosedHandler | OptErrorHandler
  | OptName string | OptUserCredentials "string list" | OptNkeySeed string
  | OptUserInfo string string | OptToken string | OptSecure tls_client

datatype js_flavour = JsPlain | JsDomain string | JsApiPrefix string

datatype kv_storage = FileStorage | MemoryStorage

text \<open>\<^verbatim>\<open>jetstream.KeyValueConfig\<close>, the fields the library sets.\<close>

record bucket_config =
  bk_bucket :: string
  bk_history :: "8 word"
  bk_ttl :: duration
  bk_max_value_size :: int
  bk_replicas :: int
  bk_storage :: kv_storage

section \<open>The trace\<close>

datatype log_level = LogDebug | LogInfo | LogWarn | LogError

datatype envelope =
    MsgConfigure configure_notification | MsgAction action_command
  | MsgResult result_envelope | MsgStatus status_envelope

datatype event =
    EvLog log_level string
  | EvIncConnect string
  | EvSetState string
  | EvIncPublish string string string
  | EvObservePublish string string
  | EvIncSubscribe string string string
  | EvObserveHandler string string
  | EvErrorSink gerr
  | EvConnect string "nats_option list" "gerr + conn"
  | EvCloseConn conn
  | EvDrain conn "gerr option"
  | EvPublish conn string bytes "gerr option"
  | EvFlush conn gctx "gerr option"
  | EvFlushTimeout conn duration "gerr option"
  | EvSubscribe conn string string nat "gerr + subscription"
  | EvUnsubscribe subscription "gerr option"
  | EvBindKV jetstream string "gerr + kv_handle"
  | EvCreateKV jetstream bucket_config "gerr + kv_handle"
  | EvKVPut kv_handle string bytes "gerr + u64"
  | EvKVGet kv_handle string "gerr + kv_entry"
  | EvKVWatch kv_handle string "gerr + watcher"
  | EvStopWatcher watcher
  | EvCancel gctx
  | EvHandler nat gctx envelope "gerr option outcome"
  | EvWatchHandler nat stored_desired_config "gerr option"
  | EvHook string "unit outcome"

record 'e world =
  w_env :: 'e
  w_trace :: "event list"

section \<open>The external interface\<close>

text \<open>
  In \<open>x_wait\<close> the environment decides a \<^verbatim>\<open>select\<close> between a context and a timer: \<open>True\<close>
  when the context is done first. Likewise \<open>x_watch_ready\<close> is the outcome of waiting for the
  initial values of a watch and \<open>x_watch_done\<close> of waiting, up to a time, for its consumer to end;
  \<open>x_new_ctx\<close> is the identity of a new cancellable context. In \<open>x_subscribe\<close> the fourth argument names the callback that
  is bound and an empty queue stands for \<^verbatim>\<open>Subscribe\<close>, any other for \<^verbatim>\<open>QueueSubscribe\<close>.
\<close>

record 'e ext =
  x_clock :: "'e \<Rightarrow> gotime \<times> 'e"
  x_ctx_err :: "gctx \<Rightarrow> 'e \<Rightarrow> gerr option \<times> 'e"
  x_ctx_remaining :: "gctx \<Rightarrow> 'e \<Rightarrow> duration \<times> 'e"
  x_wait :: "gctx \<Rightarrow> duration \<Rightarrow> 'e \<Rightarrow> bool \<times> 'e"
  x_status :: "conn \<Rightarrow> 'e \<Rightarrow> nats_status \<times> 'e"
  x_connected_url :: "conn \<Rightarrow> 'e \<Rightarrow> string \<times> 'e"
  x_connect :: "string \<Rightarrow> nats_option list \<Rightarrow> gctx \<Rightarrow> 'e \<Rightarrow> (gerr + conn) \<times> 'e"
  x_close_conn :: "conn \<Rightarrow> 'e \<Rightarrow> unit \<times> 'e"
  x_drain :: "conn \<Rightarrow> gctx \<Rightarrow> 'e \<Rightarrow> gerr option \<times> 'e"
  x_publish :: "conn \<Rightarrow> string \<Rightarrow> bytes \<Rightarrow> 'e \<Rightarrow> gerr option \<times> 'e"
  x_flush :: "conn \<Rightarrow> gctx \<Rightarrow> 'e \<Rightarrow> gerr option \<times> 'e"
  x_flush_timeout :: "conn \<Rightarrow> duration \<Rightarrow> 'e \<Rightarrow> gerr option \<times> 'e"
  x_subscribe :: "conn \<Rightarrow> string \<Rightarrow> string \<Rightarrow> nat \<Rightarrow> 'e \<Rightarrow> (gerr + subscription) \<times> 'e"
  x_unsubscribe :: "subscription \<Rightarrow> 'e \<Rightarrow> gerr option \<times> 'e"
  x_jetstream :: "conn \<Rightarrow> js_flavour \<Rightarrow> duration \<Rightarrow> 'e \<Rightarrow> (gerr + jetstream) \<times> 'e"
  x_bind_kv :: "jetstream \<Rightarrow> gctx \<Rightarrow> string \<Rightarrow> 'e \<Rightarrow> (gerr + kv_handle) \<times> 'e"
  x_create_kv :: "jetstream \<Rightarrow> gctx \<Rightarrow> bucket_config \<Rightarrow> 'e \<Rightarrow> (gerr + kv_handle) \<times> 'e"
  x_kv_put :: "kv_handle \<Rightarrow> gctx \<Rightarrow> string \<Rightarrow> bytes \<Rightarrow> 'e \<Rightarrow> (gerr + u64) \<times> 'e"
  x_kv_get :: "kv_handle \<Rightarrow> gctx \<Rightarrow> string \<Rightarrow> 'e \<Rightarrow> (gerr + kv_entry) \<times> 'e"
  x_kv_watch :: "kv_handle \<Rightarrow> gctx \<Rightarrow> string \<Rightarrow> 'e \<Rightarrow> (gerr + watcher) \<times> 'e"
  x_nkey_option :: "string \<Rightarrow> 'e \<Rightarrow> gerr option \<times> 'e"
  x_read_file :: "string \<Rightarrow> 'e \<Rightarrow> (gerr + bytes) \<times> 'e"
  x_certs_valid :: "bytes \<Rightarrow> bool"
  x_load_key_pair :: "string \<Rightarrow> string \<Rightarrow> 'e \<Rightarrow> gerr option \<times> 'e"
  x_new_ctx :: "'e \<Rightarrow> nat \<times> 'e"
  x_watch_ready :: "watcher \<Rightarrow> gctx \<Rightarrow> 'e \<Rightarrow> gerr option \<times> 'e"
  x_watch_done :: "watcher \<Rightarrow> duration \<Rightarrow> 'e \<Rightarrow> bool \<times> 'e"
  x_handler :: "nat \<Rightarrow> gctx \<Rightarrow> envelope \<Rightarrow> 'e \<Rightarrow> gerr option outcome \<times> 'e"
  x_watch_handler :: "nat \<Rightarrow> stored_desired_config \<Rightarrow> 'e \<Rightarrow> gerr option \<times> 'e"
  x_hook :: "string \<Rightarrow> 'e \<Rightarrow> unit outcome \<times> 'e"

section \<open>Primitive actions\<close>

definition emit :: "event \<Rightarrow> 'e world \<Rightarrow> 'e world" where
  "emit ev w = w\<lparr>w_trace := w_trace w @ [ev]\<rparr>"

text \<open>Asking the environment without leaving a trace (reading a clock, a status, a context).\<close>

definition query :: "('e \<Rightarrow> 'a \<times> 'e) \<Rightarrow> 'e world \<Rightarrow> 'a \<times> 'e world" where
  "query f w = (let (r, e) = f (w_env w) in (r, w\<lparr>w_env := e\<rparr>))"

text \<open>A call that is recorded together with its result.\<close>

definition perform :: "('a \<Rightarrow> event) \<Rightarrow> ('e \<Rightarrow> 'a \<times> 'e) \<Rightarrow> 'e world \<Rightarrow> 'a \<times> 'e world" where
  "perform ev f w = (let (r, w1) = query f w in (r, emit (ev r) w1))"

text \<open>Optional hooks: a nil logger or nil metrics leaves no event.\<close>

definition emit_if :: "bool \<Rightarrow> event \<Rightarrow> 'e world \<Rightarrow> 'e world" where
  "emit_if b ev w = (if b then emit ev w else w)"

text \<open>
  An error sink is the function the agent passed in behind a conversion of the error, \<^verbatim>\<open>nil\<close> being
  \<open>None\<close>; the event shows what the agent's function receives.
\<close>

type_synonym error_sink = "(gerr \<Rightarrow> gerr) option"

definition sink_error :: "error_sink \<Rightarrow> gerr \<Rightarrow> 'e world \<Rightarrow> 'e world" where
  "sink_error sink err w = (case sink of None \<Rightarrow> w | Some f \<Rightarrow> emit (EvErrorSink (f err)) w)"

lemma emit_trace [simp]: "w_trace (emit ev w) = w_trace w @ [ev]" "w_env (emit ev w) = w_env w"
  by (simp_all add: emit_def)

lemma emit_if_trace [simp]:
  "w_trace (emit_if b ev w) = w_trace w @ (if b then [ev] else [])" "w_env (emit_if b ev w) = w_env w"
  by (simp_all add: emit_if_def)

lemma sink_error_trace [simp]:
  "w_trace (sink_error sink err w) =
     w_trace w @ (case sink of None \<Rightarrow> [] | Some f \<Rightarrow> [EvErrorSink (f err)])"
  by (simp add: sink_error_def split: option.splits)

lemma query_trace: "query f w = (r, w') \<Longrightarrow> w_trace w' = w_trace w"
  by (auto simp: query_def split: prod.splits)

lemma query_trace_snd [simp]: "w_trace (snd (query f w)) = w_trace w"
  by (simp add: query_def split: prod.split)

lemma perform_trace: "perform ev f w = (r, w') \<Longrightarrow> w_trace w' = w_trace w @ [ev r]"
  by (auto simp: perform_def query_def split: prod.splits)

lemma perform_trace_snd [simp]: "w_trace (snd (perform ev f w)) = w_trace w @ [ev (fst (perform ev f w))]"
  by (simp add: perform_def query_def split: prod.split)

text \<open>What an operation added to the trace.\<close>

definition adds :: "'e world \<Rightarrow> 'e world \<Rightarrow> event list \<Rightarrow> bool" where
  "adds w w' evs \<longleftrightarrow> w_trace w' = w_trace w @ evs"

lemma addsI: "w_trace w' = w_trace w @ evs \<Longrightarrow> adds w w' evs"
  by (simp add: adds_def)

lemma adds_refl [simp]: "adds w w []"
  by (simp add: adds_def)

lemma adds_unique: "adds w w' evs \<Longrightarrow> adds w w' evs' \<Longrightarrow> evs = evs'"
  by (simp add: adds_def)

lemma adds_trans: "adds w w1 xs \<Longrightarrow> adds w1 w2 ys \<Longrightarrow> adds w w2 (xs @ ys)"
  by (simp add: adds_def)

text \<open>The events of one kind an operation added, whatever the kind.\<close>

definition new_events :: "'e world \<Rightarrow> 'e world \<Rightarrow> event list" where
  "new_events w w' = drop (length (w_trace w)) (w_trace w')"

lemma new_events_adds: "adds w w' evs \<Longrightarrow> new_events w w' = evs"
  by (simp add: adds_def new_events_def)

definition is_publish :: "event \<Rightarrow> bool" where
  "is_publish ev = (case ev of EvPublish _ _ _ _ \<Rightarrow> True | _ \<Rightarrow> False)"

definition is_kv_put :: "event \<Rightarrow> bool" where
  "is_kv_put ev = (case ev of EvKVPut _ _ _ _ \<Rightarrow> True | _ \<Rightarrow> False)"

definition sent_ok :: "event \<Rightarrow> bool" where
  "sent_ok ev = (case ev of EvPublish _ _ _ None \<Rightarrow> True | _ \<Rightarrow> False)"

end
