(* ===== verification/Sample_World.thy ===== *)
theory Sample_World
  imports World
begin

text \<open>
  A small simulated environment, on which the witnesses evaluate the operations: handles are
  numbered in the order they are made, the KV bucket is an association list, and every call named
  in \<open>sm_fails\<close> fails. It is one instance of the external interface; no property depends on it.
\<close>

record sim =
  sm_next :: nat
  sm_kv :: "(string, bytes) gomap"
  sm_revision :: u64
  sm_fails :: "string list"

definition sim_error :: "string \<Rightarrow> gerr" where
  "sim_error name = ErrText (''simulated failure: '' @ name)"

definition sim_call :: "string \<Rightarrow> sim \<Rightarrow> gerr option \<times> sim" where
  "sim_call name s = (if name \<in> set (sm_fails s) then Some (sim_error name) else None, s)"

definition sim_make :: "string \<Rightarrow> sim \<Rightarrow> (gerr + nat) \<times> sim" where
  "sim_make name s = (if name \<in> set (sm_fails s) then (Inl (sim_error name), s)
     else (Inr (sm_next s), s\<lparr>sm_next := Suc (sm_next s)\<rparr>))"

definition sim_time :: gotime where
  "sim_time = \<lparr>t_nanos = 63835596800000000000, t_offset = 0\<rparr>"

definition sim_put :: "string \<Rightarrow> bytes \<Rightarrow> sim \<Rightarrow> (gerr + u64) \<times> sim" where
  "sim_put key v s = (if ''put'' \<in> set (sm_fails s) then (Inl (sim_error ''put''), s)
     else (Inr (sm_revision s + 1),
           s\<lparr>sm_kv := gomap_put key v (sm_kv s), sm_revision := sm_revision s + 1\<rparr>))"

definition sim_get :: "string \<Rightarrow> sim \<Rightarrow> (gerr + kv_entry) \<times> sim" where
  "sim_get key s = (case gomap_get (sm_kv s) key of
     None \<Rightarrow> (Inl (Sentinel JsErrKeyNotFound ''nats: key not found''), s)
   | Some v \<Rightarrow> (Inr \<lparr>ke_bucket = ''cfg_desired'', ke_key = key, ke_value = v,
        ke_revision = sm_revision s, ke_created = sim_time, ke_operation = KvPut\<rparr>, s))"

definition sim_ext :: "sim ext" where
  "sim_ext = \<lparr>
     x_clock = (\<lambda>s. (sim_time, s)),
     x_ctx_err = (\<lambda>ctx. sim_call ''context''),
     x_ctx_remaining = (\<lambda>ctx s. (seconds 3, s)),
     x_wait = (\<lambda>ctx d s. (False, s)),
     x_status = (\<lambda>nc s. (if ''status'' \<in> set (sm_fails s) then NatsReconnecting else NatsConnected, s)),
     x_connected_url = (\<lambda>nc s. (''nats://127.0.0.1:4222'', s)),
     x_connect = (\<lambda>servers opts ctx. sim_make ''connect''),
     x_close_conn = (\<lambda>nc s. ((), s)),
     x_drain = (\<lambda>nc ctx. sim_call ''drain''),
     x_publish = (\<lambda>nc subject payload. sim_call ''publish''),
     x_flush = (\<lambda>nc ctx. sim_call ''flush''),
     x_flush_timeout = (\<lambda>nc d. sim_call ''flush''),
     x_subscribe = (\<lambda>nc subject queue callback. sim_make ''subscribe''),
     x_unsubscribe = (\<lambda>sub. sim_call ''unsubscribe''),
     x_jetstream = (\<lambda>nc flavour d. sim_make ''jetstream''),
     x_bind_kv = (\<lambda>js ctx bucket. sim_make ''bind''),
     x_create_kv = (\<lambda>js ctx cfg. sim_make ''create''),
     x_kv_put = (\<lambda>kv ctx. sim_put),
     x_kv_get = (\<lambda>kv ctx. sim_get),
     x_kv_watch = (\<lambda>kv ctx key. sim_make ''watch''),
     x_nkey_option = (\<lambda>file. sim_call ''nkey''),
     x_read_file = (\<lambda>file s. (Inr ''PEM'', s)),
     x_certs_valid = (\<lambda>pem. True),
     x_load_key_pair = (\<lambda>cert key. sim_call ''key pair''),
     x_new_ctx = (\<lambda>s. (sm_next s, s\<lparr>sm_next := Suc (sm_next s)\<rparr>)),
     x_watch_ready = (\<lambda>watcher ctx. sim_call ''ready''),
     x_watch_done = (\<lambda>watcher d s. (True, s)),
     x_handler = (\<lambda>h ctx msg s. (Returns None, s)),
     x_watch_handler = (\<lambda>h stored s. (None, s)),
     x_hook = (\<lambda>name s. (Returns (), s))\<rparr>"

text \<open>The initial world of the simulation in which the named calls fail.\<close>

definition sim_world :: "string list \<Rightarrow> sim world" where
  "sim_world fails = \<lparr>
     w_env = \<lparr>sm_next = 1, sm_kv = [], sm_revision = 0, sm_fails = fails\<rparr>, w_trace = []\<rparr>"

lemma sim_ext_simps:
  "x_clock sim_ext = (\<lambda>s. (sim_time, s))"
  "x_ctx_err sim_ext = (\<lambda>ctx. sim_call ''context'')"
  "x_ctx_remaining sim_ext = (\<lambda>ctx s. (seconds 3, s))"
  "x_wait sim_ext = (\<lambda>ctx d s. (False, s))"
  "x_status sim_ext = (\<lambda>nc s. (if ''status'' \<in> set (sm_fails s) then NatsReconnecting else NatsConnected, s))"
  "x_connected_url sim_ext = (\<lambda>nc s. (''nats://127.0.0.1:4222'', s))"
  "x_connect sim_ext = (\<lambda>servers opts ctx. sim_make ''connect'')"
  "x_close_conn sim_ext = (\<lambda>nc s. ((), s))"
  "x_drain sim_ext = (\<lambda>nc ctx. sim_call ''drain'')"
  "x_publish sim_ext = (\<lambda>nc subject payload. sim_call ''publish'')"
  "x_flush sim_ext = (\<lambda>nc ctx. sim_call ''flush'')"
  "x_flush_timeout sim_ext = (\<lambda>nc d. sim_call ''flush'')"
  "x_subscribe sim_ext = (\<lambda>nc subject queue callback. sim_make ''subscribe'')"
  "x_unsubscribe sim_ext = (\<lambda>sub. sim_call ''unsubscribe'')"
  "x_jetstream sim_ext = (\<lambda>nc flavour d. sim_make ''jetstream'')"
  "x_bind_kv sim_ext = (\<lambda>js ctx bucket. sim_make ''bind'')"
  "x_create_kv sim_ext = (\<lambda>js ctx cfg. sim_make ''create'')"
  "x_kv_put sim_ext = (\<lambda>kv ctx. sim_put)"
  "x_kv_get sim_ext = (\<lambda>kv ctx. sim_get)"
  "x_kv_watch sim_ext = (\<lambda>kv ctx key. sim_make ''watch'')"
  "x_nkey_option sim_ext = (\<lambda>file. sim_call ''nkey'')"
  "x_read_file sim_ext = (\<lambda>file s. (Inr ''PEM'', s))"
  "x_certs_valid sim_ext = (\<lambda>pem. True)"
  "x_load_key_pair sim_ext = (\<lambda>cert key. sim_call ''key pair'')"
  "x_new_ctx sim_ext = (\<lambda>s. (sm_next s, s\<lparr>sm_next := Suc (sm_next s)\<rparr>))"
  "x_watch_ready sim_ext = (\<lambda>watcher ctx. sim_call ''ready'')"
  "x_watch_done sim_ext = (\<lambda>watcher d s. (True, s))"
  "x_handler sim_ext = (\<lambda>h ctx msg s. (Returns None, s))"
  "x_watch_handler sim_ext = (\<lambda>h stored s. (None, s))"
  "x_hook sim_ext = (\<lambda>name s. (Returns (), s))"
  by (simp_all add: sim_ext_def)

lemmas sim_defs = sim_ext_simps sim_world_def sim_call_def sim_make_def

end
