(* ===== verification/Session_Connect.thy ===== *)
theory Session_Connect
  imports Sample_World
begin

text \<open>
  What the session layer does with the NATS and JetStream client libraries, from
  \<^verbatim>\<open>internal/session/session.go\<close>: the options of a connection (authentication, TLS), the connect
  timeout, the JetStream handle, the KV bucket, and draining. None of it touches the manager's
  state; \<open>start_setup\<close> is the part of \<^verbatim>\<open>Start\<close> that runs without the lock.
\<close>

section \<open>Connection options\<close>

definition clamp_connect_timeout ::
  "'e ext \<Rightarrow> gctx \<Rightarrow> duration \<Rightarrow> 'e world \<Rightarrow> (gerr + duration) \<times> 'e world" where
  "clamp_connect_timeout X ctx configured w =
     (if \<not> ctx_has_deadline ctx then (Inr configured, w)
      else (let (remaining, w1) = query (x_ctx_remaining X ctx) w in
            if remaining \<le> 0 then (Inl ctx_deadline_exceeded, w1)
            else if configured \<le> 0 \<or> remaining < configured then (Inr remaining, w1)
            else (Inr configured, w1)))"

text \<open>\<^verbatim>\<open>tls.VersionTLS12\<close>.\<close>

definition tls_version_12 :: nat where "tls_version_12 = 0x0303"

definition load_root_ca ::
  "'e ext \<Rightarrow> string \<Rightarrow> 'e world \<Rightarrow> (gerr + bytes option) \<times> 'e world" where
  "load_root_ca X ca_file w =
     (if blank ca_file then (Inr None, w)
      else (let (r, w1) = query (x_read_file X ca_file) w in
        case r of
          Inl err \<Rightarrow> (Inl (ErrWrap ''read tls ca file'' err), w1)
        | Inr pem \<Rightarrow>
            if x_certs_valid X pem then (Inr (Some pem), w1)
            else (Inl (ErrText ''tls ca file contains no valid certificates''), w1)))"

definition load_client_cert ::
  "'e ext \<Rightarrow> string \<Rightarrow> string \<Rightarrow> 'e world \<Rightarrow> (gerr + (string \<times> string) option) \<times> 'e world" where
  "load_client_cert X cert_file key_file w =
     (let cert = trim_space cert_file; key = trim_space key_file in
      if cert = [] \<and> key = [] then (Inr None, w)
      else if cert = [] \<or> key = []
        then (Inl (ErrText
          ''both tls cert_file and key_file are required when configuring client certificates''), w)
      else (let (r, w1) = query (x_load_key_pair X cert key) w in
        case r of
          Some err \<Rightarrow> (Inl (ErrWrap ''load tls client cert/key'' err), w1)
        | None \<Rightarrow> (Inr (Some (cert, key)), w1)))"

definition build_tls_config ::
  "'e ext \<Rightarrow> tls_config option \<Rightarrow> 'e world \<Rightarrow> (gerr + tls_client option) \<times> 'e world" where
  "build_tls_config X cfg w =
     (case cfg of
        None \<Rightarrow> (Inr None, w)
      | Some c \<Rightarrow>
          if \<not> tls_enabled c then (Inr None, w)
          else (let (ca, w1) = load_root_ca X (tls_ca_file c) w in
            case ca of
              Inl err \<Rightarrow> (Inl err, w1)
            | Inr roots \<Rightarrow>
                (let (cert, w2) = load_client_cert X (tls_cert_file c) (tls_key_file c) w1 in
                 case cert of
                   Inl err \<Rightarrow> (Inl err, w2)
                 | Inr pair \<Rightarrow>
                     (Inr (Some \<lparr>tl_min_version = tls_version_12,
                                 tl_insecure_skip_verify = tls_insecure_skip_verify c,
                                 tl_server_name = tls_server_name c,
                                 tl_root_ca = roots,
                                 tl_certificate = pair\<rparr>), w2))))"

definition auth_options ::
  "'e ext \<Rightarrow> nats_config \<Rightarrow> 'e world \<Rightarrow> (gerr + nats_option list) \<times> 'e world" where
  "auth_options X ncfg w =
     (if \<not> blank (nc_credentials_file ncfg)
        then (Inr [OptUserCredentials [nc_credentials_file ncfg]], w)
      else if \<not> blank (nc_user_jwt_file ncfg) \<and> \<not> blank (nc_nkey_seed_file ncfg)
        then (Inr [OptUserCredentials [nc_user_jwt_file ncfg, nc_nkey_seed_file ncfg]], w)
      else if \<not> blank (nc_nkey_seed_file ncfg)
        then (let (r, w1) = query (x_nkey_option X (nc_nkey_seed_file ncfg)) w in
              case r of
                Some err \<Rightarrow> (Inl err, w1)
              | None \<Rightarrow> (Inr [OptNkeySeed (nc_nkey_seed_file ncfg)], w1))
      else if \<not> blank (nc_username ncfg) \<or> \<not> blank (nc_password ncfg)
        then (Inr [OptUserInfo (nc_username ncfg) (nc_password ncfg)], w)
      else if \<not> blank (nc_token ncfg)
        then (Inr [OptToken (nc_token ncfg)], w)
      else (Inr [], w))"

definition base_options :: "nats_config \<Rightarrow> duration \<Rightarrow> nats_option list" where
  "base_options ncfg connect_timeout = [
     OptTimeout connect_timeout,
     OptRetryOnFailedConnect (nc_retry_on_failed_connect ncfg),
     OptMaxReconnects (nc_max_reconnects ncfg),
     OptReconnectWait (nc_reconnect_wait ncfg),
     OptReconnectBufSize (nc_reconnect_buf_size ncfg),
     OptDisconnectErrHandler, OptReconnectHandler, OptClosedHandler, OptErrorHandler]"

definition name_options :: "session_config \<Rightarrow> nats_option list" where
  "name_options cfg =
     (let client = trim_space (nc_client_name (sc_nats cfg));
          name = (if client = [] then trim_space (sc_agent_name cfg) else client)
      in if name \<noteq> [] then [OptName name] else [])"

definition build_nats_options ::
  "'e ext \<Rightarrow> session_config \<Rightarrow> duration \<Rightarrow> 'e world \<Rightarrow> (gerr + nats_option list) \<times> 'e world" where
  "build_nats_options X cfg connect_timeout w =
     (let (auth, w1) = auth_options X (sc_nats cfg) w in
      case auth of
        Inl err \<Rightarrow> (Inl err, w1)
      | Inr a \<Rightarrow>
          (let (tls, w2) = build_tls_config X (nc_tls (sc_nats cfg)) w1 in
           case tls of
             Inl err \<Rightarrow> (Inl err, w2)
           | Inr t \<Rightarrow>
               (Inr (base_options (sc_nats cfg) connect_timeout @ name_options cfg @ a @
                  (case t of None \<Rightarrow> [] | Some c \<Rightarrow> [OptSecure c])), w2)))"

text \<open>
  \<open>x_connect\<close> is \<^verbatim>\<open>nats.Connect\<close> in its goroutine together with the \<^verbatim>\<open>select\<close> that waits for
  it: when the context ends first the result is the context's error, and a connection that is
  established later is closed by the waiting goroutine without the caller ever seeing it.
\<close>

definition connect_nats ::
  "'e ext \<Rightarrow> session_config \<Rightarrow> gctx \<Rightarrow> 'e world \<Rightarrow> (gerr + conn) \<times> 'e world" where
  "connect_nats X cfg ctx w =
     (let (t, w1) = clamp_connect_timeout X ctx (nc_connect_timeout (sc_nats cfg)) w in
      case t of
        Inl err \<Rightarrow> (Inl err, w1)
      | Inr timeout \<Rightarrow>
          (let (built, w2) = build_nats_options X cfg timeout w1 in
           case built of
             Inl err \<Rightarrow> (Inl err, w2)
           | Inr opts \<Rightarrow>
               (let servers = join_with '','' (nc_servers (sc_nats cfg)) in
                perform (EvConnect servers opts) (x_connect X servers opts ctx) w2)))"

section \<open>JetStream and the KV bucket\<close>

definition new_jetstream ::
  "'e ext \<Rightarrow> session_config \<Rightarrow> conn \<Rightarrow> 'e world \<Rightarrow> (gerr + jetstream) \<times> 'e world" where
  "new_jetstream X cfg nc w =
     (let t = jc_default_timeout (sc_jetstream cfg);
          domain = trim_space (jc_domain (sc_jetstream cfg));
          pfx = trim_space (jc_api_prefix (sc_jetstream cfg))
      in if domain \<noteq> [] then query (x_jetstream X nc (JsDomain domain) t) w
         else if pfx \<noteq> [] then query (x_jetstream X nc (JsApiPrefix pfx) t) w
         else query (x_jetstream X nc JsPlain t) w)"

definition is_bucket_not_found :: "gerr \<Rightarrow> bool" where
  "is_bucket_not_found err =
     (if errors_is err NatsErrBucketNotFound then True
      else (let message = to_lower (error_text err) in
            contains message ''bucket not found'' \<or> contains message ''stream not found''))"

definition bucket_settings :: "kv_config \<Rightarrow> bucket_config" where
  "bucket_settings k = \<lparr>
     bk_bucket = kc_bucket k, bk_history = kc_history k, bk_ttl = kc_ttl k,
     bk_max_value_size = kc_max_value_size k, bk_replicas = kc_replicas k,
     bk_storage = (if to_lower (kc_storage k) = ''memory'' then MemoryStorage else FileStorage)\<rparr>"

definition bind_or_create_kv ::
  "'e ext \<Rightarrow> session_config \<Rightarrow> gctx \<Rightarrow> jetstream \<Rightarrow> 'e world \<Rightarrow> (gerr + kv_handle) \<times> 'e world" where
  "bind_or_create_kv X cfg ctx js w =
     (let bucket = kc_bucket (sc_kv cfg);
          (r, w1) = perform (EvBindKV js bucket) (x_bind_kv X js ctx bucket) w in
      case r of
        Inr kv \<Rightarrow> (Inr kv, w1)
      | Inl err \<Rightarrow>
          if \<not> is_bucket_not_found err then (Inl err, w1)
          else if \<not> kc_auto_create_bucket (sc_kv cfg) then (Inl err, w1)
          else (let b = bucket_settings (sc_kv cfg) in
                perform (EvCreateKV js b) (x_create_kv X js ctx b) w1))"

definition with_kv_timeout :: "session_config \<Rightarrow> gctx \<Rightarrow> gctx" where
  "with_kv_timeout cfg ctx =
     (if ctx_has_deadline ctx then ctx else CtxTimeout ctx (tc_kv (sc_timeouts cfg)))"

definition drain_connection ::
  "'e ext \<Rightarrow> gctx \<Rightarrow> conn option \<Rightarrow> duration \<Rightarrow> 'e world \<Rightarrow> gerr option \<times> 'e world" where
  "drain_connection X ctx nc timeout w =
     (case nc of
        None \<Rightarrow> (None, w)
      | Some c \<Rightarrow>
          (let drain_ctx = (if \<not> ctx_has_deadline ctx \<and> timeout > 0 then CtxTimeout ctx timeout else ctx)
           in perform (EvDrain c) (x_drain X c drain_ctx) w))"

definition close_conn :: "'e ext \<Rightarrow> conn \<Rightarrow> 'e world \<Rightarrow> 'e world" where
  "close_conn X nc w = snd (perform (\<lambda>_. EvCloseConn nc) (x_close_conn X nc) w)"

lemma close_conn_trace [simp]: "w_trace (close_conn X nc w) = w_trace w @ [EvCloseConn nc]"
  by (simp add: close_conn_def)

section \<open>The unlocked part of Start\<close>

text \<open>
  A failure carries the error \<^verbatim>\<open>Start\<close> returns, the cause it shows in the health snapshot, and
  whether the connect counter is bumped.
\<close>

record start_failure =
  sf_error :: gerr
  sf_cause :: gerr
  sf_count :: bool

definition start_setup ::
  "'e ext \<Rightarrow> session_config \<Rightarrow> gctx \<Rightarrow> 'e world \<Rightarrow>
   (start_failure + conn \<times> jetstream \<times> kv_handle) \<times> 'e world" where
  "start_setup X cfg ctx w =
     (let (c, w1) = connect_nats X cfg ctx w in
      case c of
        Inl err \<Rightarrow> (Inl \<lparr>sf_error = RtError RtConnectionFailed ''start_connect'' [] []
             ''failed to connect to NATS'' True (Some err), sf_cause = err, sf_count = True\<rparr>, w1)
      | Inr nc \<Rightarrow>
     (let (ce, w2) = query (x_ctx_err X ctx) w1 in
      case ce of
        Some err \<Rightarrow> (Inl \<lparr>sf_error = RtError RtConnectionFailed ''start_connect'' [] []
             ''start context canceled during connection setup'' True (Some err),
             sf_cause = err, sf_count = False\<rparr>, close_conn X nc w2)
      | None \<Rightarrow>
     (let (j, w3) = new_jetstream X cfg nc w2 in
      case j of
        Inl err \<Rightarrow> (Inl \<lparr>sf_error = RtError RtJetStreamFailed ''start_jetstream'' [] []
             ''failed to initialize JetStream'' True (Some err),
             sf_cause = err, sf_count = False\<rparr>, close_conn X nc w3)
      | Inr js \<Rightarrow>
     (let (k, w4) = bind_or_create_kv X cfg (with_kv_timeout cfg ctx) js w3 in
      case k of
        Inl err \<Rightarrow> (Inl \<lparr>sf_error = RtError RtJetStreamFailed ''start_kv'' [] []
             ''failed to bind or create desired-config KV bucket'' True (Some err),
             sf_cause = err, sf_count = False\<rparr>, close_conn X nc w4)
      | Inr kv \<Rightarrow> (Inr (nc, js, kv), w4)))))"

section \<open>What these operations do\<close>

lemma clamp_silent: "clamp_connect_timeout X ctx t w = (r, w') \<Longrightarrow> w_trace w' = w_trace w"
  by (auto simp: clamp_connect_timeout_def split: if_splits prod.splits dest: query_trace)

lemma load_root_ca_silent: "load_root_ca X f w = (r, w') \<Longrightarrow> w_trace w' = w_trace w"
  by (auto simp: load_root_ca_def split: if_splits prod.splits sum.splits dest: query_trace)

lemma load_client_cert_silent: "load_client_cert X c k w = (r, w') \<Longrightarrow> w_trace w' = w_trace w"
  by (auto simp: load_client_cert_def Let_def split: if_splits prod.splits option.splits dest: query_trace)

lemma build_tls_silent: "build_tls_config X c w = (r, w') \<Longrightarrow> w_trace w' = w_trace w"
  by (fastforce simp: build_tls_config_def split: if_splits prod.splits sum.splits option.splits
      dest: load_root_ca_silent load_client_cert_silent)

lemma auth_silent: "auth_options X n w = (r, w') \<Longrightarrow> w_trace w' = w_trace w"
  by (auto simp: auth_options_def split: if_splits prod.splits option.splits dest: query_trace)

lemma build_options_silent: "build_nats_options X cfg t w = (r, w') \<Longrightarrow> w_trace w' = w_trace w"
  by (fastforce simp: build_nats_options_def split: prod.splits sum.splits
      dest: auth_silent build_tls_silent)

lemma new_jetstream_silent: "new_jetstream X cfg nc w = (r, w') \<Longrightarrow> w_trace w' = w_trace w"
  by (auto simp: new_jetstream_def Let_def split: if_splits dest: query_trace)

lemma connect_nats_cases:
  assumes "connect_nats X cfg ctx w = (r, w')"
  obtains err where "r = Inl err" "adds w w' []"
  | servers opts where "adds w w' [EvConnect servers opts r]"
proof -
  obtain t w1 where t: "clamp_connect_timeout X ctx (nc_connect_timeout (sc_nats cfg)) w = (t, w1)" by fastforce
  note s1 = clamp_silent [OF t]
  show thesis
  proof (cases t)
    case (Inl err)
    then show thesis using assms t s1 that(1) [of err] by (simp add: connect_nats_def adds_def)
  next
    case (Inr timeout)
    obtain b w2 where b: "build_nats_options X cfg timeout w1 = (b, w2)" by fastforce
    note s2 = build_options_silent [OF b]
    show thesis
    proof (cases b)
      case (Inl err)
      then show thesis using assms t b Inr s1 s2 that(1) [of err] by (simp add: connect_nats_def adds_def)
    next
      case Built: (Inr opts)
      let ?s = "join_with '','' (nc_servers (sc_nats cfg))"
      have "perform (EvConnect ?s opts) (x_connect X ?s opts ctx) w2 = (r, w')"
        using assms t b Inr Built by (simp add: connect_nats_def Let_def)
      from perform_trace [OF this] s1 s2 show thesis by (intro that(2)) (simp add: adds_def)
    qed
  qed
qed

lemma bind_or_create_cases:
  assumes "bind_or_create_kv X cfg ctx js w = (r, w')"
  obtains
    (bound) kv where "r = Inr kv" "adds w w' [EvBindKV js (kc_bucket (sc_kv cfg)) (Inr kv)]"
  | (refused) err where "r = Inl err" "adds w w' [EvBindKV js (kc_bucket (sc_kv cfg)) (Inl err)]"
      "\<not> is_bucket_not_found err \<or> \<not> kc_auto_create_bucket (sc_kv cfg)"
  | (created) err where "is_bucket_not_found err" "kc_auto_create_bucket (sc_kv cfg)"
      "adds w w' [EvBindKV js (kc_bucket (sc_kv cfg)) (Inl err), EvCreateKV js (bucket_settings (sc_kv cfg)) r]"
proof -
  let ?b = "kc_bucket (sc_kv cfg)"
  obtain b w1 where b: "perform (EvBindKV js ?b) (x_bind_kv X js ctx ?b) w = (b, w1)" by fastforce
  note t = perform_trace [OF b]
  show thesis
  proof (cases b)
    case (Inr kv)
    then show thesis using assms b t by (intro bound [of kv]) (auto simp: bind_or_create_kv_def adds_def)
  next
    case (Inl err)
    show thesis
    proof (cases "is_bucket_not_found err \<and> kc_auto_create_bucket (sc_kv cfg)")
      case False
      then show thesis using assms b Inl t refused [of err]
        by (auto simp: bind_or_create_kv_def adds_def split: if_splits)
    next
      case True
      let ?s = "bucket_settings (sc_kv cfg)"
      have "perform (EvCreateKV js ?s) (x_create_kv X js ctx ?s) w1 = (r, w')"
        using assms b Inl True by (simp add: bind_or_create_kv_def Let_def)
      from perform_trace [OF this] t Inl True show thesis
        by (intro created [of err]) (simp_all add: adds_def)
    qed
  qed
qed

text \<open>The connections a run of events opened, and those it closed or drained.\<close>

definition opened :: "event list \<Rightarrow> conn list" where
  "opened evs = List.map_filter (\<lambda>ev. case ev of EvConnect _ _ (Inr nc) \<Rightarrow> Some nc | _ \<Rightarrow> None) evs"

definition released :: "event list \<Rightarrow> conn list" where
  "released evs = List.map_filter (\<lambda>ev. case ev of EvCloseConn nc \<Rightarrow> Some nc
     | EvDrain nc None \<Rightarrow> Some nc | _ \<Rightarrow> None) evs"

lemma opened_simps [simp]:
  "opened [] = []" "opened (xs @ ys) = opened xs @ opened ys"
  "opened (EvConnect s os (Inr nc) # evs) = nc # opened evs"
  "opened (EvConnect s os (Inl err) # evs) = opened evs"
  "opened (EvCloseConn nc # evs) = opened evs" "opened (EvDrain nc r # evs) = opened evs"
  "opened (EvBindKV js b k # evs) = opened evs" "opened (EvCreateKV js c k # evs) = opened evs"
  "opened (EvSetState t # evs) = opened evs" "opened (EvIncConnect t # evs) = opened evs"
  by (simp_all add: opened_def List.map_filter_def)

lemma released_simps [simp]:
  "released [] = []" "released (xs @ ys) = released xs @ released ys"
  "released (EvConnect s os cr # evs) = released evs"
  "released (EvCloseConn nc # evs) = nc # released evs"
  "released (EvDrain nc None # evs) = nc # released evs"
  "released (EvDrain nc (Some err) # evs) = released evs"
  "released (EvBindKV js b k # evs) = released evs" "released (EvCreateKV js c k # evs) = released evs"
  "released (EvSetState t # evs) = released evs" "released (EvIncConnect t # evs) = released evs"
  by (simp_all add: released_def List.map_filter_def)

lemma start_setup_cases:
  assumes "start_setup X cfg ctx w = (r, w')"
  obtains (failed) f evs where "r = Inl f" "adds w w' evs" "released evs = opened evs"
  | (ready) nc js kv evs where "r = Inr (nc, js, kv)" "adds w w' evs" "opened evs = [nc]" "released evs = []"
proof -
  obtain c w1 where c: "connect_nats X cfg ctx w = (c, w1)" by fastforce
  show thesis
  proof (cases c)
    case (Inl err)
    from c Inl obtain evs where evs: "adds w w1 evs" "opened evs = []" "released evs = []"
      by (cases rule: connect_nats_cases) auto
    with assms c Inl show thesis by (intro failed [of _ evs]) (auto simp: start_setup_def)
  next
    case (Inr nc)
    from c Inr obtain s os where t1: "adds w w1 [EvConnect s os (Inr nc)]"
      by (cases rule: connect_nats_cases) auto
    obtain ce w2 where ce: "query (x_ctx_err X ctx) w1 = (ce, w2)" by fastforce
    note t2 = query_trace [OF ce]
    show thesis
    proof (cases ce)
      case (Some err)
      then show thesis using assms c Inr ce t1 t2
        by (intro failed [of _ "[EvConnect s os (Inr nc), EvCloseConn nc]"])
          (auto simp: start_setup_def adds_def)
    next
      case None
      obtain j w3 where j: "new_jetstream X cfg nc w2 = (j, w3)" by fastforce
      note t3 = new_jetstream_silent [OF j]
      show thesis
      proof (cases j)
        case (Inl err)
        then show thesis using assms c Inr ce None j t1 t2 t3
          by (intro failed [of _ "[EvConnect s os (Inr nc), EvCloseConn nc]"])
            (auto simp: start_setup_def adds_def)
      next
        case Js: (Inr js)
        obtain k w4 where k: "bind_or_create_kv X cfg (with_kv_timeout cfg ctx) js w3 = (k, w4)" by fastforce
        then obtain evs where t4: "adds w3 w4 evs" "opened evs = []" "released evs = []"
          by (cases rule: bind_or_create_cases) auto
        show thesis
        proof (cases k)
          case (Inl err)
          then show thesis using assms c Inr ce None j Js k t1 t2 t3 t4
            by (intro failed [of _ "EvConnect s os (Inr nc) # evs @ [EvCloseConn nc]"])
              (auto simp: start_setup_def adds_def)
        next
          case Kv: (Inr kv)
          then show thesis using assms c Inr ce None j Js k t1 t2 t3 t4
            by (intro ready [of nc js kv "EvConnect s os (Inr nc) # evs"])
              (auto simp: start_setup_def adds_def)
        qed
      qed
    qed
  qed
qed

lemma drain_cases:
  assumes "drain_connection X ctx nc t w = (r, w')"
  obtains "nc = None" "r = None" "adds w w' []"
  | c where "nc = Some c" "adds w w' [EvDrain c r]"
proof (cases nc)
  case None
  then show thesis using assms that(1) by (simp add: drain_connection_def)
next
  case (Some c)
  with assms have "w_trace w' = w_trace w @ [EvDrain c r]"
    by (simp add: drain_connection_def Let_def perform_trace split: if_splits)
  with Some show thesis by (intro that(2)) (simp_all add: adds_def)
qed

section \<open>Properties\<close>



definition is_auth_option :: "nats_option \<Rightarrow> bool" where
  "is_auth_option opt = (case opt of OptUserCredentials _ \<Rightarrow> True | OptNkeySeed _ \<Rightarrow> True
     | OptUserInfo _ _ \<Rightarrow> True | OptToken _ \<Rightarrow> True | _ \<Rightarrow> False)"

definition has_credentials :: "nats_config \<Rightarrow> bool" where
  "has_credentials n \<longleftrightarrow> \<not> blank (nc_credentials_file n) \<or> \<not> blank (nc_nkey_seed_file n) \<or>
     \<not> blank (nc_username n) \<or> \<not> blank (nc_password n) \<or> \<not> blank (nc_token n)"

definition secures :: "tls_config option \<Rightarrow> nats_option list \<Rightarrow> bool" where
  "secures cfg opts \<longleftrightarrow> (case cfg of
     None \<Rightarrow> (\<forall>t. OptSecure t \<notin> set opts)
   | Some c \<Rightarrow> if \<not> tls_enabled c then (\<forall>t. OptSecure t \<notin> set opts)
       else (\<exists>t. OptSecure t \<in> set opts \<and> tl_min_version t = 0x0303 \<and>
         tl_insecure_skip_verify t = tls_insecure_skip_verify c \<and>
         tl_server_name t = tls_server_name c \<and>
         (tl_root_ca t \<noteq> None \<longleftrightarrow> \<not> blank (tls_ca_file c)) \<and>
         (tl_certificate t \<noteq> None \<longleftrightarrow> \<not> blank (tls_cert_file c) \<and> \<not> blank (tls_key_file c)) \<and>
         (blank (tls_cert_file c) \<longleftrightarrow> blank (tls_key_file c))))"

lemma auth_options_one:
  assumes "auth_options X n w = (Inr a, w')"
  shows "\<forall>opt\<in>set a. is_auth_option opt" and "length a = (if has_credentials n then 1 else 0)"
  using assms
  by (auto simp: auth_options_def has_credentials_def is_auth_option_def
      split: if_splits prod.splits option.splits)

lemma load_root_ca_Inr: "load_root_ca X f w = (Inr roots, w') \<Longrightarrow> roots \<noteq> None \<longleftrightarrow> \<not> blank f"
  by (auto simp: load_root_ca_def split: if_splits prod.splits sum.splits)

lemma load_client_cert_Inr:
  "load_client_cert X c k w = (Inr pair, w') \<Longrightarrow>
     (pair \<noteq> None \<longleftrightarrow> \<not> blank c \<and> \<not> blank k) \<and> (blank c \<longleftrightarrow> blank k)"
  by (auto simp: load_client_cert_def Let_def split: if_splits prod.splits option.splits)

lemma build_tls_secures:
  assumes "build_tls_config X cfg w = (Inr t, w')"
  shows "secures cfg (case t of None \<Rightarrow> [] | Some c \<Rightarrow> [OptSecure c])"
proof (cases "\<exists>c. cfg = Some c \<and> tls_enabled c")
  case False
  with assms show ?thesis
    by (auto simp: build_tls_config_def secures_def split: option.splits)
next
  case True
  then obtain c where c: "cfg = Some c" "tls_enabled c" by blast
  with assms obtain roots pair w1 w2 where
    r: "load_root_ca X (tls_ca_file c) w = (Inr roots, w1)"
      "load_client_cert X (tls_cert_file c) (tls_key_file c) w1 = (Inr pair, w2)"
    and t: "t = Some \<lparr>tl_min_version = tls_version_12,
      tl_insecure_skip_verify = tls_insecure_skip_verify c, tl_server_name = tls_server_name c,
      tl_root_ca = roots, tl_certificate = pair\<rparr>"
    by (auto simp: build_tls_config_def split: prod.splits sum.splits)
  show ?thesis
    using load_root_ca_Inr [OF r(1)] load_client_cert_Inr [OF r(2)]
    by (simp add: secures_def c t tls_version_12_def)
qed

text \<open>C34: the options of a connection: at most one way of authenticating is used, and one is used
  exactly when some credential is configured; the four session callbacks are always installed; and
  TLS is on exactly when it is enabled in the configuration, then with version 1.2 at least, the
  configured server name and verification setting, and root certificates and client certificate
  whenever files are named for them.\<close>

theorem build_nats_options_sound:
  assumes "build_nats_options X cfg t w = (Inr opts, w')"
  shows "length (filter is_auth_option opts) = (if has_credentials (sc_nats cfg) then 1 else 0) \<and>
    {OptTimeout t, OptDisconnectErrHandler, OptReconnectHandler, OptClosedHandler, OptErrorHandler} \<subseteq> set opts \<and>
    secures (nc_tls (sc_nats cfg)) opts"
proof -
  obtain a w1 c w2 where a: "auth_options X (sc_nats cfg) w = (Inr a, w1)"
    and c: "build_tls_config X (nc_tls (sc_nats cfg)) w1 = (Inr c, w2)"
    and opts: "opts = base_options (sc_nats cfg) t @ name_options cfg @ a @
      (case c of None \<Rightarrow> [] | Some x \<Rightarrow> [OptSecure x])"
    using assms by (auto simp: build_nats_options_def split: prod.splits sum.splits)
  note one = auth_options_one [OF a]
  have "filter is_auth_option a = a" using one(1) by simp
  then have n: "length (filter is_auth_option opts) = length a"
    unfolding opts
    by (auto simp: base_options_def name_options_def is_auth_option_def Let_def split: option.splits)
  have other: "\<forall>x. OptSecure x \<notin> set (base_options (sc_nats cfg) t @ name_options cfg @ a)"
    using one(1) by (auto simp: base_options_def name_options_def is_auth_option_def Let_def)
  then have "secures (nc_tls (sc_nats cfg)) opts"
    using build_tls_secures [OF c] unfolding opts secures_def
    by (auto split: option.splits if_splits)
  with n one(2) show ?thesis by (simp add: opts base_options_def)
qed

definition sample_tls :: tls_config where
  "sample_tls = \<lparr>tls_enabled = True, tls_insecure_skip_verify = False, tls_ca_file = ''ca.pem'',
     tls_cert_file = [], tls_key_file = [], tls_server_name = ''hub''\<rparr>"

definition sample_secure :: session_config where
  "sample_secure = sample_effective
     \<lparr>sc_nats := (sc_nats sample_effective)\<lparr>nc_token := ''t0ken'', nc_tls := Some sample_tls\<rparr>\<rparr>"

definition sample_options :: "nats_option list" where
  "sample_options = base_options (sc_nats sample_secure) 5 @ [OptName ''vyos'', OptToken ''t0ken'',
        OptSecure \<lparr>tl_min_version = 0x0303, tl_insecure_skip_verify = False,
          tl_server_name = ''hub'', tl_root_ca = Some ''PEM'', tl_certificate = None\<rparr>]"

lemma sample_secure_options:
  "build_nats_options sim_ext sample_secure 5 (sim_world []) =
     (Inr sample_options, sim_world [])"
proof -
  have "auth_options sim_ext (sc_nats sample_secure) (sim_world []) = (Inr [OptToken ''t0ken''], sim_world [])"
    by (simp add: auth_options_def sample_secure_def sample_effective_def go_simps)
  moreover have "name_options sample_secure = [OptName ''vyos'']"
    by (simp add: name_options_def sample_secure_def sample_effective_def go_simps)
  moreover have "load_root_ca sim_ext ''ca.pem'' (sim_world []) = (Inr (Some ''PEM''), sim_world [])"
    by (simp add: load_root_ca_def query_def sim_defs go_simps)
  ultimately show ?thesis
    by (simp add: build_nats_options_def build_tls_config_def load_client_cert_def
        sample_options_def sample_secure_def sample_tls_def tls_version_12_def go_simps)
qed

theorem build_nats_options_sound_witness:
  "has_credentials (sc_nats sample_secure) \<and> secures (Some sample_tls) sample_options \<and>
   length (filter is_auth_option sample_options) = 1"
proof -
  have "has_credentials (sc_nats sample_secure)"
    by (simp add: has_credentials_def sample_secure_def sample_effective_def go_simps)
  then show ?thesis using build_nats_options_sound [OF sample_secure_options]
    by (simp add: sample_secure_def)
qed

text \<open>C35: the desired-config bucket: it is only created when binding to it reported that it does not
  exist and the configuration allows creating it; and what is created under an effective
  configuration has the configured name, a history between 1 and 64 and at least one replica.\<close>

theorem bind_or_create_kv_guarded:
  assumes "kv_ok (sc_kv cfg)" and "bind_or_create_kv X cfg ctx js w = (r, w')"
  shows "\<exists>evs. adds w w' evs \<and> (\<forall>js' b k. EvCreateKV js' b k \<in> set evs \<longrightarrow>
      (\<exists>err. hd evs = EvBindKV js (kc_bucket (sc_kv cfg)) (Inl err) \<and> is_bucket_not_found err) \<and>
      kc_auto_create_bucket (sc_kv cfg) \<and> js' = js \<and> bk_bucket b = kc_bucket (sc_kv cfg) \<and>
      1 \<le> unat (bk_history b) \<and> unat (bk_history b) \<le> 64 \<and> 1 \<le> bk_replicas b \<and> k = r)"
  using assms(2)
proof (cases rule: bind_or_create_cases)
  case (created err)
  then show ?thesis using assms(1)
    by (intro exI [of _ "[EvBindKV js (kc_bucket (sc_kv cfg)) (Inl err),
          EvCreateKV js (bucket_settings (sc_kv cfg)) r]"])
      (auto simp: bucket_settings_def kv_ok_def)
qed (rule exI, rule conjI, assumption, simp)+

theorem bind_or_create_kv_guarded_witness:
  "kv_ok (sc_kv sample_effective) \<and>
   fst (bind_or_create_kv sim_ext sample_effective CtxBackground 2 (sim_world [])) = Inr 1"
proof -
  have k: "kv_ok (sc_kv sample_effective)"
    using normalized_effective [OF sample_defaults_ok sample_normalized] by (simp add: effective_ok_def)
  obtain r w' where b: "bind_or_create_kv sim_ext sample_effective CtxBackground 2 (sim_world []) = (r, w')"
    by fastforce
  moreover from b have "r = Inr 1"
    by (auto simp: bind_or_create_kv_def Let_def perform_def query_def sim_defs)
  ultimately show ?thesis using k bind_or_create_kv_guarded [OF k b] by simp
qed

end
