(* ===== verification/Transport.thy ===== *)
theory Transport
  imports World
begin

text \<open>
  The low-level publisher, \<^verbatim>\<open>internal/transport/publisher.go\<close>: validation of the call, the retry
  loop over one publish-and-flush attempt, and the metrics it counts. What the publisher needs of
  the session layer is its interface \<^verbatim>\<open>ConnectionProvider\<close>, the locale \<open>connection_provider\<close>
  below; the session layer interprets it.
\<close>

section \<open>The publisher\<close>

text \<open>
  The three getter functions of the source read the effective configuration of the session,
  which never changes after construction, so the record holds their values.
\<close>

record 'e publisher =
  pb_connection :: "'e world \<Rightarrow> (gerr + conn) \<times> 'e world"
  pb_publish_timeout :: duration
  pb_attempts :: int
  pb_backoff :: duration
  pb_logger :: bool
  pb_metrics :: bool

definition new_publisher ::
  "('e world \<Rightarrow> (gerr + conn) \<times> 'e world) option \<Rightarrow> duration option \<Rightarrow> int option \<Rightarrow>
   duration option \<Rightarrow> bool \<Rightarrow> bool \<Rightarrow> gerr + 'e publisher" where
  "new_publisher connection publish_timeout attempts backoff logger metrics =
     (case connection of
        None \<Rightarrow> Inl (RtError RtValidation ''new_publisher'' [] []
                  ''connection provider is required'' False None)
      | Some c \<Rightarrow> Inr \<lparr>
          pb_connection = c,
          pb_publish_timeout = (case publish_timeout of None \<Rightarrow> 0 | Some t \<Rightarrow> t),
          pb_attempts = (case attempts of None \<Rightarrow> 1 | Some n \<Rightarrow> n),
          pb_backoff = (case backoff of None \<Rightarrow> 0 | Some b \<Rightarrow> b),
          pb_logger = logger,
          pb_metrics = metrics\<rparr>)"

definition publish_context :: "gctx option \<Rightarrow> duration \<Rightarrow> gctx" where
  "publish_context ctx timeout =
     (case ctx of
        None \<Rightarrow> CtxCancel CtxBackground 0
      | Some c \<Rightarrow> if ctx_has_deadline c \<or> timeout \<le> 0 then c else CtxTimeout c timeout)"

definition publish_once ::
  "'e ext \<Rightarrow> 'e publisher \<Rightarrow> gctx \<Rightarrow> string \<Rightarrow> string \<Rightarrow> string \<Rightarrow> bytes \<Rightarrow> 'e world \<Rightarrow>
   gerr option \<times> 'e world" where
  "publish_once X p ctx op kind subject payload w =
     (let (c, w1) = pb_connection p w in
      case c of
        Inl err \<Rightarrow> (Some (RtError RtDisconnected op subject [] ''connection not resolved'' True (Some err)), w1)
      | Inr nc \<Rightarrow>
          (let (r, w2) = perform (EvPublish nc subject payload) (x_publish X nc subject payload) w1 in
           case r of
             Some err \<Rightarrow>
               (Some (RtError RtPublishFailed op subject [] ''publish failed'' True (Some err)),
                emit_if (pb_metrics p) (EvIncPublish kind subject ''failure'') w2)
           | None \<Rightarrow>
               (let fctx = publish_context (Some ctx) (pb_publish_timeout p);
                    (f, w3) = perform (EvFlush nc fctx) (x_flush X nc fctx) w2
                in case f of
                     Some err \<Rightarrow>
                       (Some (RtError RtPublishFailed op subject [] ''flush failed'' False (Some err)),
                        emit_if (pb_metrics p) (EvIncPublish kind subject ''failure'') w3)
                   | None \<Rightarrow> (None, w3))))"

definition not_retryable :: "gerr \<Rightarrow> bool" where
  "not_retryable err =
     (case as_runtime err of Some (RtError _ _ _ _ _ retryable _) \<Rightarrow> \<not> retryable | _ \<Rightarrow> False)"

definition context_unusable :: "string \<Rightarrow> string \<Rightarrow> gerr \<Rightarrow> gerr" where
  "context_unusable op subject err =
     RtError RtValidation op subject [] ''context is not usable'' False (Some err)"

definition publish_op :: "string \<Rightarrow> string" where
  "publish_op op = (if op = [] then ''publish_payload'' else op)"

definition publish_aborted :: "string \<Rightarrow> string \<Rightarrow> gerr option \<Rightarrow> gerr" where
  "publish_aborted op subject cause =
     RtError RtPublishFailed op subject [] ''publish aborted due to context cancellation'' False cause"

text \<open>The loop with \<open>n\<close> attempts left; \<open>prior\<close> is \<^verbatim>\<open>lastErr\<close>.\<close>

fun publish_loop ::
  "'e ext \<Rightarrow> 'e publisher \<Rightarrow> gctx \<Rightarrow> string \<Rightarrow> string \<Rightarrow> string \<Rightarrow> bytes \<Rightarrow> nat \<Rightarrow> gerr option \<Rightarrow>
   'e world \<Rightarrow> gerr option \<times> 'e world" where
  "publish_loop X p ctx op kind subject payload 0 prior w = (prior, w)"
| "publish_loop X p ctx op kind subject payload (Suc n) prior w =
     (let (ce, w1) = query (x_ctx_err X ctx) w in
      case ce of
        Some err \<Rightarrow> (Some (context_unusable op subject err), w1)
      | None \<Rightarrow>
          (let (r, w2) = publish_once X p ctx op kind subject payload w1 in
           case r of
             None \<Rightarrow>
               (None, emit_if (pb_metrics p) (EvObservePublish kind subject)
                        (emit_if (pb_metrics p) (EvIncPublish kind subject ''success'') w2))
           | Some err \<Rightarrow>
               if not_retryable err then (Some err, w2)
               else
                 (let w3 = emit_if (pb_logger p) (EvLog LogWarn ''publish attempt failed'') w2 in
                  if 0 < n then
                    (let (ctx_done, w4) = query (x_wait X ctx (pb_backoff p)) w3 in
                     if ctx_done then
                       (let (cause, w5) = query (x_ctx_err X ctx) w4 in
                        (Some (publish_aborted op subject cause), w5))
                     else publish_loop X p ctx op kind subject payload n (Some err) w4)
                  else publish_loop X p ctx op kind subject payload n (Some err) w3)))"

definition publish ::
  "'e ext \<Rightarrow> 'e publisher \<Rightarrow> gctx option \<Rightarrow> string \<Rightarrow> string \<Rightarrow> string \<Rightarrow> bytes \<Rightarrow> 'e world \<Rightarrow>
   gerr option \<times> 'e world" where
  "publish X p mctx op0 kind subject payload w =
     (let op = publish_op op0 in
      case mctx of
        None \<Rightarrow> (Some (RtError RtValidation op subject [] ''context is required'' False None), w)
      | Some ctx \<Rightarrow>
          (let (ce, w1) = query (x_ctx_err X ctx) w in
           case ce of
             Some err \<Rightarrow> (Some (context_unusable op subject err), w1)
           | None \<Rightarrow>
               if blank subject
                 then (Some (RtError RtValidation op [] [] ''publish subject is required'' False None), w1)
               else if payload = []
                 then (Some (RtError RtValidation op subject [] ''payload is required'' False None), w1)
               else publish_loop X p ctx op kind subject payload
                      (nat (if pb_attempts p \<le> 0 then 1 else pb_attempts p)) None w1))"

section \<open>What a call may do\<close>

text \<open>
  The specification of a publish call with at most \<open>n\<close> attempts, over the events it adds: they
  belong to the call; there are at most \<open>n\<close> publish requests and at most one of them is accepted
  by the client library (a message whose flush failed is never sent again); the call succeeds
  exactly when a flush did; and a failure is an error of this operation with one of the three
  codes.
\<close>

definition publish_event :: "string \<Rightarrow> bytes \<Rightarrow> event \<Rightarrow> bool" where
  "publish_event subject payload ev = (case ev of
     EvPublish _ s p _ \<Rightarrow> s = subject \<and> p = payload
   | EvFlush _ _ _ \<Rightarrow> True
   | EvIncPublish _ s _ \<Rightarrow> s = subject
   | EvObservePublish _ s \<Rightarrow> s = subject
   | EvLog _ _ \<Rightarrow> True
   | _ \<Rightarrow> False)"

definition publish_failure :: "string \<Rightarrow> gerr \<Rightarrow> bool" where
  "publish_failure op err = (case err of
     RtError c op' _ _ _ _ _ \<Rightarrow> op' = op \<and> c \<in> {RtValidation, RtDisconnected, RtPublishFailed}
   | _ \<Rightarrow> False)"

definition publish_report :: "string \<Rightarrow> string \<Rightarrow> bytes \<Rightarrow> nat \<Rightarrow> gerr option \<Rightarrow> event list \<Rightarrow> bool" where
  "publish_report op subject payload n r evs \<longleftrightarrow>
     (\<forall>ev\<in>set evs. publish_event subject payload ev) \<and>
     length (filter is_publish evs) \<le> n \<and>
     length (filter sent_ok evs) \<le> 1 \<and>
     (r = None \<longleftrightarrow> (\<exists>nc fctx. EvPublish nc subject payload None \<in> set evs \<and> EvFlush nc fctx None \<in> set evs)) \<and>
     (r \<noteq> None \<longrightarrow> (\<forall>nc fctx. EvFlush nc fctx None \<notin> set evs)) \<and>
     (\<forall>err. r = Some err \<longrightarrow> publish_failure op err)"

lemma publish_report_fail:
  assumes "publish_report op subject payload 1 (Some err) evs" and "publish_failure op err'"
  shows "publish_report op subject payload (Suc n) (Some err')
    (evs @ (if l then [EvLog LogWarn m] else []))"
  using assms by (auto simp: publish_report_def publish_event_def is_publish_def sent_ok_def)

lemma publish_report_retry:
  assumes "publish_report op subject payload 1 (Some err) evs" and "filter sent_ok evs = []"
    and "publish_report op subject payload n r evs'"
  shows "publish_report op subject payload (Suc n) r
    ((evs @ (if l then [EvLog LogWarn m] else [])) @ evs')"
  using assms by (auto simp: publish_report_def publish_event_def is_publish_def sent_ok_def)

section \<open>The contract with the connection provider\<close>

text \<open>
  Resolving a connection leaves no trace: it neither publishes nor touches the KV bucket.
\<close>

locale connection_provider =
  fixes connection :: "'e world \<Rightarrow> (gerr + conn) \<times> 'e world"
  assumes connection_silent: "w_trace (snd (connection w)) = w_trace w"
begin

lemma connection_trace: "connection w = (r, w') \<Longrightarrow> w_trace w' = w_trace w"
  using connection_silent [of w] by simp

text \<open>What one attempt adds to the trace, by outcome.\<close>

lemma publish_once_cases:
  assumes "pb_connection p = connection"
    and "publish_once X p ctx op kind subject payload w = (r, w')"
  obtains
    (unresolved) err where "adds w w' []"
      "r = Some (RtError RtDisconnected op subject [] ''connection not resolved'' True (Some err))"
  | (rejected) nc err where
      "adds w w' (EvPublish nc subject payload (Some err) #
         (if pb_metrics p then [EvIncPublish kind subject ''failure''] else []))"
      "r = Some (RtError RtPublishFailed op subject [] ''publish failed'' True (Some err))"
  | (unflushed) nc fctx err where
      "adds w w' (EvPublish nc subject payload None # EvFlush nc fctx (Some err) #
         (if pb_metrics p then [EvIncPublish kind subject ''failure''] else []))"
      "r = Some (RtError RtPublishFailed op subject [] ''flush failed'' False (Some err))"
  | (sent) nc fctx where
      "adds w w' [EvPublish nc subject payload None, EvFlush nc fctx None]" "r = None"
proof -
  obtain c w1 where c: "connection w = (c, w1)" by (cases "connection w")
  have w1: "w_trace w1 = w_trace w" using connection_trace [OF c] .
  show thesis
  proof (cases c)
    case (Inl err)
    with assms c w1 show thesis
      by (intro unresolved [of err]) (auto simp: publish_once_def adds_def)
  next
    case (Inr nc)
    obtain r1 w2 where r1: "perform (EvPublish nc subject payload) (x_publish X nc subject payload) w1 = (r1, w2)"
      by (cases "perform (EvPublish nc subject payload) (x_publish X nc subject payload) w1")
    note w2 = perform_trace [OF r1]
    show thesis
    proof (cases r1)
      case (Some err)
      with assms c Inr r1 w1 w2 show thesis
        by (intro rejected [of nc err]) (auto simp: publish_once_def adds_def)
    next
      case None
      let ?f = "publish_context (Some ctx) (pb_publish_timeout p)"
      obtain r2 w3 where r2: "perform (EvFlush nc ?f) (x_flush X nc ?f) w2 = (r2, w3)"
        by (cases "perform (EvFlush nc ?f) (x_flush X nc ?f) w2")
      note w3 = perform_trace [OF r2]
      show thesis
      proof (cases r2)
        case (Some err)
        with assms c Inr r1 None r2 w1 w2 w3 show thesis
          by (intro unflushed [of nc ?f err]) (auto simp: publish_once_def adds_def Let_def)
      next
        case None
        with assms c Inr r1 \<open>r1 = None\<close> r2 w1 w2 w3 show thesis
          by (intro sent [of nc ?f]) (auto simp: publish_once_def adds_def Let_def)
      qed
    qed
  qed
qed

lemma publish_once_report:
  assumes "pb_connection p = connection"
    and "publish_once X p ctx op kind subject payload w = (r, w')"
  obtains evs where "adds w w' evs" "publish_report op subject payload 1 r evs"
    "\<And>err. r = Some err \<Longrightarrow> \<not> not_retryable err \<Longrightarrow> filter sent_ok evs = []"
    "\<And>err. r = Some err \<Longrightarrow> publish_failure op err"
proof (use assms in \<open>cases rule: publish_once_cases\<close>)
  case (unresolved err)
  then show thesis
    by (intro that [of "[]"]) (auto simp: publish_report_def publish_failure_def)
next
  case (rejected nc err)
  then show thesis
    by (intro that) (auto simp: publish_report_def publish_failure_def publish_event_def
        is_publish_def sent_ok_def)
next
  case (unflushed nc fctx err)
  then show thesis
    by (intro that) (auto simp: publish_report_def publish_failure_def publish_event_def
        is_publish_def sent_ok_def not_retryable_def as_runtime.simps)
next
  case (sent nc fctx)
  then show thesis
    by (intro that) (auto simp: publish_report_def publish_event_def is_publish_def sent_ok_def)
qed

lemma publish_loop_report:
  assumes "pb_connection p = connection"
    and "publish_loop X p ctx op kind subject payload n prior w = (r, w')"
    and "0 < n \<or> prior \<noteq> None" and "\<And>err. prior = Some err \<Longrightarrow> publish_failure op err"
  shows "\<exists>evs. adds w w' evs \<and> publish_report op subject payload n r evs"
  using assms(2-)
proof (induction n arbitrary: prior w)
  case 0
  then show ?case by (auto intro!: exI [of _ "[]"] simp: publish_report_def)
next
  case (Suc n)
  obtain ce w1 where q1: "query (x_ctx_err X ctx) w = (ce, w1)" by fastforce
  note t1 = query_trace [OF q1]
  obtain r2 w2 where q2: "publish_once X p ctx op kind subject payload w1 = (r2, w2)" by fastforce
  from publish_once_report [OF assms(1) q2] obtain evs where
    evs: "adds w1 w2 evs" "publish_report op subject payload 1 r2 evs"
      "\<And>err. r2 = Some err \<Longrightarrow> \<not> not_retryable err \<Longrightarrow> filter sent_ok evs = []"
      "\<And>err. r2 = Some err \<Longrightarrow> publish_failure op err" by blast
  show ?case
  proof (cases ce)
    case (Some err)
    with Suc.prems q1 t1 show ?thesis
      by (intro exI [of _ "[]"]) (auto simp: adds_def publish_report_def publish_failure_def context_unusable_def)
  next
    case None
    note ok = this
    show ?thesis
    proof (cases r2)
      case None
      let ?m = "if pb_metrics p then [EvIncPublish kind subject ''success'', EvObservePublish kind subject] else []"
      have "adds w w' (evs @ ?m) \<and> r = None"
        using Suc.prems ok q1 t1 q2 None evs(1) by (auto simp: adds_def)
      moreover have "publish_report op subject payload (Suc n) None (evs @ ?m)"
        using evs(2) None by (auto simp: publish_report_def publish_event_def is_publish_def sent_ok_def)
      ultimately show ?thesis by blast
    next
      case (Some err)
      show ?thesis
      proof (cases "not_retryable err")
        case True
        with Suc.prems ok q1 t1 q2 Some evs show ?thesis
          by (intro exI [of _ evs]) (auto simp: adds_def publish_report_def)
      next
        case False
        let ?w3 = "emit_if (pb_logger p) (EvLog LogWarn ''publish attempt failed'') w2"
        let ?evs = "evs @ (if pb_logger p then [EvLog LogWarn ''publish attempt failed''] else [])"
        have quiet: "filter sent_ok evs = []" using evs(3) [OF Some False] .
        have w3: "adds w ?w3 ?evs" using evs(1) t1 by (auto simp: adds_def)
        have step: "publish_loop X p ctx op kind subject payload (Suc n) prior w =
          (if 0 < n then
             (let (ctx_done, w4) = query (x_wait X ctx (pb_backoff p)) ?w3 in
              if ctx_done then
                (let (cause, w5) = query (x_ctx_err X ctx) w4 in (Some (publish_aborted op subject cause), w5))
              else publish_loop X p ctx op kind subject payload n (Some err) w4)
           else publish_loop X p ctx op kind subject payload n (Some err) ?w3)"
          using q1 ok q2 Some False by (simp add: Let_def)
        have again: ?thesis
          if w4: "w_trace w4 = w_trace ?w3"
            and l: "publish_loop X p ctx op kind subject payload n (Some err) w4 = (r, w')" for w4
        proof -
          obtain evs' where e: "adds w4 w' evs'" "publish_report op subject payload n r evs'"
            using Suc.IH [OF l] evs(4) [OF Some] by auto
          have "adds w w' (?evs @ evs')" using w3 w4 e(1) by (simp add: adds_def)
          moreover have "publish_report op subject payload (Suc n) r (?evs @ evs')"
            using publish_report_retry [OF evs(2) [unfolded Some] quiet e(2)] by simp
          ultimately show ?thesis by blast
        qed
        show ?thesis
        proof (cases "0 < n")
          case False
          then show ?thesis using step Suc.prems again [of ?w3] by simp
        next
          case True
          obtain d w4 where q4: "query (x_wait X ctx (pb_backoff p)) ?w3 = (d, w4)" by fastforce
          obtain cause w5 where q5: "query (x_ctx_err X ctx) w4 = (cause, w5)" by fastforce
          show ?thesis
          proof (cases d)
            case True
            have "adds w w' ?evs \<and> r = Some (publish_aborted op subject cause)"
              using step Suc.prems \<open>0 < n\<close> q4 q5 True w3 query_trace [OF q4] query_trace [OF q5]
              by (simp add: adds_def)
            moreover have "publish_report op subject payload (Suc n) (Some (publish_aborted op subject cause)) ?evs"
              using publish_report_fail [OF evs(2) [unfolded Some]] by (simp add: publish_aborted_def publish_failure_def)
            ultimately show ?thesis by blast
          next
            case False
            then show ?thesis
              using step Suc.prems \<open>0 < n\<close> q4 again [OF query_trace [OF q4]] by simp
          qed
        qed
      qed
    qed
  qed
qed

lemma publish_reports:
  assumes "pb_connection p = connection"
    and "publish X p mctx op kind subject payload w = (r, w')"
  shows "\<exists>evs. adds w w' evs \<and>
    publish_report (publish_op op) subject payload (nat (max 1 (pb_attempts p))) r evs"
proof (cases "\<exists>ctx. mctx = Some ctx \<and> fst (query (x_ctx_err X ctx) w) = None \<and> \<not> blank subject \<and> payload \<noteq> []")
  case False
  then have "adds w w' [] \<and> (\<exists>err. r = Some err \<and> publish_failure (publish_op op) err)"
    using assms(2)
    by (auto simp: publish_def Let_def publish_failure_def context_unusable_def adds_def
        split: option.splits prod.splits if_splits dest: query_trace)
  then show ?thesis by (intro exI [of _ "[]"]) (auto simp: publish_report_def)
next
  case True
  then obtain ctx where c: "mctx = Some ctx" "fst (query (x_ctx_err X ctx) w) = None"
    "\<not> blank subject" "payload \<noteq> []" by blast
  obtain w1 where q: "query (x_ctx_err X ctx) w = (None, w1)" using c(2) by (metis prod.collapse)
  have n: "nat (if pb_attempts p \<le> 0 then 1 else pb_attempts p) = nat (max 1 (pb_attempts p))" by auto
  have "publish_loop X p ctx (publish_op op) kind subject payload (nat (max 1 (pb_attempts p))) None w1 = (r, w')"
    using assms(2) c q by (simp add: publish_def Let_def n)
  moreover have "0 < max 1 (pb_attempts p)" by simp
  ultimately obtain evs where
    "adds w1 w' evs" "publish_report (publish_op op) subject payload (nat (max 1 (pb_attempts p))) r evs"
    using publish_loop_report [OF assms(1)] by fastforce
  then show ?thesis using query_trace [OF q] by (auto simp: adds_def)
qed

end

end
