(* ===== verification/Session.thy ===== *)
theory Session
  imports Session_Connect Transport
begin

text \<open>
  The session manager, \<^verbatim>\<open>internal/session\<close>: \<^verbatim>\<open>session.go\<close>, \<^verbatim>\<open>health.go\<close>, \<^verbatim>\<open>callbacks.go\<close>.
  The manager's fields are the record \<open>manager\<close>. Every stretch of code between two operations on
  the mutex is one definition here (\<open>start_begin\<close>, \<open>start_commit\<close>, \<open>start_defer\<close>, \<open>close_begin\<close>,
  \<open>close_finish\<close> and the callbacks): the whole operations are composed of them, and so are the
  interleavings of concurrent operations in the theory that follows.
\<close>

section \<open>State\<close>

text \<open>
  The hooks are present or absent; the functions behind \<open>OnReconnected\<close>, \<open>OnDisconnected\<close> and
  \<open>OnClosed\<close> are the client's and are composed there. \<open>m_channels\<close> counts the channels made so
  far and \<open>m_start_done\<close> is the identity of the one in \<^verbatim>\<open>m.startDone\<close>.
\<close>

record manager =
  m_cfg :: session_config
  m_effective :: session_config
  m_logger :: bool
  m_metrics :: bool
  m_error_sink :: error_sink
  m_on_reconnected :: bool
  m_on_disconnected :: bool
  m_on_closed :: bool
  m_nc :: "conn option"
  m_js :: "jetstream option"
  m_kv :: "kv_handle option"
  m_health :: health_snapshot
  m_starting :: bool
  m_start_done :: "nat option"
  m_closing :: bool
  m_close_requested :: bool
  m_channels :: nat

definition new_health :: health_snapshot where
  "new_health = \<lparr>hs_state = StateNew, hs_connected_url = [], hs_jetstream_ready = False,
     hs_kv_ready = False, hs_registered = 0, hs_active = 0, hs_last_error = []\<rparr>"

definition new_manager ::
  "nats_defaults \<Rightarrow> session_config \<Rightarrow> bool \<Rightarrow> bool \<Rightarrow> error_sink \<Rightarrow> gerr + manager" where
  "new_manager D cfg logger metrics sink =
     (case normalize_config D cfg of
        Inl err \<Rightarrow> Inl err
      | Inr eff \<Rightarrow> Inr \<lparr>m_cfg = cfg, m_effective = eff, m_logger = logger, m_metrics = metrics,
          m_error_sink = sink, m_on_reconnected = False, m_on_disconnected = False,
          m_on_closed = False, m_nc = None, m_js = None, m_kv = None, m_health = new_health,
          m_starting = False, m_start_done = None, m_closing = False,
          m_close_requested = False, m_channels = 0\<rparr>)"

definition desired_config_bucket :: "manager \<Rightarrow> string" where
  "desired_config_bucket m = kc_bucket (sc_kv (m_effective m))"

definition desired_config_key_pattern :: "manager \<Rightarrow> string" where
  "desired_config_key_pattern m = kc_key_pattern (sc_kv (m_effective m))"

definition kv_timeout :: "manager \<Rightarrow> duration" where
  "kv_timeout m = tc_kv (sc_timeouts (m_effective m))"

definition shutdown_timeout :: "manager \<Rightarrow> duration" where
  "shutdown_timeout m = tc_shutdown (sc_timeouts (m_effective m))"

definition subscribe_timeout :: "manager \<Rightarrow> duration" where
  "subscribe_timeout m = tc_subscribe (sc_timeouts (m_effective m))"

definition not_connected :: "string \<Rightarrow> gerr" where
  "not_connected op =
     RtError RtDisconnected op [] [] ''client runtime is not connected'' True None"

definition connection :: "'e ext \<Rightarrow> manager \<Rightarrow> 'e world \<Rightarrow> (gerr + conn) \<times> 'e world" where
  "connection X m w =
     (case m_nc m of
        None \<Rightarrow> (Inl (not_connected ''connection''), w)
      | Some nc \<Rightarrow>
          (let (st, w1) = query (x_status X nc) w in
           if st \<noteq> NatsConnected then (Inl (not_connected ''connection''), w1) else (Inr nc, w1)))"

definition key_value :: "'e ext \<Rightarrow> manager \<Rightarrow> 'e world \<Rightarrow> (gerr + kv_handle) \<times> 'e world" where
  "key_value X m w =
     (case m_nc m of
        None \<Rightarrow> (Inl (not_connected ''key_value''), w)
      | Some nc \<Rightarrow>
          (let (st, w1) = query (x_status X nc) w in
           if st \<noteq> NatsConnected then (Inl (not_connected ''key_value''), w1)
           else (case m_kv m of
                   None \<Rightarrow> (Inl (not_connected ''key_value''), w1)
                 | Some kv \<Rightarrow> (Inr kv, w1))))"

definition set_subscription_counts :: "nat \<Rightarrow> nat \<Rightarrow> manager \<Rightarrow> manager" where
  "set_subscription_counts registered active m =
     m\<lparr>m_health := (m_health m)\<lparr>hs_registered := registered, hs_active := active\<rparr>\<rparr>"

definition set_handlers :: "manager \<Rightarrow> manager" where
  "set_handlers m = m\<lparr>m_on_reconnected := True, m_on_disconnected := True, m_on_closed := True\<rparr>"

section \<open>Health\<close>

definition set_state :: "connection_state \<Rightarrow> manager \<Rightarrow> 'e world \<Rightarrow> manager \<times> 'e world" where
  "set_state st m w = (m\<lparr>m_health := (m_health m)\<lparr>hs_state := st\<rparr>\<rparr>,
     emit_if (m_metrics m) (EvSetState (connection_state_text st)) w)"

definition show_error :: "gerr option \<Rightarrow> health_snapshot \<Rightarrow> health_snapshot" where
  "show_error err h = (case err of None \<Rightarrow> h | Some e \<Rightarrow> h\<lparr>hs_last_error := error_text e\<rparr>)"

definition set_connected ::
  "string \<Rightarrow> bool \<Rightarrow> bool \<Rightarrow> manager \<Rightarrow> 'e world \<Rightarrow> manager \<times> 'e world" where
  "set_connected url js kv m w =
     (let m1 = m\<lparr>m_health := (m_health m)\<lparr>hs_connected_url := url, hs_jetstream_ready := js,
                 hs_kv_ready := kv, hs_last_error := []\<rparr>\<rparr>
      in if js \<and> kv then set_state StateConnected m1 w else set_state StateDegraded m1 w)"

definition set_reconnecting :: "gerr option \<Rightarrow> manager \<Rightarrow> 'e world \<Rightarrow> manager \<times> 'e world" where
  "set_reconnecting err m w =
     set_state StateReconnecting (m\<lparr>m_health := show_error err
       ((m_health m)\<lparr>hs_jetstream_ready := False, hs_kv_ready := False\<rparr>)\<rparr>) w"

definition set_degraded :: "gerr option \<Rightarrow> manager \<Rightarrow> 'e world \<Rightarrow> manager \<times> 'e world" where
  "set_degraded err m w =
     set_state StateDegraded (m\<lparr>m_health := show_error err
       ((m_health m)\<lparr>hs_jetstream_ready := False, hs_kv_ready := False\<rparr>)\<rparr>) w"

definition set_closed :: "gerr option \<Rightarrow> manager \<Rightarrow> 'e world \<Rightarrow> manager \<times> 'e world" where
  "set_closed err m w =
     set_state StateClosed (m\<lparr>m_health := show_error err
       ((m_health m)\<lparr>hs_connected_url := [], hs_jetstream_ready := False, hs_kv_ready := False\<rparr>)\<rparr>) w"

section \<open>Start\<close>

datatype start_decision = StartRefused gerr | StartAlready | StartProceed nat

definition start_begin ::
  "'e ext \<Rightarrow> manager \<Rightarrow> 'e world \<Rightarrow> start_decision \<times> manager \<times> 'e world" where
  "start_begin X m w =
     (if m_starting m
        then (StartRefused (RtError RtValidation ''start'' [] [] ''start already in progress'' False None), m, w)
      else if m_closing m
        then (StartRefused (RtError RtShutdown ''start'' [] [] ''close already in progress'' True None), m, w)
      else if nc_retry_on_failed_connect (sc_nats (m_effective m))
        then (StartRefused (RtError RtValidation ''start'' [] []
          ''nats.retry_on_failed_connect is not supported by synchronous start'' False None), m, w)
      else
        (let (live, w1) = (case m_nc m of
             None \<Rightarrow> (False, w)
           | Some nc \<Rightarrow> (let (st, w1) = query (x_status X nc) w in (st \<noteq> NatsClosed, w1)))
         in if live then (StartAlready, m, w1)
            else (let ch = m_channels m;
                      (m1, w2) = set_state StateConnecting
                        (m\<lparr>m_starting := True, m_start_done := Some ch, m_channels := Suc ch\<rparr>) w1
                  in (StartProceed ch, m1, w2))))"

definition start_fail :: "start_failure \<Rightarrow> manager \<Rightarrow> 'e world \<Rightarrow> manager \<times> 'e world" where
  "start_fail f m w =
     (let (m1, w1) = set_degraded (Some (sf_cause f)) m w
      in (m1, emit_if (sf_count f \<and> m_metrics m1) (EvIncConnect ''failure'') w1))"

definition start_commit ::
  "'e ext \<Rightarrow> conn \<Rightarrow> jetstream \<Rightarrow> kv_handle \<Rightarrow> manager \<Rightarrow> 'e world \<Rightarrow> gerr option \<times> manager \<times> 'e world" where
  "start_commit X nc js kv m w =
     (if m_close_requested m \<or> m_closing m
      then (let (m1, w1) = set_closed None (m\<lparr>m_close_requested := False, m_closing := False\<rparr>) w
            in (Some (RtError RtShutdown ''start'' [] [] ''start aborted because close was requested'' True None),
                m1, close_conn X nc w1))
      else (let (url, w1) = query (x_connected_url X nc) w;
                (m1, w2) = set_connected url True True
                  (m\<lparr>m_nc := Some nc, m_js := Some js, m_kv := Some kv\<rparr>) w1
            in (None, m1, emit_if (m_metrics m1) (EvIncConnect ''success'') w2)))"

definition start_defer :: "nat \<Rightarrow> manager \<Rightarrow> 'e world \<Rightarrow> manager \<times> 'e world" where
  "start_defer ch m w =
     (let m1 = (if m_start_done m = Some ch then m\<lparr>m_start_done := None\<rparr> else m);
          m2 = m1\<lparr>m_starting := False\<rparr>
      in if m_close_requested m2 \<or> m_closing m2
         then set_closed None (m2\<lparr>m_close_requested := False, m_closing := False\<rparr>) w
         else (m2, w))"

definition mgr_start ::
  "'e ext \<Rightarrow> gctx option \<Rightarrow> manager \<Rightarrow> 'e world \<Rightarrow> gerr option \<times> manager \<times> 'e world" where
  "mgr_start X mctx m w =
     (let ctx = (case mctx of None \<Rightarrow> CtxBackground | Some c \<Rightarrow> c);
          (ce, w1) = query (x_ctx_err X ctx) w
      in case ce of
        Some err \<Rightarrow> (Some (RtError RtConnectionFailed ''start'' [] []
             ''start context is not usable'' True (Some err)), m, w1)
      | None \<Rightarrow>
     (let (d, m1, w2) = start_begin X m w1 in
      case d of
        StartRefused err \<Rightarrow> (Some err, m1, w2)
      | StartAlready \<Rightarrow> (None, m1, w2)
      | StartProceed ch \<Rightarrow>
     (let (s, w3) = start_setup X (m_effective m1) ctx w2;
          (r, m2, w4) = (case s of
             Inl f \<Rightarrow> (let (m', w') = start_fail f m1 w3 in (Some (sf_error f), m', w'))
           | Inr (nc, js, kv) \<Rightarrow> start_commit X nc js kv m1 w3);
          (m3, w5) = start_defer ch m2 w4
      in (r, m3, w5))))"

section \<open>Close\<close>

datatype close_decision = CloseNothing | CloseProceed "nat option" "conn option"

definition close_begin :: "manager \<Rightarrow> 'e world \<Rightarrow> close_decision \<times> manager \<times> 'e world" where
  "close_begin m w =
     (if m_closing m then (CloseNothing, m, w)
      else if m_start_done m = None \<and> m_nc m = None
        then (let (m1, w1) = set_closed None (m\<lparr>m_close_requested := False, m_closing := False\<rparr>) w
              in (CloseNothing, m1, w1))
      else (let (m1, w1) = set_state StateDraining (m\<lparr>m_closing := True, m_close_requested := True\<rparr>) w
            in (CloseProceed (m_start_done m) (m_nc m), m1, w1)))"

definition close_abandon :: "gerr option \<Rightarrow> manager \<Rightarrow> 'e world \<Rightarrow> gerr option \<times> manager \<times> 'e world" where
  "close_abandon cause m w =
     (let (m1, w1) = set_degraded cause m w
      in (Some (RtError RtShutdown ''close_wait_start'' [] []
            ''close canceled while waiting for startup to finish'' True cause), m1, w1))"

definition close_drain ::
  "'e ext \<Rightarrow> session_config \<Rightarrow> gctx \<Rightarrow> conn option \<Rightarrow> 'e world \<Rightarrow> gerr option \<times> 'e world" where
  "close_drain X cfg ctx nc w =
     (let (err, w1) = drain_connection X ctx nc (tc_shutdown (sc_timeouts cfg)) w
      in case (err, nc) of
           (Some e, Some c) \<Rightarrow> (err, close_conn X c w1)
         | _ \<Rightarrow> (err, w1))"

definition close_finish :: "gerr option \<Rightarrow> manager \<Rightarrow> 'e world \<Rightarrow> gerr option \<times> manager \<times> 'e world" where
  "close_finish drain_err m w =
     (let (m1, w1) = set_closed drain_err (m\<lparr>m_nc := None, m_js := None, m_kv := None,
            m_close_requested := False, m_closing := False\<rparr>) w
      in (case drain_err of
            None \<Rightarrow> None
          | Some e \<Rightarrow> Some (RtError RtShutdown ''close'' [] []
              ''failed to drain NATS connection cleanly'' True (Some e)), m1, w1))"

text \<open>
  While \<^verbatim>\<open>Close\<close> waits for a start in progress, other goroutines run: \<open>others ch\<close> is what they
  do until the channel \<open>ch\<close> is closed, or \<open>None\<close> when the context of the call ends first.
\<close>

definition mgr_close ::
  "'e ext \<Rightarrow> (nat \<Rightarrow> manager \<Rightarrow> 'e world \<Rightarrow> (manager \<times> 'e world) option) \<Rightarrow> gctx option \<Rightarrow>
   manager \<Rightarrow> 'e world \<Rightarrow> gerr option \<times> manager \<times> 'e world" where
  "mgr_close X others mctx m w =
     (let ctx = (case mctx of None \<Rightarrow> CtxBackground | Some c \<Rightarrow> c);
          (d, m1, w1) = close_begin m w
      in case d of
        CloseNothing \<Rightarrow> (None, m1, w1)
      | CloseProceed None nc \<Rightarrow>
          (let (err, w2) = close_drain X (m_effective m1) ctx nc w1 in close_finish err m1 w2)
      | CloseProceed (Some ch) _ \<Rightarrow>
          (case others ch m1 w1 of
             None \<Rightarrow> (let (cause, w2) = query (x_ctx_err X ctx) w1 in close_abandon cause m1 w2)
           | Some (m2, w2) \<Rightarrow>
               (let (err, w3) = close_drain X (m_effective m2) ctx (m_nc m2) w2
                in close_finish err m2 w3)))"

section \<open>Callbacks of the NATS client\<close>

definition on_async_error :: "manager \<Rightarrow> gerr option \<Rightarrow> 'e world \<Rightarrow> 'e world" where
  "on_async_error m err w =
     (case err of
        None \<Rightarrow> w
      | Some e \<Rightarrow> sink_error (m_error_sink m) e
          (emit_if (m_logger m) (EvLog LogError ''session asynchronous error'') w))"

text \<open>
  The locked part of \<^verbatim>\<open>onDisconnect\<close> says whether the hook is to be called; the error is
  reported afterwards, from a goroutine of its own.
\<close>

definition on_disconnect :: "gerr option \<Rightarrow> manager \<Rightarrow> 'e world \<Rightarrow> bool \<times> manager \<times> 'e world" where
  "on_disconnect err m w =
     (if m_closing m then (False, m, w)
      else (let (m1, w1) = set_reconnecting err m w in (m_on_disconnected m1, m1, w1)))"

definition disconnect_report :: "gerr option \<Rightarrow> manager \<Rightarrow> 'e world \<Rightarrow> 'e world" where
  "disconnect_report err m w =
     (case err of
        None \<Rightarrow> w
      | Some e \<Rightarrow> on_async_error m (Some (RtError RtDisconnected ''session_disconnect'' [] []
          ''NATS session disconnected'' True (Some e))) w)"

definition on_closed :: "manager \<Rightarrow> 'e world \<Rightarrow> bool \<times> manager \<times> 'e world" where
  "on_closed m w = (let (m1, w1) = set_closed None m w in (m_on_closed m1, m1, w1))"

text \<open>\<^verbatim>\<open>onReconnect\<close> starts the rebind in a goroutine unless the manager is closing.\<close>

definition on_reconnect :: "manager \<Rightarrow> bool" where
  "on_reconnect m \<longleftrightarrow> \<not> m_closing m"

definition rebind_setup ::
  "'e ext \<Rightarrow> session_config \<Rightarrow> conn \<Rightarrow> 'e world \<Rightarrow>
   ((gerr \<times> gerr) + jetstream \<times> kv_handle) \<times> 'e world" where
  "rebind_setup X cfg nc w =
     (let ctx = CtxTimeout CtxBackground (tc_kv (sc_timeouts cfg));
          (j, w1) = new_jetstream X cfg nc w
      in case j of
        Inl err \<Rightarrow> (Inl (err, RtError RtJetStreamFailed ''reconnect_jetstream'' [] []
             ''failed to rebuild JetStream handle after reconnect'' True (Some err)), w1)
      | Inr js \<Rightarrow>
          (let (k, w2) = bind_or_create_kv X cfg ctx js w1 in
           case k of
             Inl err \<Rightarrow> (Inl (err, RtError RtJetStreamFailed ''reconnect_kv'' [] []
                  ''failed to rebind KV bucket after reconnect'' True (Some err)), w2)
           | Inr kv \<Rightarrow> (Inr (js, kv), w2)))"

definition rebind_commit ::
  "'e ext \<Rightarrow> conn \<Rightarrow> jetstream \<Rightarrow> kv_handle \<Rightarrow> manager \<Rightarrow> 'e world \<Rightarrow> bool \<times> manager \<times> 'e world" where
  "rebind_commit X nc js kv m w =
     (if m_closing m then (False, m, w)
      else if m_nc m \<noteq> Some nc then (False, m, w)
      else (let (url, w1) = query (x_connected_url X nc) w;
                (m1, w2) = set_connected url True True (m\<lparr>m_js := Some js, m_kv := Some kv\<rparr>) w1
            in (m_on_reconnected m1, m1, w2)))"

definition rebind_after_reconnect ::
  "'e ext \<Rightarrow> conn \<Rightarrow> manager \<Rightarrow> 'e world \<Rightarrow> bool \<times> manager \<times> 'e world" where
  "rebind_after_reconnect X nc m w =
     (let (s, w1) = rebind_setup X (m_effective m) nc w in
      case s of
        Inl (cause, err) \<Rightarrow>
          (let (m1, w2) = set_degraded (Some cause) m w1
           in (False, m1, on_async_error m1 (Some err) w2))
      | Inr (js, kv) \<Rightarrow> rebind_commit X nc js kv m w1)"

section \<open>The invariant\<close>

text \<open>
  What every stretch of locked code keeps: the three handles are set and cleared together; the
  two readiness flags agree and are down in every state but connected and the two transient ones
  that a live session can be in; a connected session has its handles and shows no error; and the
  start flag and its channel go together, the channel being one that was made.
\<close>

definition health_ok ::
  "connection_state \<Rightarrow> string \<Rightarrow> bool \<Rightarrow> bool \<Rightarrow> string \<Rightarrow> bool" where
  "health_ok st url js kv err \<longleftrightarrow> js = kv \<and>
     (kv \<longrightarrow> st \<in> {StateConnected, StateDraining, StateConnecting}) \<and>
     (st = StateConnected \<longrightarrow> kv \<and> err = []) \<and> (st = StateClosed \<longrightarrow> url = [])"

definition handles_ok :: "conn option \<Rightarrow> jetstream option \<Rightarrow> kv_handle option \<Rightarrow> bool" where
  "handles_ok nc js kv \<longleftrightarrow> (js = None \<longleftrightarrow> nc = None) \<and> (kv = None \<longleftrightarrow> nc = None)"

definition live_ok :: "connection_state \<Rightarrow> conn option \<Rightarrow> bool" where
  "live_ok st nc \<longleftrightarrow> (st = StateConnected \<longrightarrow> nc \<noteq> None)"

definition flags_ok :: "bool \<Rightarrow> nat option \<Rightarrow> nat \<Rightarrow> bool" where
  "flags_ok starting done channels \<longleftrightarrow>
     (starting \<longleftrightarrow> done \<noteq> None) \<and> (case done of None \<Rightarrow> True | Some ch \<Rightarrow> ch < channels)"

definition mgr_ok :: "manager \<Rightarrow> bool" where
  "mgr_ok m \<longleftrightarrow>
     health_ok (hs_state (m_health m)) (hs_connected_url (m_health m)) (hs_jetstream_ready (m_health m))
       (hs_kv_ready (m_health m)) (hs_last_error (m_health m)) \<and>
     handles_ok (m_nc m) (m_js m) (m_kv m) \<and> live_ok (hs_state (m_health m)) (m_nc m) \<and>
     flags_ok (m_starting m) (m_start_done m) (m_channels m)"

lemmas health_defs = set_state_def set_connected_def set_reconnecting_def set_degraded_def
  set_closed_def

lemma health_ok_simps [simp]:
  "health_ok StateDegraded url False False err" "health_ok StateReconnecting url False False err"
  "health_ok StateClosed [] False False err" "health_ok StateConnected url True True []"
  "health_ok StateNew url False False err"
  "health_ok st url js kv err \<Longrightarrow> health_ok StateConnecting url js kv err"
  "health_ok st url js kv err \<Longrightarrow> health_ok StateDraining url js kv err"
  by (auto simp: health_ok_def)

lemma handles_ok_simps [simp]: "handles_ok None None None" "handles_ok (Some nc) (Some js) (Some kv)"
  by (simp_all add: handles_ok_def)

lemma handles_ok_rebind: "handles_ok nc js kv \<Longrightarrow> nc \<noteq> None \<Longrightarrow> handles_ok nc (Some js') (Some kv')"
  by (simp add: handles_ok_def)

lemma live_ok_simps [simp]: "live_ok st (Some nc)" "st \<noteq> StateConnected \<Longrightarrow> live_ok st mnc"
  by (simp_all add: live_ok_def)

lemma flags_ok_simps [simp]:
  "flags_ok False None n" "flags_ok True (Some n) (Suc n)"
  by (simp_all add: flags_ok_def)

lemma show_error_simps [simp]:
  "hs_state (show_error e h) = hs_state h" "hs_connected_url (show_error e h) = hs_connected_url h"
  "hs_jetstream_ready (show_error e h) = hs_jetstream_ready h" "hs_kv_ready (show_error e h) = hs_kv_ready h"
  by (simp_all add: show_error_def split: option.splits)

lemma show_error_None [simp]: "show_error None h = h"
  by (simp add: show_error_def)

text \<open>Every change of state keeps the invariant, whatever state it starts from.\<close>

lemma set_health_ok:
  assumes "mgr_ok m"
  shows "set_degraded e m w = (m', w') \<Longrightarrow> mgr_ok m'"
    and "set_reconnecting e m w = (m', w') \<Longrightarrow> mgr_ok m'"
    and "set_closed e m w = (m', w') \<Longrightarrow> mgr_ok m'"
    and "set_state StateConnecting m w = (m', w') \<Longrightarrow> mgr_ok m'"
    and "set_state StateDraining m w = (m', w') \<Longrightarrow> mgr_ok m'"
  using assms by (auto simp: health_defs mgr_ok_def)

lemma set_connected_ok:
  assumes "handles_ok (m_nc m) (m_js m) (m_kv m)" and "m_nc m = Some nc"
    and "flags_ok (m_starting m) (m_start_done m) (m_channels m)"
    and "set_connected url True True m w = (m', w')"
  shows "mgr_ok m'"
  using assms by (auto simp: health_defs mgr_ok_def)

text \<open>Fields the invariant does not look at.\<close>

lemma mgr_ok_update [simp]:
  "mgr_ok (m\<lparr>m_closing := a\<rparr>) = mgr_ok m" "mgr_ok (m\<lparr>m_close_requested := b\<rparr>) = mgr_ok m"
  "mgr_ok (m\<lparr>m_on_reconnected := a\<rparr>) = mgr_ok m" "mgr_ok (m\<lparr>m_on_disconnected := a\<rparr>) = mgr_ok m"
  "mgr_ok (m\<lparr>m_on_closed := a\<rparr>) = mgr_ok m"
  by (simp_all add: mgr_ok_def)

lemma new_manager_ok: "new_manager D cfg l mt s = Inr m \<Longrightarrow> mgr_ok m \<and> hs_state (m_health m) = StateNew"
  by (auto simp: new_manager_def mgr_ok_def new_health_def split: sum.splits)

text \<open>Each locked stretch keeps the invariant.\<close>

lemma start_fail_ok: "mgr_ok m \<Longrightarrow> start_fail f m w = (m', w') \<Longrightarrow> mgr_ok m'"
  by (auto simp: start_fail_def split: prod.splits dest: set_health_ok)

lemma start_commit_ok:
  fixes w :: "'e world"
  assumes "mgr_ok m" and "start_commit X nc js kv m w = (r, m', w')"
  shows "mgr_ok m'"
proof (cases "m_close_requested m \<or> m_closing m")
  case True
  with assms show ?thesis
    by (auto simp: start_commit_def split: prod.splits dest!: set_health_ok(3) [rotated])
next
  case False
  with assms(2) obtain url and w1 w2 :: "'e world" where
    "set_connected url True True (m\<lparr>m_nc := Some nc, m_js := Some js, m_kv := Some kv\<rparr>) w1 = (m', w2)"
    by (auto simp: start_commit_def Let_def split: prod.splits)
  then show ?thesis
    by (rule set_connected_ok [rotated 3]) (use assms(1) in \<open>simp_all add: mgr_ok_def\<close>)
qed

lemma start_defer_ok:
  assumes "mgr_ok m" and "m_start_done m = Some ch" and "start_defer ch m w = (m', w')"
  shows "mgr_ok m'"
proof -
  have "mgr_ok (m\<lparr>m_start_done := None, m_starting := False\<rparr>)"
    using assms(1) by (simp add: mgr_ok_def)
  with assms(2,3) show ?thesis
    by (auto simp: start_defer_def Let_def split: if_splits dest!: set_health_ok(3) [rotated])
qed

lemma close_begin_ok: "mgr_ok m \<Longrightarrow> close_begin m w = (d, m', w') \<Longrightarrow> mgr_ok m'"
  by (auto simp: close_begin_def split: if_splits prod.splits dest!: set_health_ok(3,5) [rotated])

lemma close_abandon_ok: "mgr_ok m \<Longrightarrow> close_abandon c m w = (r, m', w') \<Longrightarrow> mgr_ok m'"
  by (auto simp: close_abandon_def split: prod.splits dest: set_health_ok(1))

lemma close_finish_ok:
  assumes "mgr_ok m" and "close_finish e m w = (r, m', w')"
  shows "mgr_ok m'"
  using assms by (auto simp: close_finish_def set_closed_def set_state_def mgr_ok_def)

lemma on_disconnect_ok: "mgr_ok m \<Longrightarrow> on_disconnect e m w = (b, m', w') \<Longrightarrow> mgr_ok m'"
  by (auto simp: on_disconnect_def split: if_splits prod.splits dest: set_health_ok(2))

lemma on_closed_ok: "mgr_ok m \<Longrightarrow> on_closed m w = (b, m', w') \<Longrightarrow> mgr_ok m'"
  by (auto simp: on_closed_def split: prod.splits dest: set_health_ok(3))

lemma rebind_commit_ok:
  fixes w :: "'e world"
  assumes "mgr_ok m" and "rebind_commit X nc js kv m w = (b, m', w')"
  shows "mgr_ok m'"
proof (cases "m_closing m \<or> m_nc m \<noteq> Some nc")
  case True
  with assms show ?thesis by (simp add: rebind_commit_def split: if_splits)
next
  case False
  with assms(2) obtain url and w1 :: "'e world" where
    "set_connected url True True (m\<lparr>m_js := Some js, m_kv := Some kv\<rparr>) w1 = (m', w')"
    by (auto simp: rebind_commit_def Let_def split: prod.splits)
  then show ?thesis
    by (rule set_connected_ok [rotated 3]) (use assms(1) False in \<open>simp_all add: mgr_ok_def\<close>)
qed

lemma set_subscription_counts_ok: "mgr_ok m \<Longrightarrow> mgr_ok (set_subscription_counts r a m)"
  by (simp add: set_subscription_counts_def mgr_ok_def)

lemma set_handlers_ok: "mgr_ok m \<Longrightarrow> mgr_ok (set_handlers m)"
  by (simp add: set_handlers_def)

lemma rebind_after_reconnect_ok:
  "mgr_ok m \<Longrightarrow> rebind_after_reconnect X nc m w = (b, m', w') \<Longrightarrow> mgr_ok m'"
  by (auto simp: rebind_after_reconnect_def split: prod.splits sum.splits
      dest: set_health_ok(1) rebind_commit_ok)

section \<open>What the operations do\<close>

lemma health_traces:
  "set_state st m w = (m', w') \<Longrightarrow> adds w w' (if m_metrics m then [EvSetState (connection_state_text st)] else [])"
  "set_degraded e m w = (m', w') \<Longrightarrow> adds w w' (if m_metrics m then [EvSetState ''degraded''] else [])"
  "set_closed e m w = (m', w') \<Longrightarrow> adds w w' (if m_metrics m then [EvSetState ''closed''] else [])"
  "set_connected u True True m w = (m', w') \<Longrightarrow> adds w w' (if m_metrics m then [EvSetState ''connected''] else [])"
  by (auto simp: adds_def health_defs Let_def)

text \<open>The start decision, and what it leaves unchanged.\<close>

lemma start_begin_cases:
  assumes "start_begin X m w = (d, m', w')"
  obtains
    (refused) err where "d = StartRefused err" "m' = m" "adds w w' []"
      "m_starting m \<or> m_closing m \<or> nc_retry_on_failed_connect (sc_nats (m_effective m))"
  | (already) nc where "d = StartAlready" "m' = m" "adds w w' []" "m_nc m = Some nc"
      "\<not> m_starting m" "\<not> m_closing m"
  | (proceed) "d = StartProceed (m_channels m)" "\<not> m_starting m" "\<not> m_closing m"
      "m' = m\<lparr>m_starting := True, m_start_done := Some (m_channels m), m_channels := Suc (m_channels m),
         m_health := (m_health m)\<lparr>hs_state := StateConnecting\<rparr>\<rparr>"
      "adds w w' (if m_metrics m then [EvSetState ''connecting''] else [])"
proof (cases "m_starting m \<or> m_closing m \<or> nc_retry_on_failed_connect (sc_nats (m_effective m))")
  case True
  with assms obtain err where "d = StartRefused err \<and> m' = m \<and> w' = w"
    by (auto simp: start_begin_def split: if_splits)
  with True show thesis by (intro refused [of err]) simp_all
next
  case False
  let ?probe = "case m_nc m of None \<Rightarrow> (False, w)
    | Some nc \<Rightarrow> (let (st, w1) = query (x_status X nc) w in (st \<noteq> NatsClosed, w1))"
  obtain live w1 where p: "?probe = (live, w1)" by fastforce
  then have t: "w_trace w1 = w_trace w" by (auto split: option.splits prod.splits dest: query_trace)
  show thesis
  proof (cases live)
    case True
    with p obtain nc where "m_nc m = Some nc" by (cases "m_nc m") auto
    with assms False p True t show thesis
      by (intro already) (auto simp: start_begin_def adds_def)
  next
    case notlive: False
    with assms False p t show thesis
      by (intro proceed) (auto simp: start_begin_def Let_def set_state_def adds_def)
  qed
qed

lemma start_begin_ok:
  assumes "mgr_ok m" and "start_begin X m w = (d, m', w')"
  shows "mgr_ok m'"
  using assms(2) by (cases rule: start_begin_cases) (use assms(1) in \<open>auto simp: mgr_ok_def\<close>)

lemma start_defer_quiet:
  assumes "start_defer ch m w = (m', w')" and "\<not> m_closing m" and "\<not> m_close_requested m"
    and "m_start_done m = Some ch"
  shows "m' = m\<lparr>m_start_done := None, m_starting := False\<rparr> \<and> w' = w"
  using assms by (auto simp: start_defer_def Let_def)

lemma start_commit_quiet:
  assumes "start_commit X nc js kv m w = (r, m', w')" and "\<not> m_closing m" and "\<not> m_close_requested m"
  obtains url where "r = None"
    "m' = m\<lparr>m_nc := Some nc, m_js := Some js, m_kv := Some kv, m_health := (m_health m)
       \<lparr>hs_connected_url := url, hs_jetstream_ready := True, hs_kv_ready := True,
        hs_last_error := [], hs_state := StateConnected\<rparr>\<rparr>"
    "adds w w' (if m_metrics m then [EvSetState ''connected'', EvIncConnect ''success''] else [])"
proof -
  obtain url w1 where u: "query (x_connected_url X nc) w = (url, w1)" by fastforce
  with assms query_trace [OF u] show thesis
    by (intro that [of url]) (auto simp: start_commit_def Let_def health_defs adds_def)
qed

lemma start_fail_effect:
  assumes "start_fail f m w = (m', w')"
  shows "m_nc m' = m_nc m" "m_starting m' = m_starting m" "m_start_done m' = m_start_done m"
    "m_closing m' = m_closing m" "m_close_requested m' = m_close_requested m"
    "hs_state (m_health m') = StateDegraded"
    "\<exists>evs. adds w w' evs \<and> opened evs = [] \<and> released evs = []"
proof -
  show "\<exists>evs. adds w w' evs \<and> opened evs = [] \<and> released evs = []"
    using assms
    by (intro exI [of _ "(if m_metrics m then [EvSetState ''degraded''] else []) @
          (if sf_count f \<and> m_metrics m then [EvIncConnect ''failure''] else [])"])
      (auto simp: start_fail_def health_defs adds_def)
qed (use assms in \<open>auto simp: start_fail_def health_defs\<close>)

lemma mgr_start_cases:
  assumes "mgr_start X mctx m w = (r, m', w')" and "\<not> m_close_requested m"
  obtains
    (untouched) "m' = m" "adds w w' []" "r = None \<Longrightarrow> m_nc m \<noteq> None \<and> \<not> m_starting m"
  | (failed) err evs where "r = Some err" "adds w w' evs" "released evs = opened evs"
      "m_nc m' = m_nc m" "\<not> m_starting m'" "m_start_done m' = None" "hs_state (m_health m') = StateDegraded"
      "\<not> m_starting m"
  | (connected) nc js kv evs where "r = None" "adds w w' evs" "opened evs = [nc]" "released evs = []"
      "m_nc m' = Some nc" "m_js m' = Some js" "m_kv m' = Some kv" "\<not> m_starting m'"
      "m_start_done m' = None" "hs_state (m_health m') = StateConnected" "\<not> m_starting m"
proof -
  define ctx where "ctx = (case mctx of None \<Rightarrow> CtxBackground | Some c \<Rightarrow> c)"
  obtain ce w1 where ce: "query (x_ctx_err X ctx) w = (ce, w1)" by fastforce
  note t1 = query_trace [OF ce]
  obtain d m1 w2 where b: "start_begin X m w1 = (d, m1, w2)" using prod_cases3 by blast
  show thesis
  proof (cases ce)
    case (Some err)
    then show thesis using assms(1) ce t1
      by (intro untouched) (auto simp: mgr_start_def ctx_def [symmetric] Let_def adds_def)
  next
    case ok: None
    from b show thesis
    proof (cases rule: start_begin_cases)
      case (refused err)
      then show thesis using assms(1) ce ok b t1
        by (intro untouched) (auto simp: mgr_start_def ctx_def [symmetric] Let_def adds_def)
    next
      case (already nc)
      then show thesis using assms(1) ce ok b t1
        by (intro untouched) (auto simp: mgr_start_def ctx_def [symmetric] Let_def adds_def)
    next
      case proceed
      let ?ch = "m_channels m"
      have flags: "\<not> m_closing m1" "\<not> m_close_requested m1" "m_start_done m1 = Some ?ch" "m_nc m1 = m_nc m"
        using proceed assms(2) by simp_all
      obtain e1 where e1: "adds w w2 e1" "opened e1 = []" "released e1 = []"
        using proceed(5) t1 by (simp add: adds_def split: if_splits)
      obtain s w3 where s: "start_setup X (m_effective m1) ctx w2 = (s, w3)" by fastforce
      show thesis
      proof (cases s)
        case (Inl f)
        with s obtain e2 where e2: "adds w2 w3 e2" "released e2 = opened e2"
          by (cases rule: start_setup_cases) auto
        obtain m2 w4 where f: "start_fail f m1 w3 = (m2, w4)" by fastforce
        note eff = start_fail_effect [OF f]
        from eff(7) obtain e3 where e3: "adds w3 w4 e3" "opened e3 = []" "released e3 = []" by blast
        obtain m3 w5 where df: "start_defer ?ch m2 w4 = (m3, w5)" by fastforce
        have q: "m3 = m2\<lparr>m_start_done := None, m_starting := False\<rparr>" "w5 = w4"
          using start_defer_quiet [OF df] eff flags by simp_all
        have res: "r = Some (sf_error f)" "m' = m3" "w' = w5"
          using assms(1) ce ok b proceed(1) s Inl f df
          by (simp_all add: mgr_start_def ctx_def [symmetric] Let_def)
        show thesis
          by (rule failed [of "sf_error f" "e1 @ e2 @ e3"])
            (use res q e1 e2 e3 eff flags proceed(2) in \<open>simp_all add: adds_def\<close>)
      next
        case (Inr h)
        with s obtain nc js kv e2 where h: "s = Inr (nc, js, kv)"
          and e2: "adds w2 w3 e2" "opened e2 = [nc]" "released e2 = []"
          by (cases rule: start_setup_cases) auto
        obtain r2 m2 w4 where c: "start_commit X nc js kv m1 w3 = (r2, m2, w4)" using prod_cases3 by blast
        from start_commit_quiet [OF c flags(1,2)] obtain url where eff: "r2 = None"
          "m2 = m1\<lparr>m_nc := Some nc, m_js := Some js, m_kv := Some kv, m_health := (m_health m1)
             \<lparr>hs_connected_url := url, hs_jetstream_ready := True, hs_kv_ready := True,
              hs_last_error := [], hs_state := StateConnected\<rparr>\<rparr>"
          "adds w3 w4 (if m_metrics m1 then [EvSetState ''connected'', EvIncConnect ''success''] else [])" .
        from eff(3) obtain e3 where e3: "adds w3 w4 e3" "opened e3 = []" "released e3 = []"
          by (cases "m_metrics m1") auto
        obtain m3 w5 where df: "start_defer ?ch m2 w4 = (m3, w5)" by fastforce
        have q: "m3 = m2\<lparr>m_start_done := None, m_starting := False\<rparr>" "w5 = w4"
          using start_defer_quiet [OF df] eff(2) flags by simp_all
        have res: "r = None" "m' = m3" "w' = w5"
          using assms(1) ce ok b proceed(1) s h c eff(1) df
          by (simp_all add: mgr_start_def ctx_def [symmetric] Let_def)
        show thesis
          by (rule connected [of "e1 @ e2 @ e3" nc js kv])
            (use res q e1 e2 e3 eff(2) proceed(2) in \<open>simp_all add: adds_def\<close>)
      qed
    qed
  qed
qed

lemma close_drain_cases:
  assumes "close_drain X cfg ctx nc w = (r, w')"
  obtains (idle) "nc = None" "r = None" "adds w w' []"
  | (drained) c where "nc = Some c" "r = None" "adds w w' [EvDrain c None]"
  | (forced) c e where "nc = Some c" "r = Some e" "adds w w' [EvDrain c (Some e), EvCloseConn c]"
proof -
  obtain err w1 where d: "drain_connection X ctx nc (tc_shutdown (sc_timeouts cfg)) w = (err, w1)" by fastforce
  from d show thesis
  proof (cases rule: drain_cases)
    case 1
    with assms d have "r = None" "w' = w1" by (simp_all add: close_drain_def)
    with 1 show thesis by (intro idle) simp_all
  next
    case (2 c)
    show thesis
    proof (cases err)
      case None
      with 2 assms d show thesis by (intro drained [of c]) (auto simp: close_drain_def)
    next
      case (Some e)
      with 2 assms d show thesis by (intro forced [of c e]) (auto simp: close_drain_def adds_def)
    qed
  qed
qed

lemma close_finish_effect:
  assumes "close_finish e m w = (r, m', w')"
  shows "m' = m\<lparr>m_nc := None, m_js := None, m_kv := None, m_close_requested := False, m_closing := False,
      m_health := show_error e ((m_health m)\<lparr>hs_connected_url := [], hs_jetstream_ready := False,
        hs_kv_ready := False, hs_state := StateClosed\<rparr>)\<rparr>"
    and "r = None \<longleftrightarrow> e = None"
    and "adds w w' (if m_metrics m then [EvSetState ''closed''] else [])"
  using assms by (auto simp: close_finish_def set_closed_def set_state_def show_error_def adds_def
      split: option.splits)

lemma mgr_close_cases:
  assumes "mgr_close X others mctx m w = (r, m', w')" and "m_start_done m = None" and "\<not> m_closing m"
  obtains (closed) evs where "adds w w' evs" "opened evs = []"
    "released evs = (case m_nc m of None \<Rightarrow> [] | Some nc \<Rightarrow> [nc])"
    "m_nc m' = None" "m_nc m \<noteq> None \<Longrightarrow> m_js m' = None \<and> m_kv m' = None"
    "m_nc m = None \<Longrightarrow> m_js m' = m_js m \<and> m_kv m' = m_kv m"
    "\<not> m_closing m'" "\<not> m_close_requested m'"
    "hs_state (m_health m') = StateClosed" "r \<noteq> None \<Longrightarrow> \<exists>nc e. m_nc m = Some nc \<and> EvDrain nc (Some e) \<in> set evs"
    "m_starting m' = m_starting m" "m_start_done m' = None"
proof (cases "m_nc m")
  case None
  with assms have "set_closed None (m\<lparr>m_close_requested := False, m_closing := False\<rparr>) w = (m', w')"
    and "r = None"
    by (auto simp: mgr_close_def close_begin_def Let_def split: prod.splits)
  moreover from this(1) obtain evs where
    "adds w w' evs" "opened evs = []" "released evs = []"
    using health_traces(3) by (cases "m_metrics m") fastforce+
  ultimately show thesis using None assms(2)
    by (intro closed [of evs]) (auto simp: set_closed_def set_state_def)
next
  case (Some nc)
  define ctx where "ctx = (case mctx of None \<Rightarrow> CtxBackground | Some c \<Rightarrow> c)"
  obtain m1 w1 where d: "set_state StateDraining (m\<lparr>m_closing := True, m_close_requested := True\<rparr>) w = (m1, w1)"
    by fastforce
  obtain err w2 where dr: "close_drain X (m_effective m1) ctx (Some nc) w1 = (err, w2)" by fastforce
  have fin: "close_finish err m1 w2 = (r, m', w')"
    using assms d dr Some
    by (auto simp: mgr_close_def close_begin_def ctx_def [symmetric] Let_def split: prod.splits)
  note e = close_finish_effect [OF fin]
  obtain e1 where e1: "adds w w1 e1" "opened e1 = []" "released e1 = []"
    using health_traces(1) [OF d] by (cases "m_metrics m") auto
  obtain e3 where e3: "adds w2 w' e3" "opened e3 = []" "released e3 = []"
    using e(3) by (cases "m_metrics m1") auto
  have m1: "m_starting m1 = m_starting m" "m_start_done m1 = None"
    using d assms(2) by (auto simp: set_state_def)
  from dr obtain e2 where e2: "adds w1 w2 e2" "opened e2 = []" "released e2 = [nc]"
    "err \<noteq> None \<Longrightarrow> \<exists>x. EvDrain nc (Some x) \<in> set e2"
    by (cases rule: close_drain_cases) auto
  show thesis
    by (rule closed [of "e1 @ e2 @ e3"])
      (use e1 e2 e3 e m1 Some in \<open>auto simp: adds_def show_error_def split: option.splits\<close>)
qed

section \<open>The manager provides the connection\<close>

lemma connection_quiet: "w_trace (snd (connection X m w)) = w_trace w"
  by (auto simp: connection_def split: option.splits prod.splits dest: query_trace)

lemma connection_Inr:
  "connection X m w = (Inr nc, w') \<Longrightarrow> m_nc m = Some nc \<and> fst (x_status X nc (w_env w)) = NatsConnected"
  by (auto simp: connection_def query_def split: option.splits prod.splits if_splits)

lemma connection_Inl: "connection X m w = (Inl e, w') \<Longrightarrow> e = not_connected ''connection''"
  by (auto simp: connection_def split: option.splits prod.splits if_splits)

lemma key_value_trace: "key_value X m w = (r, w') \<Longrightarrow> w_trace w' = w_trace w"
  by (auto simp: key_value_def split: option.splits prod.splits if_splits dest: query_trace)

interpretation manager_connection: connection_provider "connection X m" for X :: "'e ext" and m
  by unfold_locales (rule connection_quiet)

section \<open>Properties\<close>

text \<open>A manager and its start in the simulated environment.\<close>

definition sample_manager :: manager where
  "sample_manager = \<lparr>m_cfg = sample_config, m_effective = sample_effective, m_logger = True,
     m_metrics = True, m_error_sink = Some public_error, m_on_reconnected = True,
     m_on_disconnected = True, m_on_closed = True, m_nc = None, m_js = None, m_kv = None,
     m_health = new_health, m_starting = False, m_start_done = None, m_closing = False,
     m_close_requested = False, m_channels = 0\<rparr>"

lemma sample_manager_new:
  "new_manager sample_defaults sample_config True True (Some public_error) =
     Inr (sample_manager\<lparr>m_on_reconnected := False, m_on_disconnected := False, m_on_closed := False\<rparr>)"
  by (simp add: new_manager_def sample_normalized sample_manager_def)

lemma sample_manager_ok: "mgr_ok sample_manager"
  by (simp add: sample_manager_def mgr_ok_def new_health_def)

definition sample_live :: manager where
  "sample_live = sample_manager\<lparr>m_nc := Some 7, m_js := Some 8, m_kv := Some 9\<rparr>"


lemma sample_options_plain:
  "build_nats_options X sample_effective t w = (Inr (base_options (sc_nats sample_effective) t @ [OptName ''vyos'']), w)"
  by (simp add: build_nats_options_def auth_options_def build_tls_config_def name_options_def
      sample_effective_def go_simps)

lemma sample_connects:
  "connect_nats X sample_effective CtxBackground w =
     (let servers = ''nats://a''; opts = base_options (sc_nats sample_effective) 5000000000 @ [OptName ''vyos'']
      in perform (EvConnect servers opts) (x_connect X servers opts CtxBackground) w)"
  by (simp add: connect_nats_def clamp_connect_timeout_def sample_options_plain)
    (simp add: sample_effective_def Let_def)

lemma sample_jetstream:
  "new_jetstream X sample_effective nc w = query (x_jetstream X nc JsPlain 5000000000) w"
  by (simp add: new_jetstream_def sample_effective_def go_simps)

lemma sample_setup:
  assumes e: "w_env w = w_env (sim_world [''jetstream''])"
  shows "\<exists>f w'. start_setup sim_ext sample_effective CtxBackground w = (Inl f, w')"
proof -
  obtain w1 where c: "connect_nats sim_ext sample_effective CtxBackground w = (Inr 1, w1)"
    and e1: "w_env w1 = (w_env w)\<lparr>sm_next := 2\<rparr>"
    by (simp add: sample_connects Let_def perform_def query_def sim_defs e)
  have q: "query (x_ctx_err sim_ext CtxBackground) w1 = (None, w1)"
    by (simp add: query_def sim_defs e e1)
  obtain err w2 where j: "new_jetstream sim_ext sample_effective 1 w1 = (Inl err, w2)"
    by (simp add: sample_jetstream query_def sim_defs e e1)
  show ?thesis by (simp add: start_setup_def c q j del: One_nat_def)
qed

lemma sample_begin:
  "start_begin sim_ext sample_manager w = (StartProceed 0,
     sample_manager\<lparr>m_starting := True, m_start_done := Some 0, m_channels := 1,
       m_health := new_health\<lparr>hs_state := StateConnecting\<rparr>\<rparr>, emit (EvSetState ''connecting'') w)"
  by (simp add: start_begin_def set_state_def emit_if_def sample_manager_def sample_effective_def)

lemma sample_start:
  "fst (mgr_start sim_ext None sample_manager (sim_world [''jetstream''])) \<noteq> None"
proof -
  let ?w = "emit (EvSetState ''connecting'') (sim_world [''jetstream''])"
  obtain f w' where s: "start_setup sim_ext sample_effective CtxBackground ?w = (Inl f, w')"
    using sample_setup [of ?w] by auto
  have q: "query (x_ctx_err sim_ext CtxBackground) (sim_world [''jetstream'']) = (None, sim_world [''jetstream''])"
    by (simp add: query_def sim_defs)
  have e: "m_effective sample_manager = sample_effective"
    by (simp add: sample_manager_def)
  show ?thesis by (simp add: mgr_start_def q sample_begin s e Let_def split: prod.split)
qed




text \<open>C12: publishing through the manager's connection: whatever the environment does, one call makes
  at most as many publish requests as configured attempts, all with its own subject and payload;
  the client library accepts the message at most once, so a message is never duplicated by a
  retry; the call succeeds exactly when the message was accepted and a flush succeeded; and every
  failure is an error of this call.\<close>

theorem publish_at_most_once:
  assumes "publish X p mctx op kind subject payload w = (r, w')" and "pb_connection p = connection X m"
  shows "\<exists>evs. adds w w' evs \<and>
    (\<forall>ev\<in>set evs. publish_event subject payload ev) \<and>
    length (filter is_publish evs) \<le> nat (max 1 (pb_attempts p)) \<and>
    length (filter sent_ok evs) \<le> 1 \<and>
    (r = None \<longleftrightarrow> (\<exists>nc fctx. EvPublish nc subject payload None \<in> set evs \<and> EvFlush nc fctx None \<in> set evs)) \<and>
    (\<forall>err. r = Some err \<longrightarrow> publish_failure (publish_op op) err)"
  using manager_connection.publish_reports [OF assms(2,1)] by (auto simp: publish_report_def)

definition sample_publisher :: "sim publisher" where
  "sample_publisher = \<lparr>pb_connection = connection sim_ext sample_live, pb_publish_timeout = seconds 5,
     pb_attempts = 3, pb_backoff = milliseconds 200, pb_logger = True, pb_metrics = True\<rparr>"

lemma sample_publish:
  "publish sim_ext sample_publisher (Some CtxBackground) ''submit'' ''action'' ''cmd'' ''{}'' (sim_world []) =
     (None, \<lparr>w_env = w_env (sim_world []), w_trace = [EvPublish 7 ''cmd'' ''{}'' None,
        EvFlush 7 (CtxTimeout CtxBackground (seconds 5)) None,
        EvIncPublish ''action'' ''cmd'' ''success'', EvObservePublish ''action'' ''cmd'']\<rparr>)"
  by (simp add: publish_def publish_op_def publish_once_def publish_context_def sample_publisher_def
      sample_live_def sample_manager_def connection_def query_def perform_def emit_if_def emit_def
      sim_defs go_simps eval_nat_numeral seconds_def)

theorem publish_at_most_once_witness:
  "fst (publish sim_ext sample_publisher (Some CtxBackground) ''submit'' ''action'' ''cmd'' ''{}'' (sim_world [])) = None \<and>
   (\<exists>evs. adds (sim_world []) (snd (publish sim_ext sample_publisher (Some CtxBackground) ''submit'' ''action''
      ''cmd'' ''{}'' (sim_world []))) evs \<and> length (filter sent_ok evs) \<le> 1)"
  using publish_at_most_once [OF sample_publish, of sample_live] unfolding sample_publish
  by (auto simp: sample_publisher_def)

end
