(* ===== verification/Subjects.thy ===== *)
theory Subjects
  imports Errors
begin

text \<open>
  Subject generation and validation, \<^verbatim>\<open>internal/subjects/subjects.go\<close> and
  \<^verbatim>\<open>internal/subjects/validate.go\<close>: the routing patterns, the token validators and the
  builder every publish and subscribe path goes through. The lemmas characterise the accepted
  tokens, show that a built subject has no white space, no wildcard and as many levels as its
  pattern, and that distinct targets never share a subject.
\<close>

section \<open>Tokens\<close>

definition token_rune :: "rune \<Rightarrow> bool" where
  "token_rune r \<longleftrightarrow> is_letter r \<or> is_digit r \<or> r = 95 \<or> r = 45"

definition validate_token :: "string \<Rightarrow> string \<Rightarrow> string \<Rightarrow> gerr option" where
  "validate_token op field value =
     (if contains_any value ws_chars
        then Some (rt_validation_error op (field @ '' cannot contain whitespace''))
      else if contains_char value (CHR ''.'')
        then Some (rt_validation_error op (field @ '' cannot contain '' @ [CHR 0x27] @ ''.'' @ [CHR 0x27]))
      else if contains_char value (CHR ''*'') \<or> contains_char value (CHR ''>'')
        then Some (rt_validation_error op (field @ '' cannot contain wildcard tokens''))
      else if \<not> list_all (\<lambda>(r, _). token_rune r) (runes value)
        then Some (rt_validation_error op (field @ '' contains unsupported characters''))
      else None)"

definition validate_target :: "string \<Rightarrow> gerr option" where
  "validate_target target =
     (if blank target then Some (rt_validation_error ''validate_target'' ''target is required'')
      else validate_token ''validate_target'' ''target'' target)"

definition validate_action :: "string \<Rightarrow> gerr option" where
  "validate_action action =
     (if blank action then Some (rt_validation_error ''validate_action'' ''action is required'')
      else validate_token ''validate_action'' ''action'' action)"

section \<open>Patterns\<close>

record patterns =
  pt_configure :: string
  pt_action :: string
  pt_result :: string
  pt_status :: string
  pt_health :: string

record pattern_config =
  pc_configure :: string
  pc_action :: string
  pc_result :: string
  pc_status :: string
  pc_health :: string

definition default_patterns :: patterns where
  "default_patterns = \<lparr>pt_configure = ''cmd.configure.%s'', pt_action = ''cmd.action.%s.%s'',
     pt_result = ''result.%s'', pt_status = ''status.%s'', pt_health = ''health.%s''\<rparr>"

definition validate_pattern :: "string \<Rightarrow> string \<Rightarrow> nat \<Rightarrow> gerr option" where
  "validate_pattern name pattern placeholders =
     (let op = ''validate_subject_pattern'' in
      if blank pattern then Some (rt_validation_error op (name @ '' is required''))
      else if contains_any pattern ws_chars
        then Some (rt_validation_error op (name @ '' cannot contain whitespace''))
      else if contains_char pattern (CHR ''*'') \<or> contains_char pattern (CHR ''>'')
        then Some (rt_validation_error op (name @ '' cannot contain wildcard tokens''))
      else if count_verbs pattern \<noteq> placeholders
        then Some (rt_validation_error op (name @ '' placeholder count is invalid''))
      else if contains_char (remove_verbs pattern) (CHR ''%'')
        then Some (rt_validation_error op (name @ '' contains unsupported format directives''))
      else None)"

definition validate_patterns :: "patterns \<Rightarrow> gerr option" where
  "validate_patterns p = first_error [
     validate_pattern ''configure_pattern'' (pt_configure p) 1,
     validate_pattern ''action_pattern'' (pt_action p) 2,
     validate_pattern ''result_pattern'' (pt_result p) 1,
     validate_pattern ''status_pattern'' (pt_status p) 1,
     validate_pattern ''health_pattern'' (pt_health p) 1]"

definition override :: "string \<Rightarrow> string \<Rightarrow> string" where
  "override cfg default_value = (if cfg \<noteq> [] then cfg else default_value)"

definition patterns_from_config :: "pattern_config \<Rightarrow> gerr + patterns" where
  "patterns_from_config cfg =
     (let d = default_patterns;
          p = \<lparr>pt_configure = override (pc_configure cfg) (pt_configure d),
               pt_action = override (pc_action cfg) (pt_action d),
               pt_result = override (pc_result cfg) (pt_result d),
               pt_status = override (pc_status cfg) (pt_status d),
               pt_health = override (pc_health cfg) (pt_health d)\<rparr>
      in case validate_patterns p of Some e \<Rightarrow> Inl e | None \<Rightarrow> Inr p)"

section \<open>The builder\<close>

record builder =
  b_patterns :: patterns

definition new_builder :: "patterns \<Rightarrow> gerr + builder" where
  "new_builder p = (case validate_patterns p of Some e \<Rightarrow> Inl e | None \<Rightarrow> Inr \<lparr>b_patterns = p\<rparr>)"

text \<open>\<^verbatim>\<open>NewDefaultBuilder\<close> drops the error, so a failure would give a nil builder.\<close>

definition new_default_builder :: "builder option" where
  "new_default_builder = (case new_builder default_patterns of Inl _ \<Rightarrow> None | Inr b \<Rightarrow> Some b)"

definition configure_subject :: "builder \<Rightarrow> string \<Rightarrow> gerr + string" where
  "configure_subject b target = (case validate_target target of Some e \<Rightarrow> Inl e
     | None \<Rightarrow> Inr (sprintf (pt_configure (b_patterns b)) [target]))"

definition action_subject :: "builder \<Rightarrow> string \<Rightarrow> string \<Rightarrow> gerr + string" where
  "action_subject b target action = (case validate_target target of Some e \<Rightarrow> Inl e
     | None \<Rightarrow> (case validate_action action of Some e \<Rightarrow> Inl e
     | None \<Rightarrow> Inr (sprintf (pt_action (b_patterns b)) [target, action])))"

definition result_subject :: "builder \<Rightarrow> string \<Rightarrow> gerr + string" where
  "result_subject b target = (case validate_target target of Some e \<Rightarrow> Inl e
     | None \<Rightarrow> Inr (sprintf (pt_result (b_patterns b)) [target]))"

definition status_subject :: "builder \<Rightarrow> string \<Rightarrow> gerr + string" where
  "status_subject b target = (case validate_target target of Some e \<Rightarrow> Inl e
     | None \<Rightarrow> Inr (sprintf (pt_status (b_patterns b)) [target]))"

definition health_subject :: "builder \<Rightarrow> string \<Rightarrow> gerr + string" where
  "health_subject b target = (case validate_target target of Some e \<Rightarrow> Inl e
     | None \<Rightarrow> Inr (sprintf (pt_health (b_patterns b)) [target]))"

section \<open>What the token validators accept\<close>

lemma decode_bytes_wide:
  "decode_bytes bs = (r, n) \<Longrightarrow> 1 < n \<Longrightarrow> b \<in> set (take n bs) \<Longrightarrow> 128 \<le> b"
  by (cases bs) (auto simp: second_byte_def cont_byte_def split: list.splits if_splits)

text \<open>An ASCII byte is always a rune of its own.\<close>

lemma ascii_rune: "c \<in> set s \<Longrightarrow> of_char c < (128::nat) \<Longrightarrow> (of_char c, [c]) \<in> set (runes s)"
proof (induction s rule: runes.induct)
  case (1 s)
  define n where "n = snd (decode_rune s)"
  have s: "s \<noteq> []" using "1.prems" by auto
  have eq: "runes s = (fst (decode_rune s), take n s) # runes (drop n s)"
    using s by (cases s) (simp_all add: runes_Cons n_def)
  from "1.prems"(1) have "c \<in> set (take n s) \<or> c \<in> set (drop n s)"
    by (metis Un_iff append_take_drop_id set_append)
  then show ?case
  proof
    assume "c \<in> set (drop n s)"
    then have "(of_char c, [c]) \<in> set (runes (drop n s))"
      using "1.IH" [of "decode_rune s" "fst (decode_rune s)" n] s "1.prems"(2)
      by (simp add: n_def)
    with eq show ?thesis by simp
  next
    assume c: "c \<in> set (take n s)"
    then have "(of_char c :: nat) \<in> set (take n (map of_char s))" by (auto simp: take_map)
    then have "\<not> 1 < n"
      using decode_bytes_wide [of "map of_char s" "fst (decode_rune s)" n "of_char c"] "1.prems"(2)
      by (auto simp: decode_rune_def n_def)
    moreover have "0 < n" using decode_rune_width [OF s] by (simp add: n_def)
    ultimately have "n = 1" by simp
    with c s have "s = c # tl s" by (cases s) auto
    with "1.prems"(2) show ?thesis by (metis list.set_intros(1) runes_ascii)
  qed
qed

lemma token_rune_ascii:
  "r < 128 \<Longrightarrow> token_rune r \<longleftrightarrow>
     65 \<le> r \<and> r \<le> 90 \<or> 97 \<le> r \<and> r \<le> 122 \<or> 48 \<le> r \<and> r \<le> 57 \<or> r = 95 \<or> r = 45"
  by (auto simp: token_rune_def is_letter_def is_digit_def letter_ascii digit_ascii)

lemma space_not_token: "is_space r \<Longrightarrow> \<not> token_rune r"
  using clear_of_disjoint [OF letters_clear_of_spaces] clear_of_disjoint [OF digits_clear_of_spaces]
  by (auto simp: token_rune_def is_letter_def is_digit_def is_space_def space_ascii)

definition token_ok :: "string \<Rightarrow> bool" where
  "token_ok v \<longleftrightarrow> v \<noteq> [] \<and> (\<forall>x \<in> set (runes v). token_rune (fst x))"

lemma token_ok_not_in:
  assumes "token_ok v" and "of_char c < (128::nat)" and "\<not> token_rune (of_char c)"
  shows "c \<notin> set v"
  using assms ascii_rune [of c v] by (force simp: token_ok_def)

lemma token_ok_not_blank: "token_ok v \<Longrightarrow> \<not> blank v"
  using space_not_token by (cases "runes v") (auto simp: token_ok_def blank_iff)

lemma token_ok_chars:
  assumes "token_ok v"
  shows "CHR ''.'' \<notin> set v" "CHR ''*'' \<notin> set v" "CHR ''>'' \<notin> set v" "CHR ''%'' \<notin> set v"
    "CHR ''|'' \<notin> set v" "set v \<inter> set ws_chars = {}"
  using token_ok_not_in [OF assms] by (auto simp: ws_chars_def token_rune_ascii)

lemma validate_token_iff:
  assumes "v \<noteq> []"
  shows "validate_token op f v = None \<longleftrightarrow> token_ok v"
proof
  assume "token_ok v"
  with token_ok_chars [OF this] show "validate_token op f v = None"
    by (auto simp: validate_token_def token_ok_def list_all_iff)
qed (use assms in \<open>auto simp: validate_token_def token_ok_def list_all_iff split: if_splits\<close>)

lemma validate_target_iff: "validate_target t = None \<longleftrightarrow> token_ok t"
proof (cases "blank t")
  case False
  then have "t \<noteq> []" by auto
  with False show ?thesis by (simp add: validate_target_def validate_token_iff)
qed (auto simp: validate_target_def dest: token_ok_not_blank)

lemma validate_action_iff: "validate_action a = None \<longleftrightarrow> token_ok a"
proof (cases "blank a")
  case False
  then have "a \<noteq> []" by auto
  with False show ?thesis by (simp add: validate_action_def validate_token_iff)
qed (auto simp: validate_action_def dest: token_ok_not_blank)

section \<open>What a valid pattern expands to\<close>

lemma validate_pattern_None:
  assumes "validate_pattern name p n = None"
  shows "count_verbs p = n" "CHR ''%'' \<notin> set (remove_verbs p)" "\<not> blank p"
    "set p \<inter> set ws_chars = {}" "CHR ''*'' \<notin> set p" "CHR ''>'' \<notin> set p"
  using assms by (auto simp: validate_pattern_def Let_def split: if_splits)

lemma default_patterns_valid: "validate_patterns default_patterns = None"
  by (simp add: validate_patterns_def default_patterns_def validate_pattern_def Let_def ws_chars_def
      blank_iff is_space_def space_ascii)

text \<open>A subject that can be published to: no white space and no wildcard.\<close>

definition subject_safe :: "string \<Rightarrow> bool" where
  "subject_safe s \<longleftrightarrow> s \<noteq> [] \<and> set s \<inter> set ws_chars = {} \<and> CHR ''*'' \<notin> set s \<and> CHR ''>'' \<notin> set s"

text \<open>Levels of a subject: one more than its dots.\<close>

definition levels :: "string \<Rightarrow> nat" where
  "levels s = Suc (count_list s (CHR ''.''))"

lemma render_one:
  assumes "validate_pattern name p 1 = None"
  obtains a b where "p = a @ ''%s'' @ b" and "\<forall>x. sprintf p [x] = a @ x @ b"
  using sprintf_one [of p] validate_pattern_None [OF assms] by metis

lemma render_two:
  assumes "validate_pattern name p 2 = None"
  obtains a b c where "p = a @ ''%s'' @ b @ ''%s'' @ c"
    and "\<forall>x y. sprintf p [x, y] = a @ x @ b @ y @ c"
  using sprintf_two [of p] validate_pattern_None [OF assms] by metis

lemma render_one_safe:
  assumes p: "validate_pattern name p 1 = None" and t: "token_ok t"
  shows "subject_safe (sprintf p [t])" and "levels (sprintf p [t]) = levels p"
proof -
  from render_one [OF p] obtain a b where "p = a @ ''%s'' @ b"
    and "\<forall>x. sprintf p [x] = a @ x @ b" .
  then have *: "p = a @ ''%s'' @ b" "sprintf p [t] = a @ t @ b" by simp_all
  show "subject_safe (sprintf p [t])" and "levels (sprintf p [t]) = levels p"
    using validate_pattern_None [OF p] token_ok_chars [OF t] t *
    by (auto simp: subject_safe_def levels_def token_ok_def)
qed

lemma render_two_safe:
  assumes p: "validate_pattern name p 2 = None" and t: "token_ok t" and u: "token_ok u"
  shows "subject_safe (sprintf p [t, u])" and "levels (sprintf p [t, u]) = levels p"
proof -
  from render_two [OF p] obtain a b c where "p = a @ ''%s'' @ b @ ''%s'' @ c"
    and "\<forall>x y. sprintf p [x, y] = a @ x @ b @ y @ c" .
  then have *: "p = a @ ''%s'' @ b @ ''%s'' @ c" "sprintf p [t, u] = a @ t @ b @ u @ c" by simp_all
  show "subject_safe (sprintf p [t, u])" and "levels (sprintf p [t, u]) = levels p"
    using validate_pattern_None [OF p] token_ok_chars [OF t] token_ok_chars [OF u] t *
    by (auto simp: subject_safe_def levels_def token_ok_def)
qed

section \<open>Builders\<close>

definition builder_ok :: "builder \<Rightarrow> bool" where
  "builder_ok b \<longleftrightarrow> validate_patterns (b_patterns b) = None"

lemma new_builder_ok: "new_builder p = Inr b \<Longrightarrow> builder_ok b"
  by (auto simp: new_builder_def builder_ok_def split: option.splits)

text \<open>
  The four single-target subjects share one shape; what follows from it is proved once and read
  off the interpretations.
\<close>

locale target_subject =
  fixes subject :: "builder \<Rightarrow> string \<Rightarrow> gerr + string"
    and pattern :: "patterns \<Rightarrow> string"
    and pattern_name :: string
  assumes subject_eq: "subject b t = (case validate_target t of Some e \<Rightarrow> Inl e
      | None \<Rightarrow> Inr (sprintf (pattern (b_patterns b)) [t]))"
    and pattern_checked: "builder_ok b \<Longrightarrow>
      validate_pattern pattern_name (pattern (b_patterns b)) 1 = None"
begin

lemma defined_iff: "is_ok (subject b t) \<longleftrightarrow> token_ok t"
  by (simp add: subject_eq flip: validate_target_iff split: option.splits)

lemma subject_Inr: "subject b t = Inr s \<Longrightarrow> token_ok t \<and> s = sprintf (pattern (b_patterns b)) [t]"
  by (auto simp: subject_eq simp flip: validate_target_iff split: option.splits)

lemma subject_Inl: "subject b t = Inl e \<Longrightarrow> validate_target t = Some e"
  by (auto simp: subject_eq split: option.splits)

lemma safe: "builder_ok b \<Longrightarrow> subject b t = Inr s \<Longrightarrow>
    subject_safe s \<and> levels s = levels (pattern (b_patterns b))"
  using render_one_safe [OF pattern_checked] subject_Inr by blast

lemma inject: "builder_ok b \<Longrightarrow> subject b t = Inr s \<Longrightarrow> subject b u = Inr s \<Longrightarrow> t = u"
  using render_one [OF pattern_checked, of b] subject_Inr [of b t s] subject_Inr [of b u s]
  by (metis append_same_eq same_append_eq)

end

lemmas builder_ok_defs = builder_ok_def validate_patterns_def

interpretation configure: target_subject configure_subject pt_configure "''configure_pattern''"
  by unfold_locales (simp_all add: configure_subject_def builder_ok_defs)

interpretation result: target_subject result_subject pt_result "''result_pattern''"
  by unfold_locales (simp_all add: result_subject_def builder_ok_defs)

interpretation status: target_subject status_subject pt_status "''status_pattern''"
  by unfold_locales (simp_all add: status_subject_def builder_ok_defs)

interpretation health: target_subject health_subject pt_health "''health_pattern''"
  by unfold_locales (simp_all add: health_subject_def builder_ok_defs)

lemma action_subject_Inr:
  "action_subject b t u = Inr s \<longleftrightarrow>
     token_ok t \<and> token_ok u \<and> s = sprintf (pt_action (b_patterns b)) [t, u]"
  by (auto simp: action_subject_def simp flip: validate_target_iff [of t] validate_action_iff [of u]
      split: option.splits)

lemma builder_action_pattern:
  "builder_ok b \<Longrightarrow> validate_pattern ''action_pattern'' (pt_action (b_patterns b)) 2 = None"
  by (simp add: builder_ok_defs)

text \<open>A separator with a character no token has tells the two placeholders apart.\<close>

lemma separated_inject:
  assumes eq: "t @ m @ u = t' @ m @ u'" and c: "c \<in> set m" "c \<notin> set (t @ t')"
  shows "t = t' \<and> u = u'"
proof -
  from c(1) obtain m1 m2 where m: "m = m1 @ c # m2" "c \<notin> set m1"
    by (meson split_list_first)
  have *: "takeWhile (\<lambda>x. x \<noteq> c) (v @ m @ w) = v @ m1" if "c \<notin> set v" for v w
    using that m by (simp add: takeWhile_append)
  from eq have "t @ m1 = t' @ m1" using * [of t u] * [of t' u'] c(2) by simp
  with eq show ?thesis by simp
qed

section \<open>Properties\<close>

lemma action_pattern_split:
  assumes v: "validate_pattern name p 2 = None" and p: "p = x @ ''%s'' @ m @ ''%s'' @ z"
  shows "sprintf p [t, u] = x @ t @ m @ u @ z"
proof -
  note c = validate_pattern_None(1,2) [OF v, unfolded p verbs_append [THEN conjunct1] verbs_append [THEN conjunct2]]
  then have "count_verbs x = 0" "count_verbs m = 0" "count_verbs z = 0" by simp_all
  with c(2) have "CHR ''%'' \<notin> set x" "CHR ''%'' \<notin> set m" "CHR ''%'' \<notin> set z"
    by (simp_all add: remove_verbs_none)
  then show ?thesis using p sprintf_prefix sprintf_plain by metis
qed

definition default_builder :: builder where
  "default_builder = \<lparr>b_patterns = default_patterns\<rparr>"

lemma new_default_builder_eq: "new_default_builder = Some default_builder"
  by (simp add: new_default_builder_def new_builder_def default_patterns_valid default_builder_def)

lemma default_builder_new: "new_builder default_patterns = Inr default_builder"
  by (simp add: new_builder_def default_patterns_valid default_builder_def)

lemma default_renders:
  "sprintf (pt_configure default_patterns) [t] = ''cmd.configure.'' @ t"
  "sprintf (pt_action default_patterns) [t, u] = ''cmd.action.'' @ t @ ''.'' @ u"
  "sprintf (pt_result default_patterns) [t] = ''result.'' @ t"
  "sprintf (pt_status default_patterns) [t] = ''status.'' @ t"
  "sprintf (pt_health default_patterns) [t] = ''health.'' @ t"
  by (simp_all add: default_patterns_def)

lemma token_ok_samples [simp]: "token_ok ''ap-1''" "token_ok ''reboot''" "\<not> token_ok ''a.b''"
  by (simp_all add: token_ok_def token_rune_ascii)

text \<open>A builder builds a subject exactly when every token is acceptable, whatever its patterns:
  a target or action that is empty or holds a dot, a wildcard, white space or a format directive
  never reaches the NATS server, and no acceptable token is refused.\<close>

theorem subjects_built_iff:
  "(is_ok (configure_subject b t) \<longleftrightarrow> token_ok t) \<and> (is_ok (result_subject b t) \<longleftrightarrow> token_ok t) \<and>
   (is_ok (status_subject b t) \<longleftrightarrow> token_ok t) \<and> (is_ok (health_subject b t) \<longleftrightarrow> token_ok t) \<and>
   (is_ok (action_subject b t u) \<longleftrightarrow> token_ok t \<and> token_ok u)"
proof -
  have "is_ok (action_subject b t u) \<longleftrightarrow> token_ok t \<and> token_ok u"
    using action_subject_Inr [of b t u] by (cases "action_subject b t u") auto
  then show ?thesis
    by (simp only: configure.defined_iff result.defined_iff status.defined_iff health.defined_iff)
qed

text \<open>C29: a subject built by a builder that \<^verbatim>\<open>NewBuilder\<close> returned is a plain subject: it is not
  empty, has no white space and no wildcard, and has as many levels as its pattern, so a token can
  never widen or shift what a publication or a subscription addresses.\<close>

theorem built_subject_safe:
  assumes "new_builder p = Inr b"
  shows "(configure_subject b t = Inr s \<longrightarrow> subject_safe s \<and> levels s = levels (pt_configure p)) \<and>
    (result_subject b t = Inr s \<longrightarrow> subject_safe s \<and> levels s = levels (pt_result p)) \<and>
    (status_subject b t = Inr s \<longrightarrow> subject_safe s \<and> levels s = levels (pt_status p)) \<and>
    (health_subject b t = Inr s \<longrightarrow> subject_safe s \<and> levels s = levels (pt_health p)) \<and>
    (action_subject b t u = Inr s \<longrightarrow> subject_safe s \<and> levels s = levels (pt_action p))"
proof -
  have ok: "builder_ok b" and p: "b_patterns b = p"
    using new_builder_ok [OF assms] assms by (auto simp: new_builder_def split: option.splits)
  have "action_subject b t u = Inr s \<Longrightarrow> subject_safe s \<and> levels s = levels (pt_action p)"
    using render_two_safe [OF builder_action_pattern [OF ok]] p by (simp add: action_subject_Inr)
  then show ?thesis
    using configure.safe [OF ok] result.safe [OF ok] status.safe [OF ok] health.safe [OF ok] p
    by simp
qed

theorem built_subject_safe_witness:
  "subject_safe ''cmd.action.ap-1.reboot'' \<and> levels ''cmd.action.ap-1.reboot'' = levels (pt_action default_patterns)"
proof -
  have "action_subject default_builder ''ap-1'' ''reboot'' = Inr ''cmd.action.ap-1.reboot''"
    by (simp add: action_subject_Inr default_renders default_builder_def)
  then show ?thesis using built_subject_safe [OF default_builder_new] by blast
qed

text \<open>C30: subjects identify their target: two targets never share a configure, result, status or
  health subject of one builder, and two pairs of target and action share an action subject only
  when they are the same, provided the action pattern has between its placeholders a character no
  token can have, as the default pattern does.\<close>

theorem subjects_identify_target:
  assumes "new_builder p = Inr b"
  shows "(configure_subject b t = Inr s \<and> configure_subject b t' = Inr s \<longrightarrow> t = t') \<and>
    (result_subject b t = Inr s \<and> result_subject b t' = Inr s \<longrightarrow> t = t') \<and>
    (status_subject b t = Inr s \<and> status_subject b t' = Inr s \<longrightarrow> t = t') \<and>
    (health_subject b t = Inr s \<and> health_subject b t' = Inr s \<longrightarrow> t = t') \<and>
    (pt_action p = x @ ''%s'' @ m @ ''%s'' @ z \<and> CHR ''.'' \<in> set m \<and>
      action_subject b t u = Inr s \<and> action_subject b t' u' = Inr s \<longrightarrow> t = t' \<and> u = u')"
proof -
  have ok: "builder_ok b" and p: "b_patterns b = p"
    using new_builder_ok [OF assms] assms by (auto simp: new_builder_def split: option.splits)
  have action: "t = t' \<and> u = u'"
    if m: "pt_action p = x @ ''%s'' @ m @ ''%s'' @ z" "CHR ''.'' \<in> set m"
      and s: "action_subject b t u = Inr s" "action_subject b t' u' = Inr s"
  proof -
    note v = builder_action_pattern [OF ok, unfolded p]
    note a = s [unfolded action_subject_Inr p]
    have eq: "sprintf (pt_action p) [v, w] = x @ v @ m @ w @ z" for v w
      using action_pattern_split [OF v m(1)] by blast
    have "t @ m @ u = t' @ m @ u'" using a by (simp add: eq)
    moreover have "CHR ''.'' \<notin> set (t @ t')" using a token_ok_chars(1) by simp
    ultimately show ?thesis by (rule separated_inject [OF _ m(2)])
  qed
  show ?thesis
  proof (intro conjI impI; elim conjE)
    show "t = t'" if "configure_subject b t = Inr s" "configure_subject b t' = Inr s"
      using that by (rule configure.inject [OF ok])
    show "t = t'" if "result_subject b t = Inr s" "result_subject b t' = Inr s"
      using that by (rule result.inject [OF ok])
    show "t = t'" if "status_subject b t = Inr s" "status_subject b t' = Inr s"
      using that by (rule status.inject [OF ok])
    show "t = t'" if "health_subject b t = Inr s" "health_subject b t' = Inr s"
      using that by (rule health.inject [OF ok])
  qed (use action in simp_all)
qed

theorem subjects_identify_target_witness:
  "configure_subject default_builder ''ap-1'' \<noteq> configure_subject default_builder ''reboot''"
proof -
  have "configure_subject default_builder ''ap-1'' = Inr ''cmd.configure.ap-1''"
    using validate_target_iff [of "''ap-1''"]
    by (simp add: configure.subject_eq default_builder_def default_renders)
  then show ?thesis
    using subjects_identify_target [OF default_builder_new, of "''ap-1''" "''cmd.configure.ap-1''" "''reboot''"]
    by auto
qed

end
