(* ===== verification/Time_Codec.thy ===== *)
theory Time_Codec
  imports Go_Values
begin

text \<open>
  The JSON form of \<^verbatim>\<open>time.Time\<close>: RFC 3339 with nanoseconds, as \<^verbatim>\<open>Time.MarshalJSON\<close> and
  \<^verbatim>\<open>Time.UnmarshalJSON\<close> of Go's \<^verbatim>\<open>time\<close> package write and read it, over the proleptic Gregorian
  calendar. Instants are nanoseconds since 1 January of year 1; day 0 is that day.
\<close>

section \<open>Calendar\<close>

definition leap_year :: "int \<Rightarrow> bool" where
  "leap_year y \<longleftrightarrow> y mod 4 = 0 \<and> (y mod 100 \<noteq> 0 \<or> y mod 400 = 0)"

text \<open>Days before 1 January of a year.\<close>

definition days_before_year :: "int \<Rightarrow> int" where
  "days_before_year y = 365 * (y - 1) + (y - 1) div 4 - (y - 1) div 100 + (y - 1) div 400"

definition month_lengths :: "bool \<Rightarrow> int list" where
  "month_lengths leap = [31, if leap then 29 else 28, 31, 30, 31, 30, 31, 31, 30, 31, 30, 31]"

definition days_in_month :: "int \<Rightarrow> int \<Rightarrow> int" where
  "days_in_month y m = month_lengths (leap_year y) ! nat (m - 1)"

definition days_before_month :: "int \<Rightarrow> int \<Rightarrow> int" where
  "days_before_month y m = sum_list (take (nat (m - 1)) (month_lengths (leap_year y)))"

definition days_of_civil :: "int \<Rightarrow> int \<Rightarrow> int \<Rightarrow> int" where
  "days_of_civil y m d = days_before_year y + days_before_month y m + (d - 1)"

text \<open>The year of a day: cycles of 400, 100, 4 and 1 years.\<close>

definition year_of_day :: "int \<Rightarrow> int" where
  "year_of_day n =
     (let q400 = n div 146097; r400 = n mod 146097;
          q100 = min 3 (r400 div 36524); r100 = r400 - q100 * 36524;
          q4 = r100 div 1461; r4 = r100 mod 1461;
          q1 = min 3 (r4 div 365)
      in 400 * q400 + 100 * q100 + 4 * q4 + q1 + 1)"

text \<open>Month and day within a year, from the day of the year.\<close>

fun split_month :: "int list \<Rightarrow> int \<Rightarrow> int \<Rightarrow> int \<times> int" where
  "split_month [] m d = (m, d)"
| "split_month (l # ls) m d = (if d < l then (m, d + 1) else split_month ls (m + 1) (d - l))"

definition civil_of_day :: "int \<Rightarrow> int \<times> int \<times> int" where
  "civil_of_day n =
     (let y = year_of_day n; (m, d) = split_month (month_lengths (leap_year y)) 1 (n - days_before_year y)
      in (y, m, d))"

section \<open>Formatting\<close>

definition pad_num :: "nat \<Rightarrow> nat \<Rightarrow> string" where
  "pad_num width n = (let s = show_nat n in replicate (width - length s) (CHR ''0'') @ s)"

definition nanos_per_second :: int where "nanos_per_second = 1000000000"

text \<open>Trailing zeros of the fraction are dropped, and the whole of it when it is zero.\<close>

definition fraction_text :: "nat \<Rightarrow> string" where
  "fraction_text ns =
     (if ns = 0 then [] else CHR ''.'' # rev (dropWhile (\<lambda>c. c = CHR ''0'') (rev (pad_num 9 ns))))"

definition zone_text :: "int \<Rightarrow> string" where
  "zone_text off =
     (if off = 0 then ''Z''
      else (let m = nat (\<bar>off\<bar> div 60) in
        (if off < 0 then ''-'' else ''+'') @ pad_num 2 (m div 60) @ '':'' @ pad_num 2 (m mod 60)))"

definition wall_nanos :: "gotime \<Rightarrow> int" where
  "wall_nanos t = t_nanos t + t_offset t * nanos_per_second"

definition time_text :: "gotime \<Rightarrow> string" where
  "time_text t =
     (let w = wall_nanos t;
          secs = w div nanos_per_second; ns = w mod nanos_per_second;
          day = secs div 86400; sod = secs mod 86400;
          (y, m, d) = civil_of_day day
      in pad_num 4 (nat y) @ ''-'' @ pad_num 2 (nat m) @ ''-'' @ pad_num 2 (nat d) @ ''T'' @
         pad_num 2 (nat (sod div 3600)) @ '':'' @ pad_num 2 (nat (sod mod 3600 div 60)) @ '':'' @
         pad_num 2 (nat (sod mod 60)) @ fraction_text (nat ns) @ zone_text (t_offset t))"

text \<open>
  \<^verbatim>\<open>MarshalJSON\<close> fails for years that do not have four digits and for zones of a day or more.
\<close>

definition marshal_time :: "gotime \<Rightarrow> gerr + string" where
  "marshal_time t =
     (let (y, m, d) = civil_of_day (wall_nanos t div nanos_per_second div 86400) in
      if y < 0 \<or> y > 9999
        then Inl (ErrText ''Time.MarshalJSON: year outside of range [0,9999]'')
      else if \<bar>t_offset t\<bar> div 3600 > 23
        then Inl (ErrText ''Time.MarshalJSON: timezone hour outside of range [0,23]'')
      else Inr ([CHR 0x22] @ time_text t @ [CHR 0x22]))"

section \<open>Parsing\<close>

definition digit_at :: "char \<Rightarrow> bool" where
  "digit_at c \<longleftrightarrow> (48::nat) \<le> of_char c \<and> of_char c \<le> (57::nat)"

definition digit_val :: "char \<Rightarrow> int" where
  "digit_val c = int (of_char c) - 48"

text \<open>\<^verbatim>\<open>getnum\<close>: two digits, or one when the layout's field is not of fixed width.\<close>

fun get_num :: "bool \<Rightarrow> string \<Rightarrow> (int \<times> string) option" where
  "get_num fixed (a # b # s) =
     (if \<not> digit_at a then None
      else if digit_at b then Some (digit_val a * 10 + digit_val b, s)
      else if fixed then None else Some (digit_val a, b # s))"
| "get_num fixed [a] = (if digit_at a \<and> \<not> fixed then Some (digit_val a, []) else None)"
| "get_num fixed [] = None"

fun get_year :: "string \<Rightarrow> (int \<times> string) option" where
  "get_year (a # b # c # d # s) =
     (if digit_at a \<and> digit_at b \<and> digit_at c \<and> digit_at d
      then Some (digit_val a * 1000 + digit_val b * 100 + digit_val c * 10 + digit_val d, s) else None)"
| "get_year _ = None"

fun expect :: "char \<Rightarrow> string \<Rightarrow> string option" where
  "expect c (x # s) = (if x = c then Some s else None)"
| "expect c [] = None"

text \<open>An optional fraction after the seconds, of which nine digits count.\<close>

definition nanos_of_digits :: "string \<Rightarrow> int" where
  "nanos_of_digits ds = (let t = take 9 ds in int (read_nat 0 (t @ replicate (9 - length t) (CHR ''0''))))"

fun get_fraction :: "string \<Rightarrow> int \<times> string" where
  "get_fraction (p # d # s) =
     (if (p = CHR ''.'' \<or> p = CHR '','') \<and> digit_at d
      then (nanos_of_digits (takeWhile digit_at (d # s)), dropWhile digit_at (d # s))
      else (0, p # d # s))"
| "get_fraction s = (0, s)"

definition get_zone :: "string \<Rightarrow> (int \<times> string) option" where
  "get_zone s =
     (case s of
        [] \<Rightarrow> None
      | c # r \<Rightarrow>
          if c = CHR ''Z'' then Some (0, r)
          else if length s < 6 \<or> s ! 3 \<noteq> CHR '':'' then None
          else (case (get_num True (take 2 r), get_num True (take 2 (drop 3 r))) of
                  (Some (h, _), Some (m, _)) \<Rightarrow>
                    if h > 24 \<or> m > 60 then None
                    else if c = CHR ''+'' then Some ((h * 60 + m) * 60, drop 5 r)
                    else if c = CHR ''-'' then Some (- ((h * 60 + m) * 60), drop 5 r)
                    else None
                | _ \<Rightarrow> None))"

definition parse_time :: "string \<Rightarrow> gotime option" where
  "parse_time s =
     (case get_year s of None \<Rightarrow> None | Some (y, s) \<Rightarrow>
     (case expect (CHR ''-'') s of None \<Rightarrow> None | Some s \<Rightarrow>
     (case get_num True s of None \<Rightarrow> None | Some (mo, s) \<Rightarrow>
     if mo \<le> 0 \<or> 12 < mo then None else
     (case expect (CHR ''-'') s of None \<Rightarrow> None | Some s \<Rightarrow>
     (case get_num True s of None \<Rightarrow> None | Some (d, s) \<Rightarrow>
     (case expect (CHR ''T'') s of None \<Rightarrow> None | Some s \<Rightarrow>
     (case get_num False s of None \<Rightarrow> None | Some (h, s) \<Rightarrow>
     if h \<ge> 24 then None else
     (case expect (CHR '':'') s of None \<Rightarrow> None | Some s \<Rightarrow>
     (case get_num True s of None \<Rightarrow> None | Some (mi, s) \<Rightarrow>
     if mi \<ge> 60 then None else
     (case expect (CHR '':'') s of None \<Rightarrow> None | Some s \<Rightarrow>
     (case get_num True s of None \<Rightarrow> None | Some (sec, s) \<Rightarrow>
     if sec \<ge> 60 then None else
     (let (ns, s) = get_fraction s in
      case get_zone s of None \<Rightarrow> None | Some (off, s) \<Rightarrow>
      if s \<noteq> [] \<or> d < 1 \<or> d > days_in_month y mo then None
      else Some \<lparr>t_nanos = (days_of_civil y mo d * 86400 + h * 3600 + mi * 60 + sec - off) * nanos_per_second + ns,
                 t_offset = off\<rparr>))))))))))))"

text \<open>\<^verbatim>\<open>UnmarshalJSON\<close> on the bytes of the value: \<^verbatim>\<open>null\<close> leaves the time as it is.\<close>

definition unmarshal_time :: "string \<Rightarrow> gotime \<Rightarrow> gotime option" where
  "unmarshal_time data t =
     (if data = ''null'' then Some t
      else if length data < 2 \<or> hd data \<noteq> CHR 0x22 \<or> last data \<noteq> CHR 0x22 then None
      else parse_time (butlast (tl data)))"

end
