(* ===== verification/Json_Codec.thy ===== *)
theory Json_Codec
  imports Json_Scan Time_Codec Contracts
begin

text \<open>
  \<^verbatim>\<open>json.Marshal\<close> and \<^verbatim>\<open>json.Unmarshal\<close> of Go's \<^verbatim>\<open>encoding/json\<close>, for the structs the
  program puts on the wire: strings, times and raw messages as fields, with and without
  \<^verbatim>\<open>omitempty\<close>. Writing escapes as the standard encoder does (HTML characters included); reading
  matches keys exactly or by case folding, skips unknown members, lets a later duplicate win and
  leaves a field alone on \<^verbatim>\<open>null\<close>. The wording of the library's own errors is not modelled: an
  error is an \<open>ErrText\<close> that names its class.
\<close>

section \<open>Strings\<close>

definition dquote :: char where "dquote = CHR 0x22"
definition bslash :: char where "bslash = CHR 0x5C"

definition hex_lower :: "nat \<Rightarrow> char" where
  "hex_lower n = (if n < 10 then char_of (48 + n) else char_of (87 + n))"

definition u_escape :: "nat \<Rightarrow> string" where
  "u_escape n = [bslash, CHR ''u'', hex_lower (n div 4096 mod 16), hex_lower (n div 256 mod 16),
     hex_lower (n div 16 mod 16), hex_lower (n mod 16)]"

text \<open>One decoded rune with the bytes it was decoded from.\<close>

definition escape_rune :: "nat \<times> string \<Rightarrow> string" where
  "escape_rune p = (case p of (r, bs) \<Rightarrow>
     if r < 128 then
       (if r = 34 \<or> r = 92 then [bslash, char_of r]
        else if r = 8 then [bslash, CHR ''b''] else if r = 12 then [bslash, CHR ''f'']
        else if r = 10 then [bslash, CHR ''n''] else if r = 13 then [bslash, CHR ''r'']
        else if r = 9 then [bslash, CHR ''t'']
        else if r < 32 \<or> r = 60 \<or> r = 62 \<or> r = 38 then u_escape r
        else bs)
     else if r = rune_error \<and> length bs = 1 then u_escape rune_error
     else if r = 0x2028 \<or> r = 0x2029 then u_escape r
     else bs)"

definition quote_json :: "string \<Rightarrow> string" where
  "quote_json s = [dquote] @ concat (map escape_rune (runes s)) @ [dquote]"

definition hex_val :: "char \<Rightarrow> nat" where
  "hex_val c = (let n = of_char c in
     if n \<le> 57 then n - 48 else if n \<le> 70 then n - 55 else n - 87)"

definition get_u4 :: "string \<Rightarrow> nat option" where
  "get_u4 s = (case s of a # b # c # d # _ \<Rightarrow>
       if hex_digit a \<and> hex_digit b \<and> hex_digit c \<and> hex_digit d
       then Some (hex_val a * 4096 + hex_val b * 256 + hex_val c * 16 + hex_val d) else None
     | _ \<Rightarrow> None)"

text \<open>\<^verbatim>\<open>utf8.AppendRune\<close>.\<close>

definition encode_rune :: "nat \<Rightarrow> string" where
  "encode_rune r =
     (let r = (if (0xD800 \<le> r \<and> r \<le> 0xDFFF) \<or> 0x10FFFF < r then rune_error else r) in
      map char_of (if r < 0x80 then [r]
        else if r < 0x800 then [0xC0 + r div 64, 0x80 + r mod 64]
        else if r < 0x10000 then [0xE0 + r div 4096, 0x80 + r div 64 mod 64, 0x80 + r mod 64]
        else [0xF0 + r div 262144, 0x80 + r div 4096 mod 64, 0x80 + r div 64 mod 64, 0x80 + r mod 64]))"

definition simple_escape :: "char \<Rightarrow> string option" where
  "simple_escape c =
     (if c = dquote \<or> c = bslash \<or> c = CHR ''/'' \<or> c = CHR 0x27 then Some [c]
      else if c = CHR ''b'' then Some [CHR 0x08] else if c = CHR ''f'' then Some [CHR 0x0C]
      else if c = CHR ''n'' then Some [CHR 0x0A] else if c = CHR ''r'' then Some [CHR 0x0D]
      else if c = CHR ''t'' then Some [CHR 0x09] else None)"

text \<open>
  A \<^verbatim>\<open>\u\<close> escape with what follows it: the rune, and how many bytes after the \<^verbatim>\<open>\u\<close> it takes; a
  lone surrogate becomes the replacement character.
\<close>

definition take_u :: "string \<Rightarrow> (nat \<times> nat) option" where
  "take_u s = (case get_u4 s of None \<Rightarrow> None | Some r \<Rightarrow>
     if 0xD800 \<le> r \<and> r < 0xE000 then
       (if r < 0xDC00 \<and> take 2 (drop 4 s) = [bslash, CHR ''u''] then
          (case get_u4 (drop 6 s) of
             Some r2 \<Rightarrow> if 0xDC00 \<le> r2 \<and> r2 < 0xE000
               then Some ((r - 0xD800) * 1024 + (r2 - 0xDC00) + 0x10000, 10)
               else Some (rune_error, 4)
           | None \<Rightarrow> Some (rune_error, 4))
        else Some (rune_error, 4))
     else Some (r, 4))"

text \<open>The contents of a string literal; the first argument bounds the recursion by its length.\<close>

fun unescape :: "nat \<Rightarrow> string \<Rightarrow> string option" where
  "unescape n [] = Some []"
| "unescape 0 (c # s) = None"
| "unescape (Suc n) (c # s) =
     (if c = bslash then
        (case s of
           [] \<Rightarrow> None
         | e # r \<Rightarrow>
             if e = CHR ''u'' then
               (case take_u r of None \<Rightarrow> None
                | Some (u, k) \<Rightarrow> map_option (append (encode_rune u)) (unescape n (drop k r)))
             else (case simple_escape e of None \<Rightarrow> None
                | Some x \<Rightarrow> map_option (append x) (unescape n r)))
      else if c = dquote \<or> of_char c < (32::nat) then None
      else if of_char c < (128::nat) then map_option (append [c]) (unescape n s)
      else (let (u, k) = decode_rune (c # s)
            in map_option (append (encode_rune u)) (unescape n (drop k (c # s)))))"

definition unquote_json :: "string \<Rightarrow> string option" where
  "unquote_json lit =
     (if length lit < 2 \<or> hd lit \<noteq> dquote \<or> last lit \<noteq> dquote then None
      else unescape (length lit) (butlast (tl lit)))"

section \<open>Raw messages\<close>

text \<open>
  \<^verbatim>\<open>compact\<close> with HTML escaping: space between tokens is dropped, \<^verbatim>\<open><\<close>, \<^verbatim>\<open>>\<close>, \<^verbatim>\<open>&\<close> and the
  two line separators are escaped wherever they stand. The flags say whether the byte is inside a
  string and follows a backslash there.
\<close>

fun compact :: "bool \<Rightarrow> bool \<Rightarrow> string \<Rightarrow> string" where
  "compact inside esc [] = []"
| "compact inside esc (c # s) =
     (if c = CHR ''<'' \<or> c = CHR ''>'' \<or> c = CHR ''&''
        then u_escape (of_char c) @ compact inside False s
      else if c = CHR 0xE2 \<and> take 1 s = [CHR 0x80] \<and>
          (take 1 (drop 1 s) = [CHR 0xA8] \<or> take 1 (drop 1 s) = [CHR 0xA9])
        then u_escape (0x2000 + (of_char (s ! 1) - 0x80)) @ compact inside False (drop 2 s)
      else if inside then
        c # compact (esc \<or> c \<noteq> dquote) (\<not> esc \<and> c = bslash) s
      else if json_space c then compact False False s
      else c # compact (c = dquote) False s)"

definition json_error :: "string \<Rightarrow> gerr" where
  "json_error name = ErrText (''json: '' @ name)"

definition marshal_raw :: "string \<Rightarrow> gerr + string" where
  "marshal_raw m =
     (let data = (if m = [] then ''null'' else m) in
      if json_valid data then Inr (compact False False data) else Inl (json_error ''invalid raw message''))"

section \<open>Structs\<close>

text \<open>A field to be written: its key, whether an empty value leaves it out, and its value.\<close>

datatype json_field =
    FieldString string bool string
  | FieldRaw string bool bytes
  | FieldTime string gotime

definition field_key :: "json_field \<Rightarrow> string" where
  "field_key f = (case f of FieldString k _ _ \<Rightarrow> k | FieldRaw k _ _ \<Rightarrow> k | FieldTime k _ \<Rightarrow> k)"

definition field_omitted :: "json_field \<Rightarrow> bool" where
  "field_omitted f = (case f of FieldString _ oe v \<Rightarrow> oe \<and> v = [] | FieldRaw _ oe v \<Rightarrow> oe \<and> v = []
     | FieldTime _ _ \<Rightarrow> False)"

definition marshal_value :: "json_field \<Rightarrow> gerr + string" where
  "marshal_value f = (case f of
     FieldString _ _ v \<Rightarrow> Inr (quote_json v) | FieldRaw _ _ v \<Rightarrow> marshal_raw v
   | FieldTime _ t \<Rightarrow> marshal_time t)"

fun marshal_fields :: "json_field list \<Rightarrow> gerr + string list" where
  "marshal_fields [] = Inr []"
| "marshal_fields (f # fs) =
     (if field_omitted f then marshal_fields fs
      else (case marshal_value f of
              Inl err \<Rightarrow> Inl err
            | Inr v \<Rightarrow> (case marshal_fields fs of
                Inl err \<Rightarrow> Inl err
              | Inr ms \<Rightarrow> Inr ((quote_json (field_key f) @ '':'' @ v) # ms))))"

definition marshal_struct :: "json_field list \<Rightarrow> gerr + bytes" where
  "marshal_struct fs = (case marshal_fields fs of
     Inl err \<Rightarrow> Inl err | Inr ms \<Rightarrow> Inr (''{'' @ join_with '','' ms @ ''}''))"

section \<open>Reading\<close>

definition skip_space :: "string \<Rightarrow> string" where
  "skip_space s = dropWhile json_space s"

text \<open>
  The extent of a value in valid JSON text. A composite value ends with the bracket that closes
  its first; \<open>span_nested\<close> has the state of \<open>compact\<close> and the number of open brackets. A string ends
  at its closing quote, anything else before a delimiter.
\<close>

fun span_nested :: "bool \<Rightarrow> bool \<Rightarrow> nat \<Rightarrow> string \<Rightarrow> string \<times> string" where
  "span_nested inside esc d [] = ([], [])"
| "span_nested inside esc d (c # s) =
     (if inside then (let (a, b) = span_nested (esc \<or> c \<noteq> dquote) (\<not> esc \<and> c = bslash) d s in (c # a, b))
      else if c = CHR ''{'' \<or> c = CHR ''['' then (let (a, b) = span_nested False False (Suc d) s in (c # a, b))
      else if c = CHR ''}'' \<or> c = CHR '']'' then
        (if d \<le> 1 then ([c], s) else (let (a, b) = span_nested False False (d - 1) s in (c # a, b)))
      else (let (a, b) = span_nested (c = dquote) False d s in (c # a, b)))"

fun span_string :: "bool \<Rightarrow> string \<Rightarrow> string \<times> string" where
  "span_string esc [] = ([], [])"
| "span_string esc (c # s) =
     (if c = dquote \<and> \<not> esc then ([c], s)
      else (let (a, b) = span_string (\<not> esc \<and> c = bslash) s in (c # a, b)))"

definition value_end :: "char \<Rightarrow> bool" where
  "value_end c \<longleftrightarrow> json_space c \<or> c = CHR '','' \<or> c = CHR ''}'' \<or> c = CHR '']''"

definition span_value :: "string \<Rightarrow> string \<times> string" where
  "span_value s = (case s of
     [] \<Rightarrow> ([], [])
   | c # r \<Rightarrow>
       if c = dquote then (let (a, b) = span_string False r in (c # a, b))
       else if c = CHR ''{'' \<or> c = CHR ''['' then span_nested False False 0 s
       else (takeWhile (\<lambda>x. \<not> value_end x) s, dropWhile (\<lambda>x. \<not> value_end x) s))"

text \<open>The members of an object, after its opening brace; the number bounds how many there can be.\<close>

fun members :: "nat \<Rightarrow> string \<Rightarrow> (string \<times> string) list option" where
  "members 0 s = None"
| "members (Suc n) s =
     (let s1 = skip_space s in
      if take 1 s1 = ''}'' then Some []
      else (let (k, s2) = span_value s1;
                s3 = skip_space s2;
                (v, s4) = span_value (skip_space (drop 1 s3));
                s5 = skip_space s4
            in case unquote_json k of
                 None \<Rightarrow> None
               | Some key \<Rightarrow>
                   if take 1 s5 = '','' then map_option (Cons (key, v)) (members n (drop 1 s5))
                   else Some [(key, v)]))"

text \<open>Case folding of keys: the two runes outside ASCII that fold to ASCII letters included.\<close>

definition fold_rune :: "nat \<Rightarrow> nat" where
  "fold_rune r = (if 97 \<le> r \<and> r \<le> 122 then r - 32 else if r = 0x17F then 83
     else if r = 0x212A then 75 else r)"

definition fold_name :: "string \<Rightarrow> nat list" where
  "fold_name s = map (\<lambda>p. fold_rune (fst p)) (runes s)"

definition find_field :: "string list \<Rightarrow> string \<Rightarrow> string option" where
  "find_field names key =
     (if key \<in> set names then Some key
      else List.find (\<lambda>n. fold_name n = fold_name key) names)"

text \<open>Setting a string field: \<^verbatim>\<open>null\<close> is ignored, any other value that is no string is a type error.\<close>

definition read_string :: "string \<Rightarrow> string \<Rightarrow> gerr + string" where
  "read_string v old =
     (if v = ''null'' then Inr old
      else if take 1 v = [dquote] then
        (case unquote_json v of None \<Rightarrow> Inl (json_error ''invalid string literal'') | Some s \<Rightarrow> Inr s)
      else Inl (json_error ''cannot unmarshal value into string field''))"

definition read_time :: "string \<Rightarrow> gotime \<Rightarrow> gerr + gotime" where
  "read_time v old =
     (case unmarshal_time v old of
        None \<Rightarrow> Inl (json_error ''Time.UnmarshalJSON: input is not an RFC 3339 time'') | Some t \<Rightarrow> Inr t)"

text \<open>
  Decoding into a struct: \<open>set_field\<close> stores one member under one of the struct's names. A type
  error is remembered and the rest is still read; an error of a time ends the decoding at once.
  Either way the caller gets an error and drops the struct.
\<close>

fun apply_members ::
  "(string \<Rightarrow> string \<Rightarrow> 'm \<Rightarrow> gerr + 'm) \<Rightarrow> string list \<Rightarrow> (string \<times> string) list \<Rightarrow> 'm \<Rightarrow> gerr + 'm" where
  "apply_members set_field names [] m = Inr m"
| "apply_members set_field names ((k, v) # ms) m =
     (case find_field names k of
        None \<Rightarrow> apply_members set_field names ms m
      | Some n \<Rightarrow> (case set_field n v m of
          Inl err \<Rightarrow> Inl err
        | Inr m' \<Rightarrow> apply_members set_field names ms m'))"

definition unmarshal_struct ::
  "(string \<Rightarrow> string \<Rightarrow> 'm \<Rightarrow> gerr + 'm) \<Rightarrow> string list \<Rightarrow> 'm \<Rightarrow> bytes \<Rightarrow> gerr + 'm" where
  "unmarshal_struct set_field names m data =
     (if \<not> json_valid data then Inl (json_error ''invalid JSON'')
      else (let s = skip_space data in
        if take 1 s = ''{'' then
          (case members (length data) (drop 1 s) of
             None \<Rightarrow> Inl (json_error ''invalid object key'')
           | Some ms \<Rightarrow> apply_members set_field names ms m)
        else if take 4 s = ''null'' then Inr m
        else Inl (json_error ''cannot unmarshal value into struct'')))"

section \<open>The wire structs\<close>

definition zero_configure_notification :: configure_notification where
  "zero_configure_notification = \<lparr>cn_version = [], cn_rpc_id = [], cn_target = [], cn_command_type = [], cn_uuid = [], cn_kv_bucket = [], cn_kv_key = [], cn_timestamp = zero_time\<rparr>"

definition fields_configure_notification :: "configure_notification \<Rightarrow> json_field list" where
  "fields_configure_notification m = [
     FieldString ''version'' False (cn_version m),
     FieldString ''rpc_id'' False (cn_rpc_id m),
     FieldString ''target'' False (cn_target m),
     FieldString ''command_type'' False (cn_command_type m),
     FieldString ''uuid'' False (cn_uuid m),
     FieldString ''kv_bucket'' False (cn_kv_bucket m),
     FieldString ''kv_key'' False (cn_kv_key m),
     FieldTime ''timestamp'' (cn_timestamp m)]"

definition names_configure_notification :: "string list" where
  "names_configure_notification = [''version'', ''rpc_id'', ''target'', ''command_type'', ''uuid'', ''kv_bucket'', ''kv_key'', ''timestamp'']"

definition set_configure_notification :: "string \<Rightarrow> string \<Rightarrow> configure_notification \<Rightarrow> gerr + configure_notification" where
  "set_configure_notification n v m =
     (if n = ''version'' then (case read_string v (cn_version m) of Inl e \<Rightarrow> Inl e | Inr x \<Rightarrow> Inr (m\<lparr>cn_version := x\<rparr>))
      else if n = ''rpc_id'' then (case read_string v (cn_rpc_id m) of Inl e \<Rightarrow> Inl e | Inr x \<Rightarrow> Inr (m\<lparr>cn_rpc_id := x\<rparr>))
      else if n = ''target'' then (case read_string v (cn_target m) of Inl e \<Rightarrow> Inl e | Inr x \<Rightarrow> Inr (m\<lparr>cn_target := x\<rparr>))
      else if n = ''command_type'' then (case read_string v (cn_command_type m) of Inl e \<Rightarrow> Inl e | Inr x \<Rightarrow> Inr (m\<lparr>cn_command_type := x\<rparr>))
      else if n = ''uuid'' then (case read_string v (cn_uuid m) of Inl e \<Rightarrow> Inl e | Inr x \<Rightarrow> Inr (m\<lparr>cn_uuid := x\<rparr>))
      else if n = ''kv_bucket'' then (case read_string v (cn_kv_bucket m) of Inl e \<Rightarrow> Inl e | Inr x \<Rightarrow> Inr (m\<lparr>cn_kv_bucket := x\<rparr>))
      else if n = ''kv_key'' then (case read_string v (cn_kv_key m) of Inl e \<Rightarrow> Inl e | Inr x \<Rightarrow> Inr (m\<lparr>cn_kv_key := x\<rparr>))
      else (case read_time v (cn_timestamp m) of Inl e \<Rightarrow> Inl e | Inr t \<Rightarrow> Inr (m\<lparr>cn_timestamp := t\<rparr>)))"

definition marshal_configure_notification :: "configure_notification \<Rightarrow> gerr + bytes" where
  "marshal_configure_notification m = marshal_struct (fields_configure_notification m)"

definition unmarshal_configure_notification :: "bytes \<Rightarrow> gerr + configure_notification" where
  "unmarshal_configure_notification data =
     unmarshal_struct set_configure_notification names_configure_notification zero_configure_notification data"

definition zero_action_command :: action_command where
  "zero_action_command = \<lparr>ac_version = [], ac_rpc_id = [], ac_target = [], ac_command_type = [], ac_action = [], ac_payload = [], ac_timestamp = zero_time\<rparr>"

definition fields_action_command :: "action_command \<Rightarrow> json_field list" where
  "fields_action_command m = [
     FieldString ''version'' False (ac_version m),
     FieldString ''rpc_id'' False (ac_rpc_id m),
     FieldString ''target'' False (ac_target m),
     FieldString ''command_type'' False (ac_command_type m),
     FieldString ''action'' False (ac_action m),
     FieldRaw ''payload'' False (ac_payload m),
     FieldTime ''timestamp'' (ac_timestamp m)]"

definition names_action_command :: "string list" where
  "names_action_command = [''version'', ''rpc_id'', ''target'', ''command_type'', ''action'', ''payload'', ''timestamp'']"

definition set_action_command :: "string \<Rightarrow> string \<Rightarrow> action_command \<Rightarrow> gerr + action_command" where
  "set_action_command n v m =
     (if n = ''version'' then (case read_string v (ac_version m) of Inl e \<Rightarrow> Inl e | Inr x \<Rightarrow> Inr (m\<lparr>ac_version := x\<rparr>))
      else if n = ''rpc_id'' then (case read_string v (ac_rpc_id m) of Inl e \<Rightarrow> Inl e | Inr x \<Rightarrow> Inr (m\<lparr>ac_rpc_id := x\<rparr>))
      else if n = ''target'' then (case read_string v (ac_target m) of Inl e \<Rightarrow> Inl e | Inr x \<Rightarrow> Inr (m\<lparr>ac_target := x\<rparr>))
      else if n = ''command_type'' then (case read_string v (ac_command_type m) of Inl e \<Rightarrow> Inl e | Inr x \<Rightarrow> Inr (m\<lparr>ac_command_type := x\<rparr>))
      else if n = ''action'' then (case read_string v (ac_action m) of Inl e \<Rightarrow> Inl e | Inr x \<Rightarrow> Inr (m\<lparr>ac_action := x\<rparr>))
      else if n = ''payload'' then Inr (m\<lparr>ac_payload := v\<rparr>)
      else (case read_time v (ac_timestamp m) of Inl e \<Rightarrow> Inl e | Inr t \<Rightarrow> Inr (m\<lparr>ac_timestamp := t\<rparr>)))"

definition marshal_action_command :: "action_command \<Rightarrow> gerr + bytes" where
  "marshal_action_command m = marshal_struct (fields_action_command m)"

definition unmarshal_action_command :: "bytes \<Rightarrow> gerr + action_command" where
  "unmarshal_action_command data =
     unmarshal_struct set_action_command names_action_command zero_action_command data"

definition zero_result_envelope :: result_envelope where
  "zero_result_envelope = \<lparr>re_version = [], re_rpc_id = [], re_target = [], re_command_type = [], re_uuid = [], re_action = [], re_result = [], re_message = [], re_error_code = [], re_payload = [], re_timestamp = zero_time\<rparr>"

definition fields_result_envelope :: "result_envelope \<Rightarrow> json_field list" where
  "fields_result_envelope m = [
     FieldString ''version'' False (re_version m),
     FieldString ''rpc_id'' False (re_rpc_id m),
     FieldString ''target'' False (re_target m),
     FieldString ''command_type'' True (re_command_type m),
     FieldString ''uuid'' True (re_uuid m),
     FieldString ''action'' True (re_action m),
     FieldString ''result'' False (re_result m),
     FieldString ''message'' True (re_message m),
     FieldString ''error_code'' True (re_error_code m),
     FieldRaw ''payload'' True (re_payload m),
     FieldTime ''timestamp'' (re_timestamp m)]"

definition names_result_envelope :: "string list" where
  "names_result_envelope = [''version'', ''rpc_id'', ''target'', ''command_type'', ''uuid'', ''action'', ''result'', ''message'', ''error_code'', ''payload'', ''timestamp'']"

definition set_result_envelope :: "string \<Rightarrow> string \<Rightarrow> result_envelope \<Rightarrow> gerr + result_envelope" where
  "set_result_envelope n v m =
     (if n = ''version'' then (case read_string v (re_version m) of Inl e \<Rightarrow> Inl e | Inr x \<Rightarrow> Inr (m\<lparr>re_version := x\<rparr>))
      else if n = ''rpc_id'' then (case read_string v (re_rpc_id m) of Inl e \<Rightarrow> Inl e | Inr x \<Rightarrow> Inr (m\<lparr>re_rpc_id := x\<rparr>))
      else if n = ''target'' then (case read_string v (re_target m) of Inl e \<Rightarrow> Inl e | Inr x \<Rightarrow> Inr (m\<lparr>re_target := x\<rparr>))
      else if n = ''command_type'' then (case read_string v (re_command_type m) of Inl e \<Rightarrow> Inl e | Inr x \<Rightarrow> Inr (m\<lparr>re_command_type := x\<rparr>))
      else if n = ''uuid'' then (case read_string v (re_uuid m) of Inl e \<Rightarrow> Inl e | Inr x \<Rightarrow> Inr (m\<lparr>re_uuid := x\<rparr>))
      else if n = ''action'' then (case read_string v (re_action m) of Inl e \<Rightarrow> Inl e | Inr x \<Rightarrow> Inr (m\<lparr>re_action := x\<rparr>))
      else if n = ''result'' then (case read_string v (re_result m) of Inl e \<Rightarrow> Inl e | Inr x \<Rightarrow> Inr (m\<lparr>re_result := x\<rparr>))
      else if n = ''message'' then (case read_string v (re_message m) of Inl e \<Rightarrow> Inl e | Inr x \<Rightarrow> Inr (m\<lparr>re_message := x\<rparr>))
      else if n = ''error_code'' then (case read_string v (re_error_code m) of Inl e \<Rightarrow> Inl e | Inr x \<Rightarrow> Inr (m\<lparr>re_error_code := x\<rparr>))
      else if n = ''payload'' then Inr (m\<lparr>re_payload := v\<rparr>)
      else (case read_time v (re_timestamp m) of Inl e \<Rightarrow> Inl e | Inr t \<Rightarrow> Inr (m\<lparr>re_timestamp := t\<rparr>)))"

definition marshal_result_envelope :: "result_envelope \<Rightarrow> gerr + bytes" where
  "marshal_result_envelope m = marshal_struct (fields_result_envelope m)"

definition unmarshal_result_envelope :: "bytes \<Rightarrow> gerr + result_envelope" where
  "unmarshal_result_envelope data =
     unmarshal_struct set_result_envelope names_result_envelope zero_result_envelope data"

definition zero_status_envelope :: status_envelope where
  "zero_status_envelope = \<lparr>se_version = [], se_rpc_id = [], se_target = [], se_uuid = [], se_status = [], se_stage = [], se_message = [], se_payload = [], se_timestamp = zero_time\<rparr>"

definition fields_status_envelope :: "status_envelope \<Rightarrow> json_field list" where
  "fields_status_envelope m = [
     FieldString ''version'' False (se_version m),
     FieldString ''rpc_id'' True (se_rpc_id m),
     FieldString ''target'' False (se_target m),
     FieldString ''uuid'' True (se_uuid m),
     FieldString ''status'' False (se_status m),
     FieldString ''stage'' True (se_stage m),
     FieldString ''message'' True (se_message m),
     FieldRaw ''payload'' True (se_payload m),
     FieldTime ''timestamp'' (se_timestamp m)]"

definition names_status_envelope :: "string list" where
  "names_status_envelope = [''version'', ''rpc_id'', ''target'', ''uuid'', ''status'', ''stage'', ''message'', ''payload'', ''timestamp'']"

definition set_status_envelope :: "string \<Rightarrow> string \<Rightarrow> status_envelope \<Rightarrow> gerr + status_envelope" where
  "set_status_envelope n v m =
     (if n = ''version'' then (case read_string v (se_version m) of Inl e \<Rightarrow> Inl e | Inr x \<Rightarrow> Inr (m\<lparr>se_version := x\<rparr>))
      else if n = ''rpc_id'' then (case read_string v (se_rpc_id m) of Inl e \<Rightarrow> Inl e | Inr x \<Rightarrow> Inr (m\<lparr>se_rpc_id := x\<rparr>))
      else if n = ''target'' then (case read_string v (se_target m) of Inl e \<Rightarrow> Inl e | Inr x \<Rightarrow> Inr (m\<lparr>se_target := x\<rparr>))
      else if n = ''uuid'' then (case read_string v (se_uuid m) of Inl e \<Rightarrow> Inl e | Inr x \<Rightarrow> Inr (m\<lparr>se_uuid := x\<rparr>))
      else if n = ''status'' then (case read_string v (se_status m) of Inl e \<Rightarrow> Inl e | Inr x \<Rightarrow> Inr (m\<lparr>se_status := x\<rparr>))
      else if n = ''stage'' then (case read_string v (se_stage m) of Inl e \<Rightarrow> Inl e | Inr x \<Rightarrow> Inr (m\<lparr>se_stage := x\<rparr>))
      else if n = ''message'' then (case read_string v (se_message m) of Inl e \<Rightarrow> Inl e | Inr x \<Rightarrow> Inr (m\<lparr>se_message := x\<rparr>))
      else if n = ''payload'' then Inr (m\<lparr>se_payload := v\<rparr>)
      else (case read_time v (se_timestamp m) of Inl e \<Rightarrow> Inl e | Inr t \<Rightarrow> Inr (m\<lparr>se_timestamp := t\<rparr>)))"

definition marshal_status_envelope :: "status_envelope \<Rightarrow> gerr + bytes" where
  "marshal_status_envelope m = marshal_struct (fields_status_envelope m)"

definition unmarshal_status_envelope :: "bytes \<Rightarrow> gerr + status_envelope" where
  "unmarshal_status_envelope data =
     unmarshal_struct set_status_envelope names_status_envelope zero_status_envelope data"

text \<open>\<^verbatim>\<open>kv.DesiredConfigRecord\<close> has no tags: its keys are the Go field names.\<close>

definition zero_desired_config_record :: desired_config_record where
  "zero_desired_config_record = \<lparr>dr_version = [], dr_rpc_id = [], dr_target = [], dr_uuid = [], dr_payload = [], dr_timestamp = zero_time\<rparr>"

definition fields_desired_config_record :: "desired_config_record \<Rightarrow> json_field list" where
  "fields_desired_config_record m = [
     FieldString ''Version'' False (dr_version m),
     FieldString ''RPCID'' False (dr_rpc_id m),
     FieldString ''Target'' False (dr_target m),
     FieldString ''UUID'' False (dr_uuid m),
     FieldRaw ''Payload'' False (dr_payload m),
     FieldTime ''Timestamp'' (dr_timestamp m)]"

definition names_desired_config_record :: "string list" where
  "names_desired_config_record = [''Version'', ''RPCID'', ''Target'', ''UUID'', ''Payload'', ''Timestamp'']"

definition set_desired_config_record :: "string \<Rightarrow> string \<Rightarrow> desired_config_record \<Rightarrow> gerr + desired_config_record" where
  "set_desired_config_record n v m =
     (if n = ''Version'' then (case read_string v (dr_version m) of Inl e \<Rightarrow> Inl e | Inr x \<Rightarrow> Inr (m\<lparr>dr_version := x\<rparr>))
      else if n = ''RPCID'' then (case read_string v (dr_rpc_id m) of Inl e \<Rightarrow> Inl e | Inr x \<Rightarrow> Inr (m\<lparr>dr_rpc_id := x\<rparr>))
      else if n = ''Target'' then (case read_string v (dr_target m) of Inl e \<Rightarrow> Inl e | Inr x \<Rightarrow> Inr (m\<lparr>dr_target := x\<rparr>))
      else if n = ''UUID'' then (case read_string v (dr_uuid m) of Inl e \<Rightarrow> Inl e | Inr x \<Rightarrow> Inr (m\<lparr>dr_uuid := x\<rparr>))
      else if n = ''Payload'' then Inr (m\<lparr>dr_payload := v\<rparr>)
      else (case read_time v (dr_timestamp m) of Inl e \<Rightarrow> Inl e | Inr t \<Rightarrow> Inr (m\<lparr>dr_timestamp := t\<rparr>)))"

definition marshal_desired_config_record :: "desired_config_record \<Rightarrow> gerr + bytes" where
  "marshal_desired_config_record m = marshal_struct (fields_desired_config_record m)"

definition unmarshal_desired_config_record :: "bytes \<Rightarrow> gerr + desired_config_record" where
  "unmarshal_desired_config_record data =
     unmarshal_struct set_desired_config_record names_desired_config_record zero_desired_config_record data"

end
