(* ===== verification/Kv.thy ===== *)
theory Kv
  imports Subjects Json_Codec Sample_World
begin

text \<open>
  The desired-configuration store, \<^verbatim>\<open>internal/kv\<close>: keys, the stored record's codec, storing and
  loading (\<^verbatim>\<open>store.go\<close>, \<^verbatim>\<open>helpers.go\<close>) and watching (\<^verbatim>\<open>watch.go\<close>). What the store needs of the
  session layer is the interface \<^verbatim>\<open>RuntimeProvider\<close>: the fields of \<open>kv_store\<close>, whose laws are the
  locale \<open>runtime_provider\<close>.
\<close>

section \<open>Keys\<close>

definition kv_validate_token :: "string \<Rightarrow> string \<Rightarrow> string \<Rightarrow> gerr option" where
  "kv_validate_token op field value =
     (if blank value then Some (rt_validation_error op (field @ '' is required''))
      else if contains_any value ws_chars
        then Some (rt_validation_error op (field @ '' cannot contain whitespace''))
      else if contains_char value (CHR ''.'')
        then Some (rt_validation_error op (field @ '' cannot contain '' @ [CHR 0x27] @ ''.'' @ [CHR 0x27]))
      else if contains_char value (CHR ''*'') \<or> contains_char value (CHR ''>'')
        then Some (rt_validation_error op (field @ '' cannot contain wildcard tokens''))
      else if \<not> list_all (\<lambda>(r, _). token_rune r) (runes value)
        then Some (rt_validation_error op (field @ '' contains unsupported characters''))
      else None)"

definition build_desired_config_key :: "string \<Rightarrow> string \<Rightarrow> gerr + string" where
  "build_desired_config_key pattern target =
     (let op = ''build_desired_config_key''; trimmed = trim_space pattern in
      if trimmed = []
        then Inl (rt_validation_error op ''kv key pattern is required'')
      else if contains_any trimmed ws_chars
        then Inl (rt_validation_error op ''kv key pattern cannot contain whitespace'')
      else if count_verbs trimmed \<noteq> 1
        then Inl (rt_validation_error op ''kv key pattern must contain exactly one %s placeholder'')
      else if contains_char (remove_verbs trimmed) (CHR ''%'')
        then Inl (rt_validation_error op ''kv key pattern contains unsupported format directives'')
      else (case kv_validate_token ''validate_target'' ''target'' target of
              Some err \<Rightarrow> Inl err
            | None \<Rightarrow> Inr (sprintf trimmed [target])))"

definition kv_store_error :: "string \<Rightarrow> string \<Rightarrow> gerr option \<Rightarrow> gerr" where
  "kv_store_error op msg cause = RtError RtKVStoreFailed op [] [] msg True cause"

definition kv_read_error :: "string \<Rightarrow> string \<Rightarrow> gerr option \<Rightarrow> gerr" where
  "kv_read_error op msg cause = RtError RtKVReadFailed op [] [] msg True cause"

section \<open>The stored record\<close>

definition validate_desired_config_record :: "desired_config_record \<Rightarrow> gerr option" where
  "validate_desired_config_record rec =
     (let op = ''validate_desired_config_record'' in
      if blank (dr_version rec) then Some (rt_validation_error op ''version is required'')
      else if blank (dr_rpc_id rec) then Some (rt_validation_error op ''rpc_id is required'')
      else if blank (dr_target rec) then Some (rt_validation_error op ''target is required'')
      else if blank (dr_uuid rec) then Some (rt_validation_error op ''uuid is required'')
      else if is_zero_time (dr_timestamp rec) then Some (rt_validation_error op ''timestamp is required'')
      else if dr_payload rec = [] then Some (rt_validation_error op ''payload is required'')
      else if \<not> json_valid (dr_payload rec)
        then Some (rt_validation_error op ''payload must contain valid JSON'')
      else kv_validate_token ''validate_target'' ''target'' (dr_target rec))"

definition encode_desired_config_record :: "desired_config_record \<Rightarrow> gerr + bytes" where
  "encode_desired_config_record rec =
     (case validate_desired_config_record rec of
        Some err \<Rightarrow> Inl err
      | None \<Rightarrow> (case marshal_desired_config_record rec of
          Inl err \<Rightarrow> Inl (RtError RtEncodeFailed ''store_desired_config'' [] []
             ''failed to encode desired config'' False (Some err))
        | Inr payload \<Rightarrow> Inr payload))"

definition decode_desired_config_record :: "bytes \<Rightarrow> gerr + desired_config_record" where
  "decode_desired_config_record data =
     (if data = [] then Inl (rt_validation_error ''load_desired_config'' ''payload is required'')
      else (case unmarshal_desired_config_record data of
          Inl err \<Rightarrow> Inl (RtError RtDecodeFailed ''load_desired_config'' [] []
             ''failed to decode desired config'' False (Some err))
        | Inr rec \<Rightarrow> (case validate_desired_config_record rec of
            Some err \<Rightarrow> Inl err | None \<Rightarrow> Inr rec)))"

section \<open>Storing and loading\<close>

record 'e kv_store =
  ks_key_value :: "'e world \<Rightarrow> (gerr + kv_handle) \<times> 'e world"
  ks_bucket :: string
  ks_key_pattern :: string
  ks_kv_timeout :: duration
  ks_shutdown_timeout :: duration
  ks_error_sink :: error_sink

definition new_kv_store :: "'e kv_store option \<Rightarrow> gerr + 'e kv_store" where
  "new_kv_store runtime = (case runtime of
     None \<Rightarrow> Inl (rt_validation_error ''new_kv_store'' ''runtime provider is required'')
   | Some s \<Rightarrow> Inr s)"

definition kv_with_timeout :: "gctx option \<Rightarrow> duration \<Rightarrow> gctx" where
  "kv_with_timeout mctx timeout =
     (let ctx = (case mctx of None \<Rightarrow> CtxBackground | Some c \<Rightarrow> c) in
      if ctx_has_deadline ctx \<or> timeout \<le> 0 then ctx else CtxTimeout ctx timeout)"

definition is_config_not_found :: "gerr \<Rightarrow> bool" where
  "is_config_not_found err =
     (if errors_is err NatsErrKeyNotFound \<or> errors_is err NatsErrKeyDeleted \<or>
         errors_is err JsErrKeyNotFound \<or> errors_is err JsErrKeyDeleted then True
      else (let message = to_lower (error_text err) in
            contains message ''key not found'' \<or> contains message ''key was deleted''))"

definition kv_report :: "'e kv_store \<Rightarrow> gerr \<Rightarrow> 'e world \<Rightarrow> 'e world" where
  "kv_report s err w = sink_error (ks_error_sink s) err w"

text \<open>The reread after a successful write only refines the creation time.\<close>

definition stored_created_at ::
  "'e kv_store \<Rightarrow> gerr + kv_entry \<Rightarrow> u64 \<Rightarrow> gotime \<Rightarrow> 'e world \<Rightarrow> gotime \<times> 'e world" where
  "stored_created_at s got revision timestamp w =
     (case got of
        Inr entry \<Rightarrow>
          (if ke_revision entry = revision \<and> \<not> is_zero_time (ke_created entry)
             then ke_created entry else timestamp, w)
      | Inl err \<Rightarrow> (timestamp, kv_report s (kv_read_error ''store_desired_config_post_read''
           ''stored config metadata lookup failed'' (Some err)) w))"

definition store_desired_config ::
  "'e ext \<Rightarrow> 'e kv_store \<Rightarrow> gctx option \<Rightarrow> desired_config_record \<Rightarrow> 'e world \<Rightarrow>
   (gerr + stored_desired_config) \<times> 'e world" where
  "store_desired_config X s mctx rec w =
     (case validate_desired_config_record rec of
        Some err \<Rightarrow> (Inl err, w)
      | None \<Rightarrow>
     (case build_desired_config_key (ks_key_pattern s) (dr_target rec) of
        Inl err \<Rightarrow> (Inl err, w)
      | Inr key \<Rightarrow>
     (let (h, w1) = ks_key_value s w in
      case h of
        Inl err \<Rightarrow> (Inl err, w1)
      | Inr kv \<Rightarrow>
     (case encode_desired_config_record rec of
        Inl err \<Rightarrow> (Inl err, w1)
      | Inr payload \<Rightarrow>
     (let ctx = kv_with_timeout mctx (ks_kv_timeout s);
          (p, w2) = perform (EvKVPut kv key payload) (x_kv_put X kv ctx key payload) w1
      in case p of
        Inl err \<Rightarrow> (Inl (kv_store_error ''store_desired_config''
             ''failed to write desired config to KV'' (Some err)), w2)
      | Inr revision \<Rightarrow>
     (let (got, w3) = perform (EvKVGet kv key) (x_kv_get X kv ctx key) w2;
          (created, w4) = stored_created_at s got revision (dr_timestamp rec) w3
      in (Inr \<lparr>sd_record = rec, sd_bucket = ks_bucket s, sd_key = key, sd_revision = revision,
               sd_created_at = created, sd_deleted = False\<rparr>, w4)))))))"

definition load_desired_config ::
  "'e ext \<Rightarrow> 'e kv_store \<Rightarrow> gctx option \<Rightarrow> string \<Rightarrow> 'e world \<Rightarrow>
   (gerr + stored_desired_config) \<times> 'e world" where
  "load_desired_config X s mctx target w =
     (case build_desired_config_key (ks_key_pattern s) target of
        Inl err \<Rightarrow> (Inl err, w)
      | Inr key \<Rightarrow>
     (let (h, w1) = ks_key_value s w in
      case h of
        Inl err \<Rightarrow> (Inl err, w1)
      | Inr kv \<Rightarrow>
     (let ctx = kv_with_timeout mctx (ks_kv_timeout s);
          (got, w2) = perform (EvKVGet kv key) (x_kv_get X kv ctx key) w1
      in case got of
        Inl err \<Rightarrow>
          (if is_config_not_found err
             then (Inl (RtError RtConfigNotFound ''load_desired_config'' [] key
                    ''desired config not found'' False (Some err)), w2)
             else (Inl (kv_read_error ''load_desired_config''
                    ''failed to read desired config from KV'' (Some err)), w2))
      | Inr entry \<Rightarrow>
     (case decode_desired_config_record (ke_value entry) of
        Inl err \<Rightarrow> (Inl err, w2)
      | Inr rec \<Rightarrow>
          (Inr \<lparr>sd_record = rec, sd_bucket = ke_bucket entry, sd_key = ke_key entry,
                sd_revision = ke_revision entry,
                sd_created_at = (if \<not> is_zero_time (ke_created entry) then ke_created entry
                                 else dr_timestamp rec),
                sd_deleted = False\<rparr>, w2)))))"

section \<open>Watching: starting and stopping\<close>

text \<open>
  A running watch is its context and its watcher; the stop function that \<^verbatim>\<open>WatchDesiredConfig\<close>
  returns closes over them and runs once.
\<close>

record watch_stop =
  wt_ctx :: gctx
  wt_watcher :: watcher

definition effective_shutdown :: "'e kv_store \<Rightarrow> duration" where
  "effective_shutdown s = (if ks_shutdown_timeout s \<le> 0 then seconds 2 else ks_shutdown_timeout s)"

definition cancel_and_stop :: "watch_stop \<Rightarrow> 'e world \<Rightarrow> 'e world" where
  "cancel_and_stop st w = emit (EvStopWatcher (wt_watcher st)) (emit (EvCancel (wt_ctx st)) w)"

text \<open>The body of the stop function's \<^verbatim>\<open>once.Do\<close>.\<close>

definition stop_watch :: "'e ext \<Rightarrow> 'e kv_store \<Rightarrow> watch_stop \<Rightarrow> 'e world \<Rightarrow> gerr option \<times> 'e world" where
  "stop_watch X s st w =
     (let (finished, w1) = query (x_watch_done X (wt_watcher st) (effective_shutdown s)) (cancel_and_stop st w)
      in if finished then (None, w1)
         else (let err = kv_read_error ''watch_desired_config_stop_timeout''
                 ''desired-config watch stop timed out waiting for handler cleanup'' None
               in (Some err, kv_report s err w1)))"

definition watch_desired_config ::
  "'e ext \<Rightarrow> 'e kv_store \<Rightarrow> gctx option \<Rightarrow> string \<Rightarrow> nat option \<Rightarrow> 'e world \<Rightarrow>
   (gerr + watch_stop) \<times> 'e world" where
  "watch_desired_config X s mctx target handler w =
     (case handler of
        None \<Rightarrow> (Inl (rt_validation_error ''watch_desired_config'' ''watch handler is required''), w)
      | Some _ \<Rightarrow>
     (case build_desired_config_key (ks_key_pattern s) target of
        Inl err \<Rightarrow> (Inl err, w)
      | Inr key \<Rightarrow>
     (let (h, w1) = ks_key_value s w in
      case h of
        Inl err \<Rightarrow> (Inl err, w1)
      | Inr kv \<Rightarrow>
     (let (n, w2) = query (x_new_ctx X) w1;
          ctx = CtxCancel CtxBackground n;
          (r, w3) = perform (EvKVWatch kv key) (x_kv_watch X kv ctx key) w2
      in case r of
        Inl err \<Rightarrow> (Inl (kv_read_error ''watch_desired_config''
             ''failed to start desired-config watch'' (Some err)), emit (EvCancel ctx) w3)
      | Inr watcher \<Rightarrow>
     (let st = \<lparr>wt_ctx = ctx, wt_watcher = watcher\<rparr>;
          (ready, w4) = query (x_watch_ready X watcher (kv_with_timeout mctx (ks_kv_timeout s))) w3
      in case ready of
        None \<Rightarrow> (Inr st, w4)
      | Some err \<Rightarrow>
     (let (finished, w5) = query (x_watch_done X watcher (effective_shutdown s)) (cancel_and_stop st w4);
          w6 = (if finished then w5 else kv_report s (kv_read_error ''watch_desired_config_ready_timeout''
                  ''desired-config watch ready cleanup timed out'' None) w5)
      in (Inl (kv_read_error ''watch_desired_config''
            ''desired-config watch did not become ready'' (Some err)), w6)))))))"

section \<open>Watching: the consumer\<close>

text \<open>
  What the consumer goroutine can receive, and its state: whether the initial values are over,
  and those it has buffered until then.
\<close>

datatype watch_input = InCtxDone | InClosed | InInitDone | InEntry kv_entry

record watch_state =
  ws_ready :: bool
  ws_buffer :: "stored_desired_config list"
  ws_done :: bool

definition initial_watch :: watch_state where
  "initial_watch = \<lparr>ws_ready = False, ws_buffer = [], ws_done = False\<rparr>"

definition entry_deleted :: "kv_entry \<Rightarrow> bool" where
  "entry_deleted e \<longleftrightarrow> ke_operation e = KvDelete \<or> ke_operation e = KvPurge \<or> ke_value e = []"

text \<open>What an entry says, or why it cannot be read.\<close>

definition watch_value :: "string \<Rightarrow> kv_entry \<Rightarrow> gerr + stored_desired_config" where
  "watch_value target e =
     (case (if entry_deleted e then Inr (zero_desired_config_record\<lparr>dr_target := target\<rparr>)
            else decode_desired_config_record (ke_value e)) of
        Inl err \<Rightarrow> Inl err
      | Inr rec \<Rightarrow> Inr \<lparr>sd_record = rec, sd_bucket = ke_bucket e, sd_key = ke_key e,
          sd_revision = ke_revision e,
          sd_created_at = (if \<not> is_zero_time (ke_created e) then ke_created e else dr_timestamp rec),
          sd_deleted = entry_deleted e\<rparr>)"

definition deliver ::
  "'e ext \<Rightarrow> 'e kv_store \<Rightarrow> nat \<Rightarrow> stored_desired_config \<Rightarrow> 'e world \<Rightarrow> 'e world" where
  "deliver X s handler stored w =
     (let (r, w1) = perform (EvWatchHandler handler stored) (x_watch_handler X handler stored) w
      in case r of
           None \<Rightarrow> w1
         | Some err \<Rightarrow> kv_report s (kv_read_error ''watch_desired_config_handler''
             ''desired-config watch handler returned error'' (Some err)) w1)"

fun deliver_all ::
  "'e ext \<Rightarrow> 'e kv_store \<Rightarrow> nat \<Rightarrow> stored_desired_config list \<Rightarrow> 'e world \<Rightarrow> 'e world" where
  "deliver_all X s handler [] w = w"
| "deliver_all X s handler (x # xs) w = deliver_all X s handler xs (deliver X s handler x w)"

definition consume_step ::
  "'e ext \<Rightarrow> 'e kv_store \<Rightarrow> string \<Rightarrow> nat \<Rightarrow> gctx \<Rightarrow> watch_input \<Rightarrow> watch_state \<Rightarrow> 'e world \<Rightarrow>
   watch_state \<times> 'e world" where
  "consume_step X s target handler ctx inp st w =
     (case inp of
        InCtxDone \<Rightarrow> (st\<lparr>ws_done := True\<rparr>, w)
      | InClosed \<Rightarrow>
          (let (ce, w1) = query (x_ctx_err X ctx) w in
           (st\<lparr>ws_done := True\<rparr>,
            if ce = None then kv_report s (kv_read_error ''watch_desired_config_terminated''
               ''desired-config watcher terminated unexpectedly'' None) w1 else w1))
      | InInitDone \<Rightarrow>
          (st\<lparr>ws_buffer := [], ws_ready := True\<rparr>, deliver_all X s handler (ws_buffer st) w)
      | InEntry e \<Rightarrow>
          (case watch_value target e of
             Inl err \<Rightarrow> (st, kv_report s (kv_read_error ''watch_desired_config_decode''
                ''failed to decode desired-config watch entry'' (Some err)) w)
           | Inr stored \<Rightarrow>
               if \<not> ws_ready st then (st\<lparr>ws_buffer := ws_buffer st @ [stored]\<rparr>, w)
               else (st, deliver X s handler stored w)))"

text \<open>The goroutine's loop over the inputs in the order it receives them.\<close>

fun consume_watch ::
  "'e ext \<Rightarrow> 'e kv_store \<Rightarrow> string \<Rightarrow> nat \<Rightarrow> gctx \<Rightarrow> watch_input list \<Rightarrow> watch_state \<Rightarrow> 'e world \<Rightarrow>
   watch_state \<times> 'e world" where
  "consume_watch X s target handler ctx [] st w = (st, w)"
| "consume_watch X s target handler ctx (i # is) st w =
     (if ws_done st then (st, w)
      else (let (st1, w1) = consume_step X s target handler ctx i st w
            in consume_watch X s target handler ctx is st1 w1))"

section \<open>Keys and tokens\<close>

lemma kv_validate_target: "kv_validate_token ''validate_target'' ''target'' t = validate_target t"
  by (simp add: kv_validate_token_def validate_target_def validate_token_def)

text \<open>What the session layer accepts as a key pattern is exactly what the store can expand.\<close>

lemma build_key_eq:
  assumes "validate_key_pattern p = None" and "trim_space p = p" and "p \<noteq> []"
  shows "build_desired_config_key p t =
    (case validate_target t of Some err \<Rightarrow> Inl err | None \<Rightarrow> Inr (sprintf p [t]))"
  using assms
  by (auto simp: build_desired_config_key_def validate_key_pattern_def Let_def kv_validate_target
      split: if_splits)

lemma key_pattern_render:
  assumes "validate_key_pattern p = None"
  obtains a b where "p = a @ ''%s'' @ b" and "\<forall>x. sprintf p [x] = a @ x @ b"
proof -
  have "count_verbs p = 1" "CHR ''%'' \<notin> set (remove_verbs p)"
    using assms by (auto simp: validate_key_pattern_def contains_char_iff split: if_splits)
  then show thesis by (rule sprintf_one) (rule that)
qed

section \<open>The contract with the session layer\<close>

text \<open>
  Resolving the bucket leaves no trace, and a provider in good order has a usable key pattern and
  positive timeouts.
\<close>

locale runtime_provider =
  fixes provider :: "'m \<Rightarrow> 'e kv_store" and ok :: "'m \<Rightarrow> bool"
  assumes key_value_silent: "w_trace (snd (ks_key_value (provider m) w)) = w_trace w"
    and pattern_ok: "ok m \<Longrightarrow> validate_key_pattern (ks_key_pattern (provider m)) = None \<and>
      trim_space (ks_key_pattern (provider m)) = ks_key_pattern (provider m) \<and>
      ks_key_pattern (provider m) \<noteq> []"
    and timeouts_positive: "ok m \<Longrightarrow> 0 < ks_kv_timeout (provider m) \<and> 0 < ks_shutdown_timeout (provider m)"
begin

lemma bucket_trace: "ks_key_value (provider m) w = (r, w') \<Longrightarrow> w_trace w' = w_trace w"
  using key_value_silent [of m w] by simp

lemma key_eq:
  assumes "ok m"
  shows "build_desired_config_key (ks_key_pattern (provider m)) t =
    (case validate_target t of Some err \<Rightarrow> Inl err | None \<Rightarrow> Inr (sprintf (ks_key_pattern (provider m)) [t]))"
  using pattern_ok [OF assms] by (intro build_key_eq) simp_all

lemma key_inject:
  assumes "ok m" and "build_desired_config_key (ks_key_pattern (provider m)) t = Inr k"
    and "build_desired_config_key (ks_key_pattern (provider m)) u = Inr k"
  shows "t = u"
proof -
  obtain a b where "\<forall>x. sprintf (ks_key_pattern (provider m)) [x] = a @ x @ b"
    using key_pattern_render pattern_ok [OF assms(1)] by metis
  then show ?thesis using assms(2,3) unfolding key_eq [OF assms(1)]
    by (auto split: option.splits)
qed

text \<open>Every outcome of a write: refused before any request, failed at the bucket, or stored.\<close>

lemma store_cases:
  assumes "store_desired_config X (provider m) mctx rec w = (r, w')"
  obtains
    (refused) err where "r = Inl err" "adds w w' []"
  | (failed) kv key payload err where
      "r = Inl (kv_store_error ''store_desired_config'' ''failed to write desired config to KV'' (Some err))"
      "adds w w' [EvKVPut kv key payload (Inl err)]"
  | (stored) kv key payload revision created got reports where
      "r = Inr \<lparr>sd_record = rec, sd_bucket = ks_bucket (provider m), sd_key = key,
         sd_revision = revision, sd_created_at = created, sd_deleted = False\<rparr>"
      "build_desired_config_key (ks_key_pattern (provider m)) (dr_target rec) = Inr key"
      "encode_desired_config_record rec = Inr payload"
      "adds w w' (EvKVPut kv key payload (Inr revision) # EvKVGet kv key got # reports)"
      "\<forall>ev \<in> set reports. \<exists>err. ev = EvErrorSink err"
proof (cases "validate_desired_config_record rec")
  case (Some err)
  then show thesis using assms refused [of err] by (simp add: store_desired_config_def)
next
  case valid: None
  show thesis
  proof (cases "build_desired_config_key (ks_key_pattern (provider m)) (dr_target rec)")
    case (Inl err)
    then show thesis using assms valid refused [of err] by (simp add: store_desired_config_def)
  next
    case key: (Inr key)
    obtain h w1 where h: "ks_key_value (provider m) w = (h, w1)" by fastforce
    note t1 = bucket_trace [OF h]
    show thesis
    proof (cases h)
      case (Inl err)
      then show thesis using assms valid key h t1
        by (intro refused [of err]) (auto simp: store_desired_config_def adds_def)
    next
      case kv: (Inr kv)
      show thesis
      proof (cases "encode_desired_config_record rec")
        case (Inl err)
        then show thesis using assms valid key h kv t1
          by (intro refused [of err]) (auto simp: store_desired_config_def adds_def)
      next
        case payload: (Inr payload)
        let ?ctx = "kv_with_timeout mctx (ks_kv_timeout (provider m))"
        obtain p w2 where p: "perform (EvKVPut kv key payload) (x_kv_put X kv ?ctx key payload) w1 = (p, w2)"
          by fastforce
        note t2 = perform_trace [OF p]
        show thesis
        proof (cases p)
          case (Inl err)
          then show thesis using assms valid key h kv payload p t1 t2
            by (intro failed [of err kv key payload]) (auto simp: store_desired_config_def adds_def)
        next
          case rev: (Inr revision)
          obtain got w3 where g: "perform (EvKVGet kv key) (x_kv_get X kv ?ctx key) w2 = (got, w3)" by fastforce
          note t3 = perform_trace [OF g]
          obtain created w4 where c: "stored_created_at (provider m) got revision (dr_timestamp rec) w3 = (created, w4)"
            by fastforce
          define reports where "reports = drop (length (w_trace w3)) (w_trace w4)"
          have t4: "w_trace w4 = w_trace w3 @ reports" "\<forall>ev \<in> set reports. \<exists>err. ev = EvErrorSink err"
            using c by (auto simp: reports_def stored_created_at_def kv_report_def
                split: sum.splits option.splits)
          show thesis
            by (rule stored [of key revision created payload kv got reports])
              (use assms valid key h kv payload p rev g c t1 t2 t3 t4
                in \<open>auto simp: store_desired_config_def adds_def\<close>)
        qed
      qed
    qed
  qed
qed

text \<open>Every outcome of a read.\<close>

lemma load_cases:
  assumes "load_desired_config X (provider m) mctx target w = (r, w')"
  obtains
    (refused) err where "r = Inl err" "adds w w' []"
  | (missing) kv key err where
      "r = Inl (RtError RtConfigNotFound ''load_desired_config'' [] key ''desired config not found'' False (Some err))"
      "is_config_not_found err" "adds w w' [EvKVGet kv key (Inl err)]"
  | (failed) kv key err where
      "r = Inl (kv_read_error ''load_desired_config'' ''failed to read desired config from KV'' (Some err))"
      "\<not> is_config_not_found err" "adds w w' [EvKVGet kv key (Inl err)]"
  | (undecodable) kv key entry err where "r = Inl err" "decode_desired_config_record (ke_value entry) = Inl err"
      "adds w w' [EvKVGet kv key (Inr entry)]"
  | (loaded) kv key entry rec where
      "r = Inr \<lparr>sd_record = rec, sd_bucket = ke_bucket entry, sd_key = ke_key entry,
         sd_revision = ke_revision entry,
         sd_created_at = (if \<not> is_zero_time (ke_created entry) then ke_created entry else dr_timestamp rec),
         sd_deleted = False\<rparr>"
      "decode_desired_config_record (ke_value entry) = Inr rec"
      "build_desired_config_key (ks_key_pattern (provider m)) target = Inr key"
      "adds w w' [EvKVGet kv key (Inr entry)]"
proof (cases "build_desired_config_key (ks_key_pattern (provider m)) target")
  case (Inl err)
  then show thesis using assms refused [of err] by (simp add: load_desired_config_def)
next
  case key: (Inr key)
  obtain h w1 where h: "ks_key_value (provider m) w = (h, w1)" by fastforce
  note t1 = bucket_trace [OF h]
  show thesis
  proof (cases h)
    case (Inl err)
    then show thesis using assms key h t1
      by (intro refused [of err]) (auto simp: load_desired_config_def adds_def)
  next
    case kv: (Inr kv)
    obtain got w2 where g: "perform (EvKVGet kv key)
        (x_kv_get X kv (kv_with_timeout mctx (ks_kv_timeout (provider m))) key) w1 = (got, w2)"
      by fastforce
    note t2 = perform_trace [OF g]
    show thesis
    proof (cases got)
      case (Inl err)
      then show thesis using assms key h kv g t1 t2
        by (cases "is_config_not_found err")
          (auto simp: load_desired_config_def adds_def intro: missing [of key err kv] failed [of err kv key])
    next
      case (Inr entry)
      show thesis
      proof (cases "decode_desired_config_record (ke_value entry)")
        case (Inl err)
        then show thesis using assms key h kv g t1 t2 Inr
          by (intro undecodable [of err entry kv key]) (auto simp: load_desired_config_def adds_def)
      next
        case (Inr rec)
        then show thesis using assms key h kv g t1 t2 \<open>got = Inr entry\<close>
          by (intro loaded [of rec entry key kv]) (auto simp: load_desired_config_def adds_def)
      qed
    qed
  qed
qed

text \<open>Every outcome of starting a watch; a watch that is not handed out is cancelled and stopped.\<close>

lemma watch_cases:
  assumes "watch_desired_config X (provider m) mctx target handler w = (r, w')"
  obtains
    (refused) err where "r = Inl err" "adds w w' []"
  | (failed) kv key ctx err where "r = Inl (kv_read_error ''watch_desired_config''
       ''failed to start desired-config watch'' (Some err))"
      "adds w w' [EvKVWatch kv key (Inl err), EvCancel ctx]"
  | (abandoned) kv key ctx watcher err reports where "r = Inl (kv_read_error ''watch_desired_config''
       ''desired-config watch did not become ready'' (Some err))"
      "adds w w' (EvKVWatch kv key (Inr watcher) # EvCancel ctx # EvStopWatcher watcher # reports)"
      "\<forall>ev \<in> set reports. \<exists>e. ev = EvErrorSink e"
  | (running) kv key st where "r = Inr st" "handler \<noteq> None"
      "build_desired_config_key (ks_key_pattern (provider m)) target = Inr key"
      "adds w w' [EvKVWatch kv key (Inr (wt_watcher st))]"
proof (cases "handler = None")
  case True
  then show thesis using assms refused by (auto simp: watch_desired_config_def)
next
  case hd: False
  then obtain hn where hn: "handler = Some hn" by blast
  show thesis
  proof (cases "build_desired_config_key (ks_key_pattern (provider m)) target")
    case (Inl err)
    then show thesis using assms hn refused [of err] by (simp add: watch_desired_config_def)
  next
    case key: (Inr key)
    obtain h w1 where h: "ks_key_value (provider m) w = (h, w1)" by fastforce
    note t1 = bucket_trace [OF h]
    show thesis
    proof (cases h)
      case (Inl err)
      then show thesis using assms hn key h t1
        by (intro refused [of err]) (auto simp: watch_desired_config_def adds_def)
    next
      case kv: (Inr kv)
      obtain n w2 where n: "query (x_new_ctx X) w1 = (n, w2)" by fastforce
      note t2 = query_trace [OF n]
      let ?ctx = "CtxCancel CtxBackground n"
      obtain s w3 where s: "perform (EvKVWatch kv key) (x_kv_watch X kv ?ctx key) w2 = (s, w3)" by fastforce
      note t3 = perform_trace [OF s]
      show thesis
      proof (cases s)
        case (Inl err)
        then show thesis using assms hn key h kv n s t1 t2 t3
          by (intro failed [of err kv key ?ctx]) (auto simp: watch_desired_config_def adds_def)
      next
        case wt: (Inr watcher)
        obtain ready w4 where rd: "query (x_watch_ready X watcher
            (kv_with_timeout mctx (ks_kv_timeout (provider m)))) w3 = (ready, w4)" by fastforce
        note t4 = query_trace [OF rd]
        show thesis
        proof (cases ready)
          case None
          then show thesis using assms hn key h kv n s wt rd t1 t2 t3 t4
            by (intro running [of "\<lparr>wt_ctx = ?ctx, wt_watcher = watcher\<rparr>" key kv])
              (auto simp: watch_desired_config_def adds_def)
        next
          case err: (Some err)
          let ?st = "\<lparr>wt_ctx = ?ctx, wt_watcher = watcher\<rparr>"
          obtain fin w5 where f: "query (x_watch_done X watcher (effective_shutdown (provider m)))
              (cancel_and_stop ?st w4) = (fin, w5)" by fastforce
          note t5 = query_trace [OF f]
          define reports where "reports = drop (length (w_trace w5)) (w_trace w')"
          have r: "r = Inl (kv_read_error ''watch_desired_config''
              ''desired-config watch did not become ready'' (Some err))"
            and w': "w' = (if fin then w5 else kv_report (provider m) (kv_read_error
              ''watch_desired_config_ready_timeout'' ''desired-config watch ready cleanup timed out'' None) w5)"
            using assms hn key h kv n s wt rd err f by (auto simp: watch_desired_config_def)
          have "w_trace w' = w_trace w5 @ reports" "\<forall>ev \<in> set reports. \<exists>e. ev = EvErrorSink e"
            unfolding w' reports_def by (auto simp: w' kv_report_def split: option.splits)
          then show thesis using r t1 t2 t3 t4 t5 wt
            by (intro abandoned [of err kv key watcher ?ctx reports])
              (auto simp: adds_def cancel_and_stop_def)
        qed
      qed
    qed
  qed
qed

end

section \<open>The consumer against its specification\<close>

text \<open>
  What a consumer should do with a sequence of inputs: it lives until the first sign that the watch
  is over; once the initial values are complete its handler has been given every readable entry,
  in the order of the inputs, and before that none.
\<close>

definition live_inputs :: "watch_input list \<Rightarrow> watch_input list" where
  "live_inputs is = takeWhile (\<lambda>i. i \<noteq> InCtxDone \<and> i \<noteq> InClosed) is"

fun readable :: "string \<Rightarrow> watch_input list \<Rightarrow> stored_desired_config list" where
  "readable target [] = []"
| "readable target (InEntry e # is) = (case watch_value target e of
     Inl _ \<Rightarrow> readable target is | Inr stored \<Rightarrow> stored # readable target is)"
| "readable target (_ # is) = readable target is"

definition delivered :: "string \<Rightarrow> watch_input list \<Rightarrow> stored_desired_config list" where
  "delivered target is =
     (if InInitDone \<in> set (live_inputs is) then readable target (live_inputs is) else [])"

text \<open>The deliveries a trace shows.\<close>

definition handed :: "nat \<Rightarrow> event list \<Rightarrow> stored_desired_config list" where
  "handed handler evs = List.map_filter (\<lambda>ev. case ev of
     EvWatchHandler h stored _ \<Rightarrow> if h = handler then Some stored else None | _ \<Rightarrow> None) evs"

lemma handed_simps [simp]:
  "handed h [] = []"
  "handed h (xs @ ys) = handed h xs @ handed h ys"
  "handed h (EvWatchHandler h stored r # evs) = stored # handed h evs"
  "handed h (EvErrorSink e # evs) = handed h evs"
  by (simp_all add: handed_def List.map_filter_def)

definition consumer_event :: "nat \<Rightarrow> event \<Rightarrow> bool" where
  "consumer_event handler ev = (case ev of
     EvWatchHandler h _ _ \<Rightarrow> h = handler | EvErrorSink _ \<Rightarrow> True | _ \<Rightarrow> False)"

lemma kv_report_adds:
  "\<exists>evs. adds w (kv_report s err w) evs \<and> handed h evs = [] \<and> list_all (consumer_event h) evs"
  by (auto simp: kv_report_def adds_def consumer_event_def split: option.splits)

lemma deliver_adds:
  "\<exists>evs. adds w (deliver X s h stored w) evs \<and> handed h evs = [stored] \<and> list_all (consumer_event h) evs"
proof -
  obtain r w1 where p: "perform (EvWatchHandler h stored) (x_watch_handler X h stored) w = (r, w1)" by fastforce
  note t = perform_trace [OF p]
  show ?thesis
  proof (cases r)
    case None
    then show ?thesis using p t by (auto simp: deliver_def adds_def consumer_event_def)
  next
    case (Some err)
    then have d: "deliver X s h stored w = kv_report s (kv_read_error ''watch_desired_config_handler''
      ''desired-config watch handler returned error'' (Some err)) w1"
      using p by (simp add: deliver_def)
    obtain evs where "adds w1 (deliver X s h stored w) evs" "handed h evs = []" "list_all (consumer_event h) evs"
      using kv_report_adds [of w1 s _ h] unfolding d by blast
    then show ?thesis
      using t by (intro exI [of _ "EvWatchHandler h stored r # evs"]) (simp add: adds_def consumer_event_def)
  qed
qed

lemma deliver_all_adds:
  "\<exists>evs. adds w (deliver_all X s h xs w) evs \<and> handed h evs = xs \<and> list_all (consumer_event h) evs"
proof (induction xs arbitrary: w)
  case Nil
  show ?case by (intro exI [of _ "[]"]) simp
next
  case (Cons x xs)
  obtain e1 where "adds w (deliver X s h x w) e1" "handed h e1 = [x]" "list_all (consumer_event h) e1"
    using deliver_adds by blast
  moreover obtain e2 where "adds (deliver X s h x w) (deliver_all X s h xs (deliver X s h x w)) e2"
    "handed h e2 = xs" "list_all (consumer_event h) e2"
    using Cons.IH by blast
  ultimately show ?case by (intro exI [of _ "e1 @ e2"]) (auto intro: adds_trans)
qed

text \<open>One step: what it delivers, and how it moves the state.\<close>

definition step_delivers :: "string \<Rightarrow> watch_input \<Rightarrow> watch_state \<Rightarrow> stored_desired_config list" where
  "step_delivers target i st = (case i of
     InInitDone \<Rightarrow> ws_buffer st
   | InEntry e \<Rightarrow> if ws_ready st then readable target [i] else []
   | _ \<Rightarrow> [])"

lemma consume_step_adds:
  assumes "consume_step X s target h ctx i st w = (st1, w1)"
  shows "\<exists>evs. adds w w1 evs \<and> handed h evs = step_delivers target i st \<and> list_all (consumer_event h) evs"
proof (cases i)
  case InCtxDone
  then show ?thesis using assms by (intro exI [of _ "[]"]) (auto simp: consume_step_def step_delivers_def)
next
  case InClosed
  obtain ce w2 where q: "query (x_ctx_err X ctx) w = (ce, w2)" by fastforce
  then have t: "w_trace w2 = w_trace w" by (rule query_trace)
  show ?thesis using assms InClosed q t kv_report_adds [of w2 s _ h]
    by (auto simp: consume_step_def step_delivers_def adds_def split: if_splits)
next
  case InInitDone
  then show ?thesis using assms deliver_all_adds [of w X s h "ws_buffer st"]
    by (auto simp: consume_step_def step_delivers_def)
next
  case (InEntry e)
  show ?thesis
  proof (cases "watch_value target e")
    case (Inl err)
    then show ?thesis using assms InEntry kv_report_adds [of w s _ h]
      by (auto simp: consume_step_def step_delivers_def)
  next
    case (Inr stored)
    then show ?thesis using assms InEntry deliver_adds [of w X s h stored]
      by (auto simp: consume_step_def step_delivers_def intro: exI [of _ "[]"] split: if_splits)
  qed
qed

lemma consume_step_state:
  assumes "consume_step X s target h ctx i st w = (st1, w1)" and "ws_ready st \<longrightarrow> ws_buffer st = []"
  shows "ws_done st1 = (ws_done st \<or> i = InCtxDone \<or> i = InClosed)"
    and "ws_ready st1 = (ws_ready st \<or> i = InInitDone)"
    and "ws_buffer st1 = (case i of InInitDone \<Rightarrow> []
      | InEntry e \<Rightarrow> if ws_ready st then [] else ws_buffer st @ readable target [i]
      | _ \<Rightarrow> ws_buffer st)"
  using assms by (auto simp: consume_step_def split: watch_input.splits sum.splits if_splits prod.splits)

lemma readable_Cons: "readable target (i # is) = readable target [i] @ readable target is"
  by (cases i) (auto split: sum.splits)

lemma live_inputs_Cons:
  "live_inputs (i # is) = (if i = InCtxDone \<or> i = InClosed then [] else i # live_inputs is)"
  by (simp add: live_inputs_def)

lemma consume_watch_done [simp]: "ws_done st \<Longrightarrow> consume_watch X s target h ctx is st w = (st, w)"
  by (cases "is") simp_all

text \<open>The invariant of the loop: what is buffered is still to be delivered.\<close>

lemma consume_watch_adds:
  assumes "consume_watch X s target h ctx is st w = (st', w')" and "\<not> ws_done st"
    and "ws_ready st \<longrightarrow> ws_buffer st = []"
  shows "\<exists>evs. adds w w' evs \<and> list_all (consumer_event h) evs \<and>
    handed h evs = (if ws_ready st \<or> InInitDone \<in> set (live_inputs is)
      then ws_buffer st @ readable target (live_inputs is) else [])"
  using assms
proof (induction "is" arbitrary: st w)
  case Nil
  then show ?case by (intro exI [of _ "[]"]) (auto simp: live_inputs_def)
next
  case (Cons i "is")
  obtain st1 w1 where step: "consume_step X s target h ctx i st w = (st1, w1)" by fastforce
  note state = consume_step_state [OF step Cons.prems(3)]
  obtain e1 where e1: "adds w w1 e1" "handed h e1 = step_delivers target i st" "list_all (consumer_event h) e1"
    using consume_step_adds [OF step] by blast
  have rest: "consume_watch X s target h ctx is st1 w1 = (st', w')"
    using Cons.prems(1,2) step by simp
  show ?case
  proof (cases "i = InCtxDone \<or> i = InClosed")
    case True
    with rest state(1) have "w' = w1" by simp
    then show ?thesis using e1 True Cons.prems(3)
      by (intro exI [of _ e1]) (auto simp: live_inputs_Cons step_delivers_def)
  next
    case False
    have "ws_ready st1 \<longrightarrow> ws_buffer st1 = []"
      using state(2,3) Cons.prems(3) False by (cases i) auto
    then obtain e2 where e2: "adds w1 w' e2" "list_all (consumer_event h) e2"
      "handed h e2 = (if ws_ready st1 \<or> InInitDone \<in> set (live_inputs is)
        then ws_buffer st1 @ readable target (live_inputs is) else [])"
      using Cons.IH [OF rest] state(1) Cons.prems(2) False by blast
    have "handed h (e1 @ e2) = (if ws_ready st \<or> InInitDone \<in> set (live_inputs (i # is))
        then ws_buffer st @ readable target (live_inputs (i # is)) else [])"
    proof (cases i)
      case (InEntry e)
      have "readable target (i # live_inputs is) = readable target [i] @ readable target (live_inputs is)"
        by (rule readable_Cons)
      then show ?thesis using e1(2) e2(3) state(2,3) InEntry Cons.prems(3)
        by (simp add: live_inputs_Cons step_delivers_def del: readable.simps)
    qed (use e1(2) e2(3) state(2,3) False Cons.prems(3) in \<open>simp_all add: live_inputs_Cons step_delivers_def\<close>)
    then show ?thesis using e1 e2 by (intro exI [of _ "e1 @ e2"]) (auto intro: adds_trans)
  qed
qed

end
