(* ===== verification/Session_Store.thy ===== *)
theory Session_Store
  imports Session Kv
begin

text \<open>
  The desired-configuration store on the session: what the facade builds with
  \<^verbatim>\<open>kv.NewStore(manager)\<close>. The manager is the store's \<^verbatim>\<open>RuntimeProvider\<close>, and the laws of the
  locale are discharged on it here; the store's properties rest on its facts.
\<close>

definition manager_store :: "'e ext \<Rightarrow> manager \<Rightarrow> 'e kv_store" where
  "manager_store X m = \<lparr>ks_key_value = key_value X m, ks_bucket = desired_config_bucket m,
     ks_key_pattern = desired_config_key_pattern m, ks_kv_timeout = kv_timeout m,
     ks_shutdown_timeout = shutdown_timeout m, ks_error_sink = m_error_sink m\<rparr>"

lemma manager_store_simps [simp]:
  "ks_bucket (manager_store X m) = desired_config_bucket m"
  "ks_key_pattern (manager_store X m) = desired_config_key_pattern m"
  "ks_error_sink (manager_store X m) = m_error_sink m"
  by (simp_all add: manager_store_def)

interpretation manager_runtime: runtime_provider "manager_store X" "\<lambda>m. effective_ok (m_effective m)" for X :: "'e ext"
proof unfold_locales
  show "w_trace (snd (ks_key_value (manager_store X m) w)) = w_trace w" for m and w :: "'e world"
    by (simp add: manager_store_def key_value_trace [OF prod.collapse [symmetric]])
qed (simp_all add: manager_store_def desired_config_key_pattern_def kv_timeout_def shutdown_timeout_def
    effective_ok_def kv_ok_def timeouts_ok_def)

section \<open>Samples\<close>

definition sample_record :: desired_config_record where
  "sample_record = \<lparr>dr_version = ''1'', dr_rpc_id = ''r'', dr_target = ''dev'', dr_uuid = ''u'',
     dr_payload = ''{}'', dr_timestamp = sim_time\<rparr>"

lemma empty_object_valid: "json_valid ''{}''"
  by (simp add: json_valid_def scan_start_def step_begin_value_def json_space_def push_state_def
      max_nesting_depth_def step_end_value_def pop_state_def scan_eof_def)

lemma sample_target: "kv_validate_token op f ''dev'' = None"
  by (simp add: kv_validate_token_def go_simps token_rune_ascii)

lemma sample_record_valid: "validate_desired_config_record sample_record = None"
  by (simp add: validate_desired_config_record_def sample_record_def empty_object_valid sample_target
      go_simps sim_time_def is_zero_time_def)

lemma sample_time: "marshal_time sim_time = Inr ([CHR 0x22] @ ''2023-11-14T22:13:20Z'' @ [CHR 0x22])"
  by code_simp

lemma sample_record_encode: "\<exists>p. encode_desired_config_record sample_record = Inr p"
proof -
  have "\<exists>p. marshal_desired_config_record sample_record = Inr p"
    by (simp add: marshal_desired_config_record_def fields_desired_config_record_def sample_record_def
        marshal_struct_def field_omitted_def marshal_value_def sample_time marshal_raw_def empty_object_valid)
  then show ?thesis by (auto simp: encode_desired_config_record_def sample_record_valid)
qed

lemma sample_live_ok: "effective_ok (m_effective sample_live)"
  using normalized_effective [OF sample_defaults_ok sample_normalized]
  by (simp add: sample_live_def sample_manager_def)

lemma sample_key: "build_desired_config_key (desired_config_key_pattern sample_live) ''dev'' = Inr ''desired.dev''"
proof -
  have "validate_target ''dev'' = None"
    using sample_target by (simp flip: kv_validate_target)
  moreover have "sprintf (desired_config_key_pattern sample_live) [''dev''] = ''desired.dev''"
    by (simp add: desired_config_key_pattern_def sample_live_def sample_manager_def sample_effective_def)
  ultimately show ?thesis
    using manager_runtime.key_eq [OF sample_live_ok, of undefined "''dev''"] by simp
qed

lemma sample_key_value: "key_value X sample_live w = (let (st, w1) = query (x_status X 7) w in
    if st \<noteq> NatsConnected then (Inl (not_connected ''key_value''), w1) else (Inr 9, w1))"
  by (simp add: key_value_def sample_live_def split: prod.split)

lemma sample_store:
  "\<exists>sd w'. store_desired_config sim_ext (manager_store sim_ext sample_live) mctx sample_record (sim_world []) = (Inr sd, w') \<and>
     sd_key sd = ''desired.dev'' \<and> sd_bucket sd = ''cfg_desired'' \<and> sm_fails (w_env w') = []"
proof -
  obtain p where p: "encode_desired_config_record sample_record = Inr p"
    using sample_record_encode by blast
  have t: "dr_target sample_record = ''dev''" by (simp add: sample_record_def)
  have kv: "ks_key_value (manager_store sim_ext sample_live) = key_value sim_ext sample_live"
    by (simp add: manager_store_def)
  have b: "desired_config_bucket sample_live = ''cfg_desired''"
    by (simp add: desired_config_bucket_def sample_live_def sample_manager_def sample_effective_def)
  show ?thesis
    by (simp add: store_desired_config_def sample_record_valid t sample_key kv sample_key_value p b
        query_def perform_def sim_defs sim_put_def sim_get_def stored_created_at_def emit_def)
qed

lemma sample_load:
  "load_desired_config sim_ext (manager_store sim_ext sample_live) None ''dev'' (sim_world []) =
    (Inl (RtError RtConfigNotFound ''load_desired_config'' [] ''desired.dev'' ''desired config not found'' False
       (Some (Sentinel JsErrKeyNotFound ''nats: key not found''))),
     (sim_world [])\<lparr>w_trace := [EvKVGet 9 ''desired.dev'' (Inl (Sentinel JsErrKeyNotFound ''nats: key not found''))]\<rparr>)"
proof -
  have kv: "ks_key_value (manager_store sim_ext sample_live) = key_value sim_ext sample_live"
    by (simp add: manager_store_def)
  show ?thesis
    by (simp add: load_desired_config_def sample_key kv sample_key_value query_def perform_def sim_defs
        sim_get_def emit_def is_config_not_found_def)
qed

section \<open>Properties\<close>

text \<open>C31: the store and the subject builder agree on targets: a target has a key exactly when it has
  the subject of its notifications, under every builder and every effective configuration, so a
  configuration is never stored for a target that cannot be notified; and two targets never share
  a key.\<close>

theorem desired_config_key_spec:
  assumes "effective_ok (m_effective m)"
  shows "(is_ok (build_desired_config_key (desired_config_key_pattern m) t) \<longleftrightarrow> is_ok (configure_subject b t)) \<and>
    (build_desired_config_key (desired_config_key_pattern m) t = Inr k \<and>
     build_desired_config_key (desired_config_key_pattern m) u = Inr k \<longrightarrow> t = u)"
proof -
  have "build_desired_config_key (desired_config_key_pattern m) t =
    (case validate_target t of Some err \<Rightarrow> Inl err | None \<Rightarrow> Inr (sprintf (desired_config_key_pattern m) [t]))"
    using manager_runtime.key_eq [OF assms, of undefined t] unfolding manager_store_simps .
  then have "is_ok (build_desired_config_key (desired_config_key_pattern m) t) \<longleftrightarrow> is_ok (configure_subject b t)"
    by (simp add: configure.subject_eq split: option.split)
  then show ?thesis
    using manager_runtime.key_inject [OF assms, of undefined t k u] by simp
qed

theorem desired_config_key_spec_witness:
  "build_desired_config_key (desired_config_key_pattern sample_live) ''reboot'' \<noteq> Inr ''desired.dev'' \<and>
   is_ok (configure_subject default_builder ''dev'')"
  using desired_config_key_spec [OF sample_live_ok, of "''dev''" default_builder "''desired.dev''" "''reboot''"] sample_key
  by auto

text \<open>C23: storing a configuration, whatever the environment does: success means that the record was
  valid and that exactly one write, of its encoding under its target's key, was accepted, whose
  revision is the one reported; an error means that no write was accepted, so a caller that sees an
  error can submit again. The read that follows a write never turns it into an error. An invalid
  record is refused before anything is asked of the server.\<close>

theorem store_outcome:
  assumes "store_desired_config X (manager_store X m) mctx rec w = (r, w')"
  shows "\<exists>evs. adds w w' evs \<and>
    (case r of
       Inl err \<Rightarrow> \<forall>kv key payload rev. EvKVPut kv key payload (Inr rev) \<notin> set evs
     | Inr sd \<Rightarrow> validate_desired_config_record rec = None \<and> sd_record sd = rec \<and> \<not> sd_deleted sd \<and>
         sd_bucket sd = desired_config_bucket m \<and>
         build_desired_config_key (desired_config_key_pattern m) (dr_target rec) = Inr (sd_key sd) \<and>
         (\<exists>kv payload. encode_desired_config_record rec = Inr payload \<and>
            filter is_kv_put evs = [EvKVPut kv (sd_key sd) payload (Inr (sd_revision sd))])) \<and>
    (validate_desired_config_record rec \<noteq> None \<longrightarrow> r = Inl (the (validate_desired_config_record rec)) \<and> evs = [])"
  using assms
proof (cases rule: manager_runtime.store_cases)
  case (refused err)
  then show ?thesis using assms
    by (intro exI [of _ "[]"]) (auto simp: store_desired_config_def)
next
  case (failed kv key payload err)
  then show ?thesis using assms
    by (intro exI [of _ "[EvKVPut kv key payload (Inl err)]"])
      (auto simp: store_desired_config_def adds_def split: option.splits)
next
  case (stored kv key payload revision created got reports)
  have valid: "validate_desired_config_record rec = None"
    using stored(3) by (auto simp: encode_desired_config_record_def split: option.splits)
  have "filter is_kv_put reports = []"
    using stored(5) by (auto simp: filter_empty_conv is_kv_put_def)
  then show ?thesis using stored(1-4) valid
    by (intro exI [of _ "EvKVPut kv key payload (Inr revision) # EvKVGet kv key got # reports"])
      (simp add: is_kv_put_def)
qed

theorem store_outcome_witness:
  "\<exists>sd w' evs kv payload. store_desired_config sim_ext (manager_store sim_ext sample_live) None sample_record
      (sim_world []) = (Inr sd, w') \<and> adds (sim_world []) w' evs \<and>
    filter is_kv_put evs = [EvKVPut kv (sd_key sd) payload (Inr (sd_revision sd))]"
proof -
  obtain sd w' where s: "store_desired_config sim_ext (manager_store sim_ext sample_live) None sample_record
      (sim_world []) = (Inr sd, w')"
    using sample_store by blast
  from store_outcome [OF s] s show ?thesis by auto
qed

text \<open>C24: loading a configuration never writes and makes at most one request; what it returns is the
  decoding of the entry the bucket answered with for the target's key, at that entry's revision. A
  missing or deleted key is the error \<^verbatim>\<open>config_not_found\<close>, not retryable and naming the key; any
  other failure of the bucket is the retryable \<^verbatim>\<open>kv_read_failed\<close>; an entry that does not decode
  is never returned.\<close>

theorem load_outcome:
  assumes "load_desired_config X (manager_store X m) mctx target w = (r, w')"
  shows "\<exists>evs. adds w w' evs \<and> length evs \<le> 1 \<and>
    (case r of
       Inr sd \<Rightarrow> \<exists>kv key entry. evs = [EvKVGet kv key (Inr entry)] \<and>
         build_desired_config_key (desired_config_key_pattern m) target = Inr key \<and>
         decode_desired_config_record (ke_value entry) = Inr (sd_record sd) \<and>
         sd_revision sd = ke_revision entry \<and> sd_key sd = ke_key entry \<and> \<not> sd_deleted sd
     | Inl err \<Rightarrow> \<forall>kv key cause. evs = [EvKVGet kv key (Inl cause)] \<longrightarrow>
         public_error err = (if is_config_not_found cause
           then AgError CodeConfigNotFound ''load_desired_config'' [] key ''desired config not found'' False (Some cause)
           else AgError CodeKVReadFailed ''load_desired_config'' [] [] ''failed to read desired config from KV'' True (Some cause)))"
  using assms
proof (cases rule: manager_runtime.load_cases)
  case (refused err)
  then show ?thesis by (intro exI [of _ "[]"]) simp
next
  case (missing kv key err)
  then show ?thesis by (intro exI [of _ "[EvKVGet kv key (Inl err)]"]) simp
next
  case (failed kv key err)
  then show ?thesis by (intro exI [of _ "[EvKVGet kv key (Inl err)]"]) (simp add: kv_read_error_def)
next
  case (undecodable kv key entry err)
  then show ?thesis by (intro exI [of _ "[EvKVGet kv key (Inr entry)]"]) simp
next
  case (loaded kv key entry rec)
  then show ?thesis by (intro exI [of _ "[EvKVGet kv key (Inr entry)]"]) simp
qed

theorem load_outcome_witness:
  "\<exists>err. fst (load_desired_config sim_ext (manager_store sim_ext sample_live) None ''dev'' (sim_world [])) = Inl err \<and>
     ag_err_code (public_error err) = CodeConfigNotFound"
  using load_outcome [OF sample_load] unfolding sample_load
  by (auto simp: adds_def sim_world_def is_config_not_found_def)

text \<open>C26: starting a watch either fails, and then the watcher that the server may have given out is
  cancelled and stopped before \<^verbatim>\<open>WatchDesiredConfig\<close> returns, or hands out a stop function for the
  one watcher that is running, on the target's key and with a handler. No failure leaves a watcher
  behind and none stops one twice.\<close>

theorem watch_start_outcome:
  assumes "watch_desired_config X (manager_store X m) mctx target handler w = (r, w')"
  shows "\<exists>evs. adds w w' evs \<and>
    (case r of
       Inr st \<Rightarrow> handler \<noteq> None \<and> (\<exists>kv key. evs = [EvKVWatch kv key (Inr (wt_watcher st))] \<and>
         build_desired_config_key (desired_config_key_pattern m) target = Inr key)
     | Inl err \<Rightarrow> \<forall>watcher. length (filter (\<lambda>ev. \<exists>kv key. ev = EvKVWatch kv key (Inr watcher)) evs) =
         length (filter (\<lambda>ev. ev = EvStopWatcher watcher) evs))"
  using assms
proof (cases rule: manager_runtime.watch_cases)
  case (refused err)
  then show ?thesis by (intro exI [of _ "[]"]) simp
next
  case (failed kv key ctx err)
  then show ?thesis by (intro exI [of _ "[EvKVWatch kv key (Inl err), EvCancel ctx]"]) simp
next
  case (abandoned kv key ctx watcher err reports)
  have "filter (\<lambda>ev. \<exists>kv key. ev = EvKVWatch kv key (Inr x)) reports = []"
    "filter (\<lambda>ev. ev = EvStopWatcher x) reports = []" for x
    using abandoned(3) by (auto simp: filter_empty_conv)
  then show ?thesis using abandoned(1,2)
    by (intro exI [of _ "EvKVWatch kv key (Inr watcher) # EvCancel ctx # EvStopWatcher watcher # reports"]) simp
next
  case (running kv key st)
  then show ?thesis by (intro exI [of _ "[EvKVWatch kv key (Inr (wt_watcher st))]"]) simp
qed

theorem watch_start_outcome_witness:
  "\<exists>err w' evs. watch_desired_config sim_ext (manager_store sim_ext sample_live) None ''dev'' (Some 1)
      (sim_world [''ready'']) = (Inl err, w') \<and> adds (sim_world [''ready'']) w' evs \<and>
    EvStopWatcher 2 \<in> set evs"
proof -
  have kv: "ks_key_value (manager_store sim_ext sample_live) = key_value sim_ext sample_live"
    by (simp add: manager_store_def)
  obtain err w' where s: "watch_desired_config sim_ext (manager_store sim_ext sample_live) None ''dev'' (Some 1)
      (sim_world [''ready'']) = (Inl err, w')" "EvKVWatch 9 ''desired.dev'' (Inr 2) \<in> set (w_trace w')"
    by (simp add: watch_desired_config_def sample_key kv sample_key_value query_def perform_def sim_defs
        emit_def cancel_and_stop_def)
  from watch_start_outcome [OF s(1)] obtain evs where evs: "adds (sim_world [''ready'']) w' evs"
    "length (filter (\<lambda>ev. \<exists>kv key. ev = EvKVWatch kv key (Inr 2)) evs) =
      length (filter (\<lambda>ev. ev = EvStopWatcher 2) evs)"
    by auto
  have "EvKVWatch 9 ''desired.dev'' (Inr 2) \<in> set evs"
    using s(2) evs(1) by (simp add: adds_def sim_world_def)
  then have "filter (\<lambda>ev. \<exists>kv key. ev = EvKVWatch kv key (Inr 2)) evs \<noteq> []"
    by (auto simp: filter_empty_conv)
  with evs(2) have "filter (\<lambda>ev. ev = EvStopWatcher 2) evs \<noteq> []" by auto
  then have "EvStopWatcher 2 \<in> set evs" by (auto simp: filter_empty_conv)
  with s(1) evs(1) show ?thesis by blast
qed

text \<open>C25: the consumer of a watch refines its specification: for every sequence of inputs, what the
  handler is given is every readable entry received before the watch ended, each once and in
  order, if the initial values were completed by then, and nothing otherwise; besides, the
  consumer only reports errors.\<close>

theorem consumer_delivers:
  assumes "consume_watch X (manager_store X m) target handler ctx is initial_watch w = (st, w')"
  shows "\<exists>evs. adds w w' evs \<and> handed handler evs = delivered target is \<and> list_all (consumer_event handler) evs"
  using consume_watch_adds [OF assms] by (auto simp: initial_watch_def delivered_def)

definition sample_deletion :: kv_entry where
  "sample_deletion = \<lparr>ke_bucket = ''cfg_desired'', ke_key = ''desired.dev'', ke_value = [], ke_revision = 3,
     ke_created = sim_time, ke_operation = KvDelete\<rparr>"

theorem consumer_delivers_witness:
  "\<exists>st w' evs. consume_watch sim_ext (manager_store sim_ext sample_live) ''dev'' 1 CtxBackground
      [InEntry sample_deletion, InInitDone, InClosed, InEntry sample_deletion] initial_watch (sim_world []) = (st, w') \<and>
    adds (sim_world []) w' evs \<and> length (handed 1 evs) = 1"
proof -
  obtain st w' where s: "consume_watch sim_ext (manager_store sim_ext sample_live) ''dev'' 1 CtxBackground
      [InEntry sample_deletion, InInitDone, InClosed, InEntry sample_deletion] initial_watch (sim_world []) = (st, w')"
    by fastforce
  have "length (delivered ''dev'' [InEntry sample_deletion, InInitDone, InClosed, InEntry sample_deletion]) = 1"
    by (simp add: delivered_def live_inputs_def watch_value_def sample_deletion_def entry_deleted_def)
  with consumer_delivers [OF s] s show ?thesis by fastforce
qed

end
