(* ===== verification/Registry.thy ===== *)
theory Registry
  imports World "HOL-Library.Multiset"
begin

text \<open>
  The subscription registry, \<^verbatim>\<open>internal/registry\<close>: the intent to subscribe (kind, subject, queue
  group, callback), indexed by id and by key, with the runtime handle of an active subscription.
  The mutex makes every operation atomic, so an operation is a function on the record.
\<close>

section \<open>State\<close>

text \<open>A \<^verbatim>\<open>Kind\<close> is a string of its own type; the callback is named by the handler it is bound to.\<close>

type_synonym kind = string
type_synonym callback = nat

definition kind_configure :: kind where "kind_configure = ''configure''"
definition kind_action :: kind where "kind_action = ''action''"
definition kind_result :: kind where "kind_result = ''result''"
definition kind_status :: kind where "kind_status = ''status''"

lemmas kind_defs = kind_configure_def kind_action_def kind_result_def kind_status_def

record add_spec =
  as_kind :: kind
  as_target :: string
  as_action :: string
  as_subject :: string
  as_queue_group :: string
  as_callback :: "callback option"

record reg_entry =
  en_id :: string
  en_key :: string
  en_kind :: kind
  en_target :: string
  en_action :: string
  en_subject :: string
  en_queue_group :: string
  en_callback :: callback
  en_active_sub :: "subscription option"
  en_active :: bool
  en_last_error :: string

record activation_record =
  ar_id :: string
  ar_kind :: kind
  ar_subject :: string
  ar_queue_group :: string
  ar_callback :: callback
  ar_active_sub :: "subscription option"
  ar_active :: bool

record reg_snapshot =
  sn_id :: string
  sn_kind :: kind
  sn_target :: string
  sn_action :: string
  sn_subject :: string
  sn_queue_group :: string
  sn_active :: bool
  sn_last_error :: string

record active_handle =
  ah_id :: string
  ah_subject :: string
  ah_sub :: "subscription option"

record registry =
  rg_next_id :: u64
  rg_entries :: "(string, reg_entry) gomap"
  rg_by_key :: "(string, string) gomap"

definition new_registry :: registry where
  "new_registry = \<lparr>rg_next_id = 0, rg_entries = [], rg_by_key = []\<rparr>"

section \<open>Operations\<close>

definition registry_error :: "string \<Rightarrow> gerr" where
  "registry_error msg = RtError RtValidation ''registry_add'' [] [] msg False None"

definition validate_add_spec :: "add_spec \<Rightarrow> gerr option" where
  "validate_add_spec spec =
     (if blank (as_kind spec) then Some (registry_error ''registration kind is required'')
      else if blank (as_subject spec) then Some (registry_error ''registration subject is required'')
      else if as_callback spec = None then Some (registry_error ''registration callback is required'')
      else None)"

definition registration_key :: "kind \<Rightarrow> string \<Rightarrow> string \<Rightarrow> string" where
  "registration_key kind subject queue =
     kind @ ''|'' @ trim_space subject @ ''|'' @ trim_space queue"

definition registration_id :: "u64 \<Rightarrow> string" where
  "registration_id n = ''sub-'' @ show_nat (unat n)"

definition activation_from_entry :: "reg_entry \<Rightarrow> activation_record" where
  "activation_from_entry e = \<lparr>ar_id = en_id e, ar_kind = en_kind e, ar_subject = en_subject e,
     ar_queue_group = en_queue_group e, ar_callback = en_callback e,
     ar_active_sub = en_active_sub e, ar_active = en_active e\<rparr>"

definition snapshot_from_entry :: "reg_entry \<Rightarrow> reg_snapshot" where
  "snapshot_from_entry e = \<lparr>sn_id = en_id e, sn_kind = en_kind e, sn_target = en_target e,
     sn_action = en_action e, sn_subject = en_subject e, sn_queue_group = en_queue_group e,
     sn_active = en_active e, sn_last_error = en_last_error e\<rparr>"

definition registry_conflict :: "string \<Rightarrow> string \<Rightarrow> gerr" where
  "registry_conflict subject existing = RtError RtRegistryConflict ''registry_add'' subject []
     ''subscription registration already exists'' False
     (Some (ErrText (''conflicts with existing registration '' @ existing)))"

text \<open>The id is taken before the lock and is spent even when the registration conflicts.\<close>

definition registry_add :: "add_spec \<Rightarrow> registry \<Rightarrow> (gerr + reg_snapshot) \<times> registry" where
  "registry_add spec r =
     (case validate_add_spec spec of
        Some err \<Rightarrow> (Inl err, r)
      | None \<Rightarrow>
          (let n = rg_next_id r + 1;
               r1 = r\<lparr>rg_next_id := n\<rparr>;
               key = registration_key (as_kind spec) (as_subject spec) (as_queue_group spec)
           in case gomap_get (rg_by_key r) key of
                Some existing \<Rightarrow> (Inl (registry_conflict (as_subject spec) existing), r1)
              | None \<Rightarrow>
                  (let reg_id = registration_id n;
                       e = \<lparr>en_id = reg_id, en_key = key, en_kind = as_kind spec,
                            en_target = as_target spec, en_action = as_action spec,
                            en_subject = as_subject spec, en_queue_group = as_queue_group spec,
                            en_callback = the (as_callback spec), en_active_sub = None,
                            en_active = False, en_last_error = []\<rparr>
                   in (Inr (snapshot_from_entry e),
                       r1\<lparr>rg_entries := gomap_put reg_id e (rg_entries r),
                          rg_by_key := gomap_put key reg_id (rg_by_key r)\<rparr>))))"

definition get_activation_record :: "registry \<Rightarrow> string \<Rightarrow> activation_record option" where
  "get_activation_record r i = map_option activation_from_entry (gomap_get (rg_entries r) i)"

text \<open>\<open>ord\<close> is the order in which Go ranges over the keys of the map.\<close>

definition range_entries :: "(string list \<Rightarrow> string list) \<Rightarrow> registry \<Rightarrow> reg_entry list" where
  "range_entries ord r =
     List.map_filter (gomap_get (rg_entries r)) (ord (map fst (rg_entries r)))"

definition list_activations ::
  "(string list \<Rightarrow> string list) \<Rightarrow> registry \<Rightarrow> activation_record list" where
  "list_activations ord r = map activation_from_entry (range_entries ord r)"

definition restore_records ::
  "(string list \<Rightarrow> string list) \<Rightarrow> registry \<Rightarrow> activation_record list" where
  "restore_records ord r = list_activations ord r"

definition list_snapshots :: "(string list \<Rightarrow> string list) \<Rightarrow> registry \<Rightarrow> reg_snapshot list" where
  "list_snapshots ord r = map snapshot_from_entry (range_entries ord r)"

definition mark_active ::
  "string \<Rightarrow> subscription option \<Rightarrow> registry \<Rightarrow> subscription option \<times> registry" where
  "mark_active i sub r =
     (case gomap_get (rg_entries r) i of
        None \<Rightarrow> (None, r)
      | Some e \<Rightarrow>
          (case sub of
             None \<Rightarrow> (en_active_sub e, r\<lparr>rg_entries :=
                gomap_put i (e\<lparr>en_active_sub := None, en_active := False\<rparr>) (rg_entries r)\<rparr>)
           | Some s \<Rightarrow>
               (if en_active_sub e \<noteq> None \<and> en_active_sub e \<noteq> Some s then en_active_sub e else None,
                r\<lparr>rg_entries := gomap_put i
                   (e\<lparr>en_active_sub := Some s, en_active := True, en_last_error := []\<rparr>) (rg_entries r)\<rparr>)))"

definition mark_inactive :: "string \<Rightarrow> gerr option \<Rightarrow> registry \<Rightarrow> registry" where
  "mark_inactive i err r =
     (case gomap_get (rg_entries r) i of
        None \<Rightarrow> r
      | Some e \<Rightarrow>
          (let e1 = e\<lparr>en_active_sub := None, en_active := False\<rparr>;
               e2 = (case err of None \<Rightarrow> e1 | Some x \<Rightarrow> e1\<lparr>en_last_error := error_text x\<rparr>)
           in r\<lparr>rg_entries := gomap_put i e2 (rg_entries r)\<rparr>))"

definition handle_of :: "reg_entry \<Rightarrow> active_handle" where
  "handle_of e = \<lparr>ah_id = en_id e, ah_subject = en_subject e, ah_sub = en_active_sub e\<rparr>"

definition deactivate :: "reg_entry \<Rightarrow> reg_entry" where
  "deactivate e = e\<lparr>en_active_sub := None, en_active := False\<rparr>"

definition clear_active_handles ::
  "(string list \<Rightarrow> string list) \<Rightarrow> registry \<Rightarrow> active_handle list \<times> registry" where
  "clear_active_handles ord r =
     (map handle_of (filter (\<lambda>e. en_active_sub e \<noteq> None) (range_entries ord r)),
      r\<lparr>rg_entries := map (\<lambda>(i, e). (i, deactivate e)) (rg_entries r)\<rparr>)"

definition registry_remove :: "string \<Rightarrow> registry \<Rightarrow> active_handle option \<times> registry" where
  "registry_remove i r =
     (case gomap_get (rg_entries r) i of
        None \<Rightarrow> (None, r)
      | Some e \<Rightarrow> (Some (handle_of e),
          r\<lparr>rg_entries := gomap_del i (rg_entries r), rg_by_key := gomap_del (en_key e) (rg_by_key r)\<rparr>))"

definition registry_counts :: "registry \<Rightarrow> nat \<times> nat" where
  "registry_counts r = (length (rg_entries r),
     length (filter (\<lambda>(i, e). en_active_sub e \<noteq> None \<and> en_active e) (rg_entries r)))"

section \<open>The invariant\<close>

text \<open>
  The two indices agree, keys are what the entry's fields say, an entry is active exactly when it
  has a handle, and every id was handed out by the counter.
\<close>

definition entry_ok :: "u64 \<Rightarrow> string \<Rightarrow> reg_entry \<Rightarrow> bool" where
  "entry_ok n i e \<longleftrightarrow> en_id e = i \<and>
     en_key e = registration_key (en_kind e) (en_subject e) (en_queue_group e) \<and>
     (en_active e \<longleftrightarrow> en_active_sub e \<noteq> None) \<and> (\<exists>k \<le> unat n. 0 < k \<and> i = ''sub-'' @ show_nat k)"

definition indices_ok ::
  "u64 \<Rightarrow> (string \<Rightarrow> reg_entry option) \<Rightarrow> (string \<Rightarrow> string option) \<Rightarrow> bool" where
  "indices_ok n E K \<longleftrightarrow>
     (\<forall>i e. E i = Some e \<longrightarrow> entry_ok n i e \<and> K (en_key e) = Some i) \<and>
     (\<forall>k i. K k = Some i \<longrightarrow> (\<exists>e. E i = Some e \<and> en_key e = k))"

definition reg_ok :: "registry \<Rightarrow> bool" where
  "reg_ok r \<longleftrightarrow> gomap_wf (rg_entries r) \<and> gomap_wf (rg_by_key r) \<and>
     indices_ok (rg_next_id r) (gomap_get (rg_entries r)) (gomap_get (rg_by_key r))"

lemma indices_okD:
  assumes "indices_ok n E K" and "E i = Some e"
  shows "entry_ok n i e" "K (en_key e) = Some i" "en_id e = i" "en_active e \<longleftrightarrow> en_active_sub e \<noteq> None"
  using assms unfolding indices_ok_def entry_ok_def by blast+

lemma indices_ok_key:
  assumes "indices_ok n E K" and "K k = Some i"
  obtains e where "E i = Some e" "en_key e = k"
  using assms unfolding indices_ok_def by blast

lemma reg_ok_indices:
  "reg_ok r \<Longrightarrow> indices_ok (rg_next_id r) (gomap_get (rg_entries r)) (gomap_get (rg_by_key r))"
  by (simp add: reg_ok_def)

lemma reg_okD:
  assumes "reg_ok r" and "gomap_get (rg_entries r) i = Some e"
  shows "entry_ok (rg_next_id r) i e" "gomap_get (rg_by_key r) (en_key e) = Some i"
    "en_id e = i" "en_active e \<longleftrightarrow> en_active_sub e \<noteq> None"
  by (rule indices_okD [OF reg_ok_indices [OF assms(1)] assms(2)])+

text \<open>An order of iteration neither drops nor repeats a key.\<close>

definition order_ok :: "('k list \<Rightarrow> 'k list) \<Rightarrow> bool" where
  "order_ok ord \<longleftrightarrow> (\<forall>xs. mset (ord xs) = mset xs)"

lemma order_set: "order_ok ord \<Longrightarrow> set (ord xs) = set xs"
  unfolding order_ok_def by (metis set_mset_mset)

lemma range_entries_iff:
  assumes "order_ok ord" and "gomap_wf (rg_entries r)"
  shows "e \<in> set (range_entries ord r) \<longleftrightarrow> (\<exists>i. gomap_get (rg_entries r) i = Some e)"
proof -
  have "e \<in> set (range_entries ord r) \<longleftrightarrow>
      (\<exists>i \<in> fst ` set (rg_entries r). gomap_get (rg_entries r) i = Some e)"
    by (auto simp: range_entries_def List.map_filter_def order_set [OF assms(1)] image_iff
        simp del: map_of_eq_Some_iff intro!: bexI)
  then show ?thesis by (metis map_of_eq_None_iff option.distinct(1))
qed

section \<open>The operations keep the invariant\<close>

definition ids_left :: "registry \<Rightarrow> bool" where
  "ids_left r \<longleftrightarrow> unat (rg_next_id r) + 1 < 2 ^ 64"

lemma next_id: "ids_left r \<Longrightarrow> unat (rg_next_id r + 1) = Suc (unat (rg_next_id r))"
  unfolding ids_left_def by (simp add: unat_word_ariths)

lemma entry_ok_mono: "entry_ok n i e \<Longrightarrow> unat n \<le> unat n' \<Longrightarrow> entry_ok n' i e"
  unfolding entry_ok_def by (meson order_trans)

lemma fresh_id:
  assumes "reg_ok r" and "ids_left r"
  shows "gomap_get (rg_entries r) (registration_id (rg_next_id r + 1)) = None"
proof (rule ccontr)
  assume "\<not> ?thesis"
  then obtain e where "gomap_get (rg_entries r) (registration_id (rg_next_id r + 1)) = Some e" by auto
  from reg_okD(1) [OF assms(1) this] show False
    by (auto simp: entry_ok_def registration_id_def next_id [OF assms(2)])
qed

lemma new_registry_ok: "reg_ok new_registry"
  by (simp add: reg_ok_def new_registry_def indices_ok_def)

text \<open>Advancing the counter, and replacing an entry by one with the same identity.\<close>

lemma indices_ok_mono: "indices_ok n E K \<Longrightarrow> unat n \<le> unat n' \<Longrightarrow> indices_ok n' E K"
  unfolding indices_ok_def by (blast intro: entry_ok_mono)

lemma advance_ok:
  assumes "reg_ok r" and "ids_left r"
  shows "reg_ok (r\<lparr>rg_next_id := rg_next_id r + 1\<rparr>)"
  using assms indices_ok_mono [of "rg_next_id r" _ _ "rg_next_id r + 1"] by (simp add: reg_ok_def next_id)

lemma indices_ok_replace:
  assumes ok: "indices_ok n E K" and e: "E i = Some e" and e': "entry_ok n i e'" "en_key e' = en_key e"
  shows "indices_ok n (E(i \<mapsto> e')) K"
  unfolding indices_ok_def
proof (intro conjI allI impI)
  fix j x
  assume "(E(i \<mapsto> e')) j = Some x"
  then show "entry_ok n j x" "K (en_key x) = Some j"
    using indices_okD [OF ok] e e' by (auto split: if_splits)
next
  fix k j
  assume "K k = Some j"
  from indices_ok_key [OF ok this] obtain x where "E j = Some x" "en_key x = k" .
  with e e' show "\<exists>x. (E(i \<mapsto> e')) j = Some x \<and> en_key x = k" by auto
qed

lemma replace_ok:
  assumes r: "reg_ok r" and e: "gomap_get (rg_entries r) i = Some e"
    and e': "en_id e' = en_id e" "en_key e' = en_key e" "en_kind e' = en_kind e"
      "en_subject e' = en_subject e" "en_queue_group e' = en_queue_group e"
      "en_active e' \<longleftrightarrow> en_active_sub e' \<noteq> None"
  shows "reg_ok (r\<lparr>rg_entries := gomap_put i e' (rg_entries r)\<rparr>)"
proof -
  have "entry_ok (rg_next_id r) i e'" using reg_okD(1) [OF r e] e' by (simp add: entry_ok_def)
  from indices_ok_replace [OF reg_ok_indices [OF r] e this e'(2)] r
  show ?thesis by (simp add: reg_ok_def fun_upd_def)
qed

lemma mark_active_ok: "reg_ok r \<Longrightarrow> mark_active i sub r = (x, r') \<Longrightarrow> reg_ok r'"
  by (auto simp: mark_active_def simp del: map_of_eq_Some_iff split: option.splits intro!: replace_ok)

lemma mark_inactive_ok: "reg_ok r \<Longrightarrow> reg_ok (mark_inactive i err r)"
  by (auto simp: mark_inactive_def Let_def simp del: map_of_eq_Some_iff split: option.splits
      intro!: replace_ok)

lemma gomap_get_deactivate:
  "gomap_get (map (\<lambda>(i, e). (i, deactivate e)) m) i = map_option deactivate (gomap_get m i)"
  by (induction m) auto

lemma entry_ok_deactivate: "entry_ok n i e \<Longrightarrow> entry_ok n i (deactivate e)"
  by (auto simp: entry_ok_def deactivate_def)

lemma key_deactivate [simp]: "en_key (deactivate e) = en_key e" "en_id (deactivate e) = en_id e"
  by (simp_all add: deactivate_def)

lemma indices_ok_deactivate:
  assumes ok: "indices_ok n E K"
  shows "indices_ok n (\<lambda>i. map_option deactivate (E i)) K"
  unfolding indices_ok_def
proof (intro conjI allI impI)
  fix i e
  assume "map_option deactivate (E i) = Some e"
  then obtain e0 where "E i = Some e0" "e = deactivate e0" by auto
  then show "entry_ok n i e" "K (en_key e) = Some i"
    using indices_okD [OF ok] entry_ok_deactivate by auto
next
  fix k i
  assume "K k = Some i"
  from indices_ok_key [OF ok this] obtain e where "E i = Some e" "en_key e = k" .
  then show "\<exists>e. map_option deactivate (E i) = Some e \<and> en_key e = k" by simp
qed

lemma map_fst_deactivate: "map fst (map (\<lambda>(i, e). (i, deactivate e)) m) = map fst m"
  by (induction m) auto

lemma clear_active_handles_ok:
  assumes "reg_ok r" and "clear_active_handles ord r = (hs, r')"
  shows "reg_ok r'"
proof -
  have r': "r' = r\<lparr>rg_entries := map (\<lambda>(i, e). (i, deactivate e)) (rg_entries r)\<rparr>"
    using assms(2) by (simp add: clear_active_handles_def)
  have "gomap_get (map (\<lambda>(i, e). (i, deactivate e)) (rg_entries r)) =
      (\<lambda>i. map_option deactivate (gomap_get (rg_entries r) i))"
    by (rule ext) (rule gomap_get_deactivate)
  with indices_ok_deactivate [OF reg_ok_indices [OF assms(1)]] assms(1)
  show ?thesis unfolding r' reg_ok_def by (simp add: map_fst_deactivate del: map_map)
qed

lemma indices_ok_remove:
  assumes ok: "indices_ok n E K" and e: "E i = Some e"
  shows "indices_ok n (E(i := None)) (K(en_key e := None))"
  unfolding indices_ok_def
proof (intro conjI allI impI)
  fix j x
  assume "(E(i := None)) j = Some x"
  then have x: "E j = Some x" "j \<noteq> i" by (auto split: if_splits)
  have "en_key x \<noteq> en_key e" using indices_okD(2) [OF ok x(1)] indices_okD(2) [OF ok e] x(2) by auto
  with indices_okD [OF ok x(1)] show "entry_ok n j x" "(K(en_key e := None)) (en_key x) = Some j" by auto
next
  fix k j
  assume "(K(en_key e := None)) k = Some j"
  then have k: "K k = Some j" "k \<noteq> en_key e" by (auto split: if_splits)
  from indices_ok_key [OF ok k(1)] obtain x where "E j = Some x" "en_key x = k" .
  with k(2) e show "\<exists>x. (E(i := None)) j = Some x \<and> en_key x = k" by auto
qed

lemma registry_remove_ok:
  assumes r: "reg_ok r" and "registry_remove i r = (h, r')"
  shows "reg_ok r'"
proof (cases "gomap_get (rg_entries r) i")
  case None
  with assms show ?thesis by (simp add: registry_remove_def)
next
  case (Some e)
  have r': "r' = r\<lparr>rg_entries := gomap_del i (rg_entries r), rg_by_key := gomap_del (en_key e) (rg_by_key r)\<rparr>"
    using assms(2) Some by (simp add: registry_remove_def)
  from indices_ok_remove [OF reg_ok_indices [OF r] Some] r
  show ?thesis unfolding r' reg_ok_def by (simp add: delete_conv')
qed

lemma registry_add_cases:
  assumes "registry_add spec r = (x, r')"
  obtains (invalid) err where "validate_add_spec spec = Some err" "x = Inl err" "r' = r"
  | (conflict) existing where "validate_add_spec spec = None"
      "gomap_get (rg_by_key r) (registration_key (as_kind spec) (as_subject spec) (as_queue_group spec)) = Some existing"
      "x = Inl (registry_conflict (as_subject spec) existing)"
      "r' = r\<lparr>rg_next_id := rg_next_id r + 1\<rparr>"
  | (added) e where "validate_add_spec spec = None"
      "gomap_get (rg_by_key r) (registration_key (as_kind spec) (as_subject spec) (as_queue_group spec)) = None"
      "x = Inr (snapshot_from_entry e)"
      "r' = r\<lparr>rg_next_id := rg_next_id r + 1, rg_entries := gomap_put (en_id e) e (rg_entries r),
         rg_by_key := gomap_put (en_key e) (en_id e) (rg_by_key r)\<rparr>"
      "en_id e = registration_id (rg_next_id r + 1)"
      "en_key e = registration_key (as_kind spec) (as_subject spec) (as_queue_group spec)"
      "en_kind e = as_kind spec" "en_subject e = as_subject spec"
      "en_queue_group e = as_queue_group spec" "as_callback spec = Some (en_callback e)"
      "en_active_sub e = None" "\<not> en_active e" "en_target e = as_target spec" "en_action e = as_action spec"
proof (cases "validate_add_spec spec")
  case (Some err)
  with assms show thesis by (intro invalid) (auto simp: registry_add_def)
next
  case None
  note valid = this
  then obtain cb where cb: "as_callback spec = Some cb"
    by (auto simp: validate_add_spec_def split: if_splits)
  let ?key = "registration_key (as_kind spec) (as_subject spec) (as_queue_group spec)"
  show thesis
  proof (cases "gomap_get (rg_by_key r) ?key")
    case (Some existing)
    with assms valid show thesis by (intro conflict) (auto simp: registry_add_def Let_def)
  next
    case None
    let ?e = "\<lparr>en_id = registration_id (rg_next_id r + 1), en_key = ?key, en_kind = as_kind spec,
        en_target = as_target spec, en_action = as_action spec, en_subject = as_subject spec,
        en_queue_group = as_queue_group spec, en_callback = cb, en_active_sub = None,
        en_active = False, en_last_error = []\<rparr>"
    show thesis
      by (rule added [of ?e]) (use assms valid None cb in \<open>auto simp: registry_add_def Let_def\<close>)
  qed
qed

lemma indices_ok_add:
  assumes ok: "indices_ok n E K" and fresh: "E (en_id e) = None" "K (en_key e) = None"
    and e: "entry_ok n (en_id e) e"
  shows "indices_ok n (E(en_id e \<mapsto> e)) (K(en_key e \<mapsto> en_id e))"
  unfolding indices_ok_def
proof (intro conjI allI impI)
  fix j x
  assume x: "(E(en_id e \<mapsto> e)) j = Some x"
  show "entry_ok n j x"
    using x e indices_okD(1) [OF ok] by (auto split: if_splits)
  show "(K(en_key e \<mapsto> en_id e)) (en_key x) = Some j"
    using x fresh(2) indices_okD(2) [OF ok, of j x] by (auto split: if_splits)
next
  fix k j
  assume k: "(K(en_key e \<mapsto> en_id e)) k = Some j"
  show "\<exists>x. (E(en_id e \<mapsto> e)) j = Some x \<and> en_key x = k"
  proof (cases "k = en_key e")
    case True
    with k show ?thesis by auto
  next
    case False
    with k have "K k = Some j" by simp
    from indices_ok_key [OF ok this] obtain x where "E j = Some x" "en_key x = k" .
    with fresh(1) show ?thesis by (intro exI [of _ x]) auto
  qed
qed

lemma registry_add_ok:
  assumes r: "reg_ok r" and left: "ids_left r" and "registry_add spec r = (x, r')"
  shows "reg_ok r'"
  using assms(3)
proof (cases rule: registry_add_cases)
  case (added e)
  have fresh: "gomap_get (rg_entries r) (en_id e) = None" "gomap_get (rg_by_key r) (en_key e) = None"
    using fresh_id [OF r left] added(2,5,6) by simp_all
  have e: "entry_ok (rg_next_id r + 1) (en_id e) e"
    using added by (auto simp: entry_ok_def registration_id_def next_id [OF left])
  have "indices_ok (rg_next_id r + 1) (gomap_get (rg_entries r)) (gomap_get (rg_by_key r))"
    using indices_ok_mono [OF reg_ok_indices [OF r]] by (simp add: next_id [OF left])
  from indices_ok_add [OF this fresh e] r
  show ?thesis unfolding added(4) reg_ok_def by (simp add: update_conv')
qed (use r advance_ok [OF r left] in simp_all)

section \<open>The registry as a table of handles\<close>

text \<open>
  What the subscription code relies on, as an interface: the runtime handles held in the table,
  and what registering, activating, dropping and clearing do to them.
\<close>

definition held_by :: "registry \<Rightarrow> string \<Rightarrow> subscription option" where
  "held_by r i = (case gomap_get (rg_entries r) i of None \<Rightarrow> None | Some e \<Rightarrow> en_active_sub e)"

definition registered :: "registry \<Rightarrow> string \<Rightarrow> bool" where
  "registered r i \<longleftrightarrow> gomap_get (rg_entries r) i \<noteq> None"

locale handle_table =
  fixes ok :: "'t \<Rightarrow> bool" and known :: "'t \<Rightarrow> string \<Rightarrow> bool"
    and held :: "'t \<Rightarrow> string \<Rightarrow> subscription option"
    and activate :: "string \<Rightarrow> subscription \<Rightarrow> 't \<Rightarrow> subscription option \<times> 't"
    and drop_handle :: "string \<Rightarrow> gerr option \<Rightarrow> 't \<Rightarrow> 't"
    and remove :: "string \<Rightarrow> 't \<Rightarrow> active_handle option \<times> 't"
  assumes activate_ok: "ok t \<Longrightarrow> activate i s t = (stale, t') \<Longrightarrow> ok t'"
    and drop_ok: "ok t \<Longrightarrow> ok (drop_handle i err t)"
    and remove_ok: "ok t \<Longrightarrow> remove i t = (h, t') \<Longrightarrow> ok t'"
    and activate_held: "activate i s t = (stale, t') \<Longrightarrow> known t i \<Longrightarrow>
      held t' = (held t)(i := Some s) \<and> known t' = known t"
    and activate_stale: "activate i s t = (stale, t') \<Longrightarrow> known t i \<Longrightarrow>
      stale = (if held t i = Some s then None else held t i)"
    and activate_unknown: "activate i s t = (stale, t') \<Longrightarrow> \<not> known t i \<Longrightarrow> t' = t \<and> stale = None"
    and held_known: "held t i \<noteq> None \<Longrightarrow> known t i"
    and drop_held: "held (drop_handle i err t) = (held t)(i := None)"
    and remove_held: "remove i t = (h, t') \<Longrightarrow> held t' = (held t)(i := None) \<and>
      (known t i \<longrightarrow> (\<exists>a. h = Some a \<and> ah_sub a = held t i)) \<and> (\<not> known t i \<longrightarrow> h = None \<and> t' = t)"
begin

text \<open>No handle is lost: after an activation every handle of before is held or handed back.\<close>

lemma activate_conserves:
  assumes "activate i s t = (stale, t')" and "known t i" and "held t j = Some s'"
  shows "held t' j = Some s' \<or> stale = Some s'"
  using activate_held [OF assms(1,2)] activate_stale [OF assms(1,2)] assms(3)
  by (cases "j = i") (auto split: if_splits)

lemma remove_conserves:
  assumes "remove i t = (h, t')" and "held t j = Some s'"
  shows "held t' j = Some s' \<or> (\<exists>a. h = Some a \<and> ah_sub a = Some s')"
proof (cases "j = i")
  case True
  then have "known t i" using held_known [of t i] assms(2) by simp
  with remove_held [OF assms(1)] assms(2) True show ?thesis by auto
next
  case False
  with remove_held [OF assms(1)] assms(2) show ?thesis by simp
qed

end

lemma held_put:
  "held_by (r\<lparr>rg_entries := gomap_put i e (rg_entries r)\<rparr>) = (held_by r)(i := en_active_sub e)"
  by (rule ext) (simp add: held_by_def)

lemma registered_put:
  "registered r i \<Longrightarrow> registered (r\<lparr>rg_entries := gomap_put i e (rg_entries r)\<rparr>) = registered r"
  by (rule ext) (simp add: registered_def)

interpretation subs: handle_table reg_ok registered held_by
  "\<lambda>i s. mark_active i (Some s)" mark_inactive registry_remove
proof (unfold_locales, goal_cases)
  case (1 t i s stale t')
  then show ?case by (rule mark_active_ok)
next
  case (3 t i h t')
  then show ?case by (rule registry_remove_ok)
next
  case (8 i err t)
  show ?case
  proof (cases "gomap_get (rg_entries t) i")
    case None
    then show ?thesis by (auto simp: mark_inactive_def held_by_def fun_upd_def)
  next
    case (Some e)
    then show ?thesis
      by (simp add: mark_inactive_def held_put Let_def split: option.split)
  qed
next
  case (9 i t h t')
  then show ?case
  proof (cases "gomap_get (rg_entries t) i")
    case None
    with 9 show ?thesis by (auto simp: registry_remove_def held_by_def registered_def fun_upd_def)
  next
    case (Some e)
    with 9 have "t' = t\<lparr>rg_entries := gomap_del i (rg_entries t), rg_by_key := gomap_del (en_key e) (rg_by_key t)\<rparr>"
      "h = Some (handle_of e)" by (simp_all add: registry_remove_def)
    with Some show ?thesis by (auto simp: held_by_def registered_def handle_of_def)
  qed
qed (auto simp: mark_active_def registered_def held_by_def held_put registered_put mark_inactive_ok
    simp del: map_of_eq_Some_iff split: option.splits)

lemma counts_active: "snd (registry_counts r) \<le> fst (registry_counts r)"
  by (simp add: registry_counts_def)

section \<open>Properties\<close>

text \<open>The registries a program can reach, with fewer than \<open>2 ^ 64\<close> registrations.\<close>

inductive reachable_registry :: "registry \<Rightarrow> bool" where
  start: "reachable_registry new_registry"
| add: "reachable_registry r \<Longrightarrow> ids_left r \<Longrightarrow> registry_add spec r = (x, r') \<Longrightarrow> reachable_registry r'"
| active: "reachable_registry r \<Longrightarrow> mark_active i sub r = (x, r') \<Longrightarrow> reachable_registry r'"
| inactive: "reachable_registry r \<Longrightarrow> reachable_registry (mark_inactive i err r)"
| clear: "reachable_registry r \<Longrightarrow> clear_active_handles ord r = (hs, r') \<Longrightarrow> reachable_registry r'"
| remove: "reachable_registry r \<Longrightarrow> registry_remove i r = (h, r') \<Longrightarrow> reachable_registry r'"

lemma reachable_ok: "reachable_registry r \<Longrightarrow> reg_ok r"
  by (induction rule: reachable_registry.induct)
    (auto intro: new_registry_ok registry_add_ok mark_active_ok mark_inactive_ok
      clear_active_handles_ok registry_remove_ok)

definition sample_spec :: add_spec where
  "sample_spec = \<lparr>as_kind = kind_configure, as_target = ''ap-1'', as_action = [],
     as_subject = ''cmd.configure.ap-1'', as_queue_group = [], as_callback = Some 4\<rparr>"

lemma sample_spec_valid: "validate_add_spec sample_spec = None"
  by (simp add: validate_add_spec_def sample_spec_def kind_defs go_simps)

definition sample_registry :: registry where
  "sample_registry = snd (registry_add sample_spec new_registry)"

lemma sample_add: "registry_add sample_spec new_registry = (fst (registry_add sample_spec new_registry), sample_registry)"
  by (simp add: sample_registry_def)

lemma new_ids_left: "ids_left new_registry"
  by (simp add: ids_left_def new_registry_def)

lemma sample_reachable: "reachable_registry sample_registry"
  using reachable_registry.start new_ids_left sample_add by (rule reachable_registry.add)

lemma sample_added: "is_ok (fst (registry_add sample_spec new_registry))"
  by (simp add: registry_add_def sample_spec_valid Let_def new_registry_def)

text \<open>C27: in every registry that a sequence of operations can produce, the two indices agree, each
  entry sits under its own id and under the key of its kind, subject and queue group, no two
  entries share a key, an entry is active exactly when it holds a handle, and the active count
  never exceeds the registered count.\<close>

theorem registry_consistent:
  assumes "reachable_registry r"
  shows "reg_ok r \<and> snd (registry_counts r) \<le> fst (registry_counts r) \<and>
    (\<forall>i j e e'. gomap_get (rg_entries r) i = Some e \<and> gomap_get (rg_entries r) j = Some e' \<and>
      en_key e = en_key e' \<longrightarrow> i = j)"
proof -
  have ok: "reg_ok r" using assms by (rule reachable_ok)
  have "i = j" if "gomap_get (rg_entries r) i = Some e" "gomap_get (rg_entries r) j = Some e'"
    "en_key e = en_key e'" for i j e e'
    using reg_okD(2) [OF ok that(1)] reg_okD(2) [OF ok that(2)] that(3) by simp
  then show ?thesis using ok counts_active by blast
qed

theorem registry_consistent_witness: "reg_ok sample_registry"
  using registry_consistent [OF sample_reachable] by blast

text \<open>C28: \<^verbatim>\<open>Add\<close> accepts a registration exactly when it is complete and no other registration has
  the same key; then it can be found under a new id, inactive, with the given kind, subject, queue
  group and callback, and nothing else changes. A refused registration changes no entry.\<close>

theorem registry_add_spec:
  assumes "reg_ok r" and "ids_left r" and "registry_add spec r = (x, r')"
  shows "(is_ok x \<longleftrightarrow> validate_add_spec spec = None \<and>
      (\<forall>i e. gomap_get (rg_entries r) i = Some e \<longrightarrow>
        en_key e \<noteq> registration_key (as_kind spec) (as_subject spec) (as_queue_group spec))) \<and>
    (case x of
       Inl err \<Rightarrow> rg_entries r' = rg_entries r \<and> rg_by_key r' = rg_by_key r
     | Inr sn \<Rightarrow> \<not> registered r (sn_id sn) \<and>
         (\<exists>cb. as_callback spec = Some cb \<and> get_activation_record r' (sn_id sn) = Some
            \<lparr>ar_id = sn_id sn, ar_kind = as_kind spec, ar_subject = as_subject spec,
             ar_queue_group = as_queue_group spec, ar_callback = cb, ar_active_sub = None,
             ar_active = False\<rparr>) \<and>
         (\<forall>i. i \<noteq> sn_id sn \<longrightarrow> get_activation_record r' i = get_activation_record r i))"
proof -
  let ?key = "registration_key (as_kind spec) (as_subject spec) (as_queue_group spec)"
  note ok = reg_ok_indices [OF assms(1)]
  have keys: "gomap_get (rg_by_key r) ?key = None \<longleftrightarrow>
      (\<forall>i e. gomap_get (rg_entries r) i = Some e \<longrightarrow> en_key e \<noteq> ?key)"
    using indices_okD(2) [OF ok] indices_ok_key [OF ok] by (metis option.distinct(1) option.exhaust)
  from assms(3) show ?thesis
  proof (cases rule: registry_add_cases)
    case (invalid err)
    then show ?thesis by simp
  next
    case (conflict existing)
    then show ?thesis using keys by simp
  next
    case (added e)
    have "\<not> registered r (en_id e)" using fresh_id [OF assms(1,2)] added by (simp add: registered_def)
    then show ?thesis using added keys
      by (auto simp: snapshot_from_entry_def get_activation_record_def activation_from_entry_def
          simp del: map_of_eq_Some_iff)
  qed
qed

theorem registry_add_spec_witness:
  "reg_ok new_registry \<and> is_ok (fst (registry_add sample_spec new_registry))"
  using registry_add_spec [OF new_registry_ok new_ids_left sample_add] new_registry_ok sample_spec_valid
  by (simp add: new_registry_def)

lemma registry_add_undo:
  assumes "reg_ok r" and "ids_left r" and "registry_add spec r = (Inr sn, r1)"
  shows "registry_remove (sn_id sn) r1 =
    (Some \<lparr>ah_id = sn_id sn, ah_subject = as_subject spec, ah_sub = None\<rparr>,
     r\<lparr>rg_next_id := rg_next_id r + 1\<rparr>)"
  using assms(3)
proof (cases rule: registry_add_cases)
  case (added e)
  have fresh: "en_id e \<notin> fst ` set (rg_entries r)" "en_key e \<notin> fst ` set (rg_by_key r)"
    using fresh_id [OF assms(1,2)] added(2,5,6) by (simp_all add: map_of_eq_None_iff)
  have undo: "AList.delete k (AList.update k v m) = m" if "k \<notin> fst ` set m" for k :: string and v :: "'x" and m
    using that by (induction m) auto
  have get: "gomap_get (rg_entries r1) (sn_id sn) = Some e" and sn: "sn_id sn = en_id e"
    using added(3) by (simp_all add: added(4) snapshot_from_entry_def)
  have "registry_remove (sn_id sn) r1 = (Some (handle_of e),
      r1\<lparr>rg_entries := gomap_del (en_id e) (rg_entries r1), rg_by_key := gomap_del (en_key e) (rg_by_key r1)\<rparr>)"
    unfolding registry_remove_def using get sn by simp
  then show ?thesis using added(8,11) fresh sn by (simp add: added(4) handle_of_def undo)
qed simp_all

lemma registry_added:
  assumes "reg_ok r" and "ids_left r" and "registry_add spec r = (Inr sn, r1)"
  obtains rec where "get_activation_record r1 (sn_id sn) = Some rec" "ar_id rec = sn_id sn" "\<not> ar_active rec"
    "ar_active_sub rec = None" "ar_subject rec = as_subject spec" "ar_queue_group rec = as_queue_group spec"
    "as_callback spec = Some (ar_callback rec)" "held_by r1 (sn_id sn) = None"
  using assms(3)
proof (cases rule: registry_add_cases)
  case (added e)
  show thesis
    by (rule that [of "activation_from_entry e"])
      (use added in \<open>simp_all add: get_activation_record_def activation_from_entry_def snapshot_from_entry_def held_by_def\<close>)
qed simp_all

text \<open>Rolling a registration back undoes it: removing what \<^verbatim>\<open>Add\<close> returned leaves both indices
  as they were, and hands back no handle to clean up.\<close>

theorem registry_add_remove:
  assumes "reg_ok r" and "ids_left r" and "registry_add spec r = (Inr sn, r1)"
    and "registry_remove (sn_id sn) r1 = (h, r2)"
  shows "r2 = r\<lparr>rg_next_id := rg_next_id r + 1\<rparr> \<and>
    h = Some \<lparr>ah_id = sn_id sn, ah_subject = as_subject spec, ah_sub = None\<rparr>"
  using registry_add_undo [OF assms(1-3)] assms(4) by simp

theorem registry_add_remove_witness:
  "\<exists>sn h r2. fst (registry_add sample_spec new_registry) = Inr sn \<and>
     registry_remove (sn_id sn) sample_registry = (h, r2) \<and> gomap_get (rg_entries r2) = Map.empty"
proof -
  obtain sn where sn: "fst (registry_add sample_spec new_registry) = Inr sn"
    using sample_added by (cases "fst (registry_add sample_spec new_registry)") auto
  obtain h r2 where rm: "registry_remove (sn_id sn) sample_registry = (h, r2)" by fastforce
  have "registry_add sample_spec new_registry = (Inr sn, sample_registry)" using sample_add sn by simp
  from registry_add_remove [OF new_registry_ok new_ids_left this rm] sn rm show ?thesis
    by (auto simp: new_registry_def)
qed

text \<open>Activating a registration never loses a handle: afterwards the registration holds the new
  subscription, and every subscription that was held before is still held or is handed back to be
  unsubscribed; removing a registration hands back its handle.\<close>

theorem handles_conserved:
  assumes "mark_active i (Some s) r = (stale, r')" and "registered r i"
    and "registry_remove i r' = (h, r'')"
  shows "held_by r' i = Some s \<and>
    (\<forall>j s'. held_by r j = Some s' \<longrightarrow> held_by r' j = Some s' \<or> stale = Some s') \<and>
    (\<exists>a. h = Some a \<and> ah_sub a = Some s) \<and>
    (\<forall>j s'. held_by r' j = Some s' \<and> j \<noteq> i \<longrightarrow> held_by r'' j = Some s')"
proof -
  note held = subs.activate_held [OF assms(1,2)]
  note gone = subs.remove_held [OF assms(3)]
  have "registered r' i" using held assms(2) by simp
  then show ?thesis
    using held gone subs.activate_conserves [OF assms(1,2)] by auto
qed

lemma first_id: "registration_id 1 = ''sub-1''"
  by code_simp

lemma sample_registered: "registered sample_registry ''sub-1''"
  by (simp add: registered_def sample_registry_def registry_add_def sample_spec_valid Let_def
      new_registry_def first_id)

theorem handles_conserved_witness:
  "held_by (snd (mark_active ''sub-1'' (Some 11) sample_registry)) ''sub-1'' = Some 11"
proof -
  obtain stale r' where m: "mark_active ''sub-1'' (Some 11) sample_registry = (stale, r')" by fastforce
  obtain h r'' where "registry_remove ''sub-1'' r' = (h, r'')" by fastforce
  from handles_conserved [OF m sample_registered this] m show ?thesis by simp
qed

lemma clear_active_hands_back:
  assumes "reg_ok r" and "order_ok ord" and "clear_active_handles ord r = (hs, r')"
  shows "held_by r i = Some s \<longleftrightarrow> (\<exists>h \<in> set hs. ah_id h = i \<and> ah_sub h = Some s)"
    and "\<forall>h \<in> set hs. ah_sub h \<noteq> None"
proof -
  have wf: "gomap_wf (rg_entries r)" using assms(1) by (simp add: reg_ok_def)
  note it = range_entries_iff [OF assms(2) wf]
  have hs: "hs = map handle_of (filter (\<lambda>e. en_active_sub e \<noteq> None) (range_entries ord r))"
    using assms(3) by (auto simp: clear_active_handles_def)
  show "held_by r i = Some s \<longleftrightarrow> (\<exists>h \<in> set hs. ah_id h = i \<and> ah_sub h = Some s)"
  proof
    assume "held_by r i = Some s"
    then obtain e where e: "gomap_get (rg_entries r) i = Some e" "en_active_sub e = Some s"
      by (auto simp: held_by_def simp del: map_of_eq_Some_iff split: option.splits)
    then have "handle_of e \<in> set hs" using it by (auto simp: hs simp del: map_of_eq_Some_iff)
    with e reg_okD(3) [OF assms(1) e(1)] show "\<exists>h \<in> set hs. ah_id h = i \<and> ah_sub h = Some s"
      by (intro bexI [of _ "handle_of e"]) (auto simp: handle_of_def)
  next
    assume "\<exists>h \<in> set hs. ah_id h = i \<and> ah_sub h = Some s"
    then obtain e j where e: "gomap_get (rg_entries r) j = Some e" "en_id e = i" "en_active_sub e = Some s"
      using it by (auto simp: hs handle_of_def simp del: map_of_eq_Some_iff)
    with reg_okD(3) [OF assms(1) e(1)] show "held_by r i = Some s"
      by (simp add: held_by_def del: map_of_eq_Some_iff)
  qed
  show "\<forall>h \<in> set hs. ah_sub h \<noteq> None" by (auto simp: hs handle_of_def)
qed

lemma clear_active_leaves:
  assumes "clear_active_handles ord r = (hs, r')"
  shows "held_by r' i = None" "registered r' = registered r" "registry_counts r' = (fst (registry_counts r), 0)"
    "rg_next_id r' = rg_next_id r" "rg_by_key r' = rg_by_key r"
proof -
  have r': "r' = r\<lparr>rg_entries := map (\<lambda>(i, e). (i, deactivate e)) (rg_entries r)\<rparr>"
    using assms by (auto simp: clear_active_handles_def)
  have get: "gomap_get (rg_entries r') i = map_option deactivate (gomap_get (rg_entries r) i)" for i
    by (simp add: r' gomap_get_deactivate)
  show "held_by r' i = None" by (auto simp: held_by_def get deactivate_def simp del: map_of_eq_Some_iff split: option.splits)
  show "registered r' = registered r" by (rule ext) (simp add: registered_def get del: map_of_eq_None_iff)
  show "registry_counts r' = (fst (registry_counts r), 0)"
    by (auto simp: registry_counts_def r' deactivate_def filter_map o_def case_prod_beta)
  show "rg_next_id r' = rg_next_id r" "rg_by_key r' = rg_by_key r" by (simp_all add: r')
qed

text \<open>\<^verbatim>\<open>ClearActiveHandles\<close> hands back exactly the handles that were held, each with its
  registration, in whatever order the map is traversed; afterwards none is held and no registration
  counts as active, while every registration is kept for a later start.\<close>

theorem clear_active_handles_spec:
  assumes "reg_ok r" and "order_ok ord" and "clear_active_handles ord r = (hs, r')"
  shows "(\<forall>i s. held_by r i = Some s \<longleftrightarrow> (\<exists>h \<in> set hs. ah_id h = i \<and> ah_sub h = Some s)) \<and>
    (\<forall>h \<in> set hs. ah_sub h \<noteq> None) \<and> (\<forall>i. held_by r' i = None) \<and>
    registered r' = registered r \<and> registry_counts r' = (fst (registry_counts r), 0)"
  using clear_active_hands_back [OF assms] clear_active_leaves [OF assms(3)] by blast

theorem clear_active_handles_spec_witness:
  "\<forall>i. held_by (snd (clear_active_handles rev sample_registry)) i = None"
proof -
  obtain hs r' where c: "clear_active_handles rev sample_registry = (hs, r')" by fastforce
  have "order_ok (rev :: string list \<Rightarrow> string list)" by (simp add: order_ok_def)
  from clear_active_handles_spec [OF reachable_ok [OF sample_reachable] this c] c
  show ?thesis by simp
qed

end
