(* ===== verification/Client.thy ===== *)
theory Client
  imports Session_Store Registry
begin

text \<open>
  The facade, \<^verbatim>\<open>agentcore.Client\<close>: its configuration (\<^verbatim>\<open>agentcore/config.go\<close>), the options of
  \<^verbatim>\<open>New\<close>, its state, construction, and the small operations its parts share: the handler context,
  health, logging (\<^verbatim>\<open>agentcore/client.go\<close>, \<^verbatim>\<open>agentcore/handlers_runtime.go\<close>). The function
  fields that the tests of the repository inject are nil in every client \<^verbatim>\<open>New\<close> returns and are
  not modelled.
\<close>

section \<open>Configuration\<close>

record client_tls_config =
  atls_enabled :: bool
  atls_insecure_skip_verify :: bool
  atls_ca_file :: string
  atls_cert_file :: string
  atls_key_file :: string
  atls_server_name :: string

record client_nats_config =
  an_servers :: "string list"
  an_client_name :: string
  an_credentials_file :: string
  an_nkey_seed_file :: string
  an_user_jwt_file :: string
  an_username :: string
  an_password :: string
  an_token :: string
  an_connect_timeout :: duration
  an_retry_on_failed_connect :: bool
  an_max_reconnects :: int
  an_reconnect_wait :: duration
  an_reconnect_buf_size :: int
  an_tls :: "client_tls_config option"

record client_jetstream_config =
  aj_domain :: string
  aj_api_prefix :: string
  aj_default_timeout :: duration

record subject_config =
  ap_configure :: string
  ap_action :: string
  ap_result :: string
  ap_status :: string
  ap_health :: string

record client_kv_config =
  ak_bucket :: string
  ak_key_pattern :: string
  ak_auto_create_bucket :: bool
  ak_history :: "8 word"
  ak_ttl :: duration
  ak_max_value_size :: int
  ak_storage :: string
  ak_replicas :: int

record client_timeout_config =
  at_publish :: duration
  at_subscribe :: duration
  at_kv :: duration
  at_shutdown :: duration

record client_retry_config =
  ay_publish_attempts :: int
  ay_publish_backoff :: duration

text \<open>The hooks of a configuration, present or not.\<close>

record observe_config =
  ao_logger :: bool
  ao_metrics :: bool

record client_config =
  ac_agent_name :: string
  ac_config_version :: string
  ac_nats :: client_nats_config
  ac_jetstream :: client_jetstream_config
  ac_subjects :: subject_config
  ac_kv :: client_kv_config
  ac_timeouts :: client_timeout_config
  ac_retry :: client_retry_config
  ac_observe :: observe_config

definition to_session_tls :: "client_tls_config option \<Rightarrow> tls_config option" where
  "to_session_tls cfg = (case cfg of
     None \<Rightarrow> None
   | Some t \<Rightarrow> Some \<lparr>tls_enabled = atls_enabled t,
       tls_insecure_skip_verify = atls_insecure_skip_verify t, tls_ca_file = atls_ca_file t,
       tls_cert_file = atls_cert_file t, tls_key_file = atls_key_file t,
       tls_server_name = atls_server_name t\<rparr>)"

definition to_session_config :: "client_config \<Rightarrow> session_config" where
  "to_session_config cfg =
     (let n = ac_nats cfg; j = ac_jetstream cfg; k = ac_kv cfg; t = ac_timeouts cfg; r = ac_retry cfg
      in \<lparr>sc_agent_name = ac_agent_name cfg,
       sc_nats = \<lparr>nc_servers = an_servers n, nc_client_name = an_client_name n,
         nc_credentials_file = an_credentials_file n, nc_nkey_seed_file = an_nkey_seed_file n,
         nc_user_jwt_file = an_user_jwt_file n, nc_username = an_username n,
         nc_password = an_password n, nc_token = an_token n,
         nc_connect_timeout = an_connect_timeout n,
         nc_retry_on_failed_connect = an_retry_on_failed_connect n,
         nc_max_reconnects = an_max_reconnects n, nc_reconnect_wait = an_reconnect_wait n,
         nc_reconnect_buf_size = an_reconnect_buf_size n, nc_tls = to_session_tls (an_tls n)\<rparr>,
       sc_jetstream = \<lparr>jc_domain = aj_domain j, jc_api_prefix = aj_api_prefix j,
         jc_default_timeout = aj_default_timeout j\<rparr>,
       sc_kv = \<lparr>kc_bucket = ak_bucket k, kc_key_pattern = ak_key_pattern k,
         kc_auto_create_bucket = ak_auto_create_bucket k, kc_history = ak_history k,
         kc_ttl = ak_ttl k, kc_max_value_size = ak_max_value_size k, kc_storage = ak_storage k,
         kc_replicas = ak_replicas k\<rparr>,
       sc_timeouts = \<lparr>tc_publish = at_publish t, tc_subscribe = at_subscribe t, tc_kv = at_kv t,
         tc_shutdown = at_shutdown t\<rparr>,
       sc_retry = \<lparr>rc_publish_attempts = ay_publish_attempts r, rc_publish_backoff = ay_publish_backoff r\<rparr>\<rparr>)"

definition to_pattern_config :: "subject_config \<Rightarrow> pattern_config" where
  "to_pattern_config s = \<lparr>pc_configure = ap_configure s, pc_action = ap_action s,
     pc_result = ap_result s, pc_status = ap_status s, pc_health = ap_health s\<rparr>"

section \<open>Options\<close>

text \<open>
  What the options of \<^verbatim>\<open>New\<close> set. Hooks, handlers and the error sink are present or not; the
  clock is the environment's. An option is one of the exported constructors, applied to a value
  that may be nil.
\<close>

record client_options =
  co_logger :: bool
  co_metrics :: bool
  co_error_sink :: bool
  co_reconnect_handler :: bool
  co_disconnect_handler :: bool

datatype client_option =
    WithLogger bool | WithMetrics bool | WithClock bool | WithErrorSink bool
  | WithReconnectHandler bool | WithDisconnectHandler bool

definition apply_option :: "client_option \<Rightarrow> client_options \<Rightarrow> gerr + client_options" where
  "apply_option opt opts = (case opt of
     WithLogger l \<Rightarrow> Inr (opts\<lparr>co_logger := l\<rparr>)
   | WithMetrics m \<Rightarrow> Inr (opts\<lparr>co_metrics := m\<rparr>)
   | WithClock present \<Rightarrow>
       (if \<not> present then Inl (AgError CodeValidation ''with_clock'' [] [] ''clock function is nil'' False None)
        else Inr opts)
   | WithErrorSink f \<Rightarrow> Inr (opts\<lparr>co_error_sink := f\<rparr>)
   | WithReconnectHandler h \<Rightarrow> Inr (opts\<lparr>co_reconnect_handler := h\<rparr>)
   | WithDisconnectHandler h \<Rightarrow> Inr (opts\<lparr>co_disconnect_handler := h\<rparr>))"

text \<open>Nil options are skipped; the first that fails ends the construction.\<close>

fun apply_options :: "client_option option list \<Rightarrow> client_options \<Rightarrow> gerr + client_options" where
  "apply_options [] opts = Inr opts"
| "apply_options (None # os) opts = apply_options os opts"
| "apply_options (Some opt # os) opts = (case apply_option opt opts of
     Inl err \<Rightarrow> Inl err | Inr opts' \<Rightarrow> apply_options os opts')"

text \<open>The sink \<^verbatim>\<open>New\<close> installs converts every error before the agent's function sees it.\<close>

definition client_sink :: "client_options \<Rightarrow> error_sink" where
  "client_sink opts = (if co_error_sink opts then Some public_error else None)"

section \<open>State\<close>

text \<open>
  \<open>cl_watches\<close> is the map of watch intents, \<open>aw_stop\<close> the stop function of the running watch, which
  whoever calls it has taken out of the map before or replaces. The current handler context is \<open>cl_handler_ctx\<close>;
  \<open>cl_handler_cancel\<close> says that its cancel function is still held, \<open>cl_handler_done\<close> that it was
  called.
\<close>

record active_watch =
  aw_id :: u64
  aw_target :: string
  aw_handler :: nat
  aw_stop :: "watch_stop option"
  aw_ctx :: "gctx option"

record client =
  cl_cfg :: client_config
  cl_options :: client_options
  cl_session :: manager
  cl_subs :: registry
  cl_subjects :: builder
  cl_handler_ctx :: "gctx option"
  cl_handler_cancel :: bool
  cl_handler_done :: bool
  cl_next_watch :: u64
  cl_watches :: "(u64, active_watch) gomap"
  cl_callbacks :: bool

text \<open>The store and the publisher that \<^verbatim>\<open>New\<close> builds on the session.\<close>

definition client_store :: "'e ext \<Rightarrow> client \<Rightarrow> 'e kv_store" where
  "client_store X c = manager_store X (cl_session c)"

definition client_publisher :: "'e ext \<Rightarrow> client \<Rightarrow> 'e publisher" where
  "client_publisher X c =
     (let eff = m_effective (cl_session c) in
      \<lparr>pb_connection = connection X (cl_session c), pb_publish_timeout = tc_publish (sc_timeouts eff),
        pb_attempts = rc_publish_attempts (sc_retry eff), pb_backoff = rc_publish_backoff (sc_retry eff),
        pb_logger = co_logger (cl_options c), pb_metrics = co_metrics (cl_options c)\<rparr>)"

definition no_options :: client_options where
  "no_options = \<lparr>co_logger = False, co_metrics = False, co_error_sink = False,
     co_reconnect_handler = False, co_disconnect_handler = False\<rparr>"

definition sync_subscription_health :: "client \<Rightarrow> client" where
  "sync_subscription_health c =
     (let (registered, active) = registry_counts (cl_subs c)
      in c\<lparr>cl_session := set_subscription_counts registered active (cl_session c)\<rparr>)"

definition new_client :: "nats_defaults \<Rightarrow> client_config \<Rightarrow> client_option option list \<Rightarrow> gerr + client" where
  "new_client D cfg os =
     (case apply_options os no_options of
        Inl err \<Rightarrow> Inl err
      | Inr opts0 \<Rightarrow>
     (let opts = opts0\<lparr>co_logger := co_logger opts0 \<or> ao_logger (ac_observe cfg),
                       co_metrics := co_metrics opts0 \<or> ao_metrics (ac_observe cfg)\<rparr> in
      case patterns_from_config (to_pattern_config (ac_subjects cfg)) of
        Inl err \<Rightarrow> Inl (public_error err)
      | Inr pats \<Rightarrow>
     (case new_builder pats of
        Inl err \<Rightarrow> Inl (public_error err)
      | Inr b \<Rightarrow>
     (case new_manager D (to_session_config cfg) (co_logger opts) (co_metrics opts) (client_sink opts) of
        Inl err \<Rightarrow> Inl (public_error err)
      | Inr m \<Rightarrow>
          (let c = sync_subscription_health \<lparr>cl_cfg = cfg, cl_options = opts, cl_session = m,
                     cl_subs = new_registry, cl_subjects = b, cl_handler_ctx = None,
                     cl_handler_cancel = False, cl_handler_done = False, cl_next_watch = 0,
                     cl_watches = [], cl_callbacks = False\<rparr>
           in Inr (c\<lparr>cl_session := set_handlers (cl_session c)\<rparr>))))))"

section \<open>Shared operations\<close>

definition client_health :: "client \<Rightarrow> health_snapshot" where
  "client_health c = m_health (cl_session c)"

definition log_client :: "client \<Rightarrow> log_level \<Rightarrow> string \<Rightarrow> 'e world \<Rightarrow> 'e world" where
  "log_client c level msg w = emit_if (co_logger (cl_options c)) (EvLog level msg) w"

definition report_client :: "client \<Rightarrow> gerr \<Rightarrow> 'e world \<Rightarrow> 'e world" where
  "report_client c err w = sink_error (client_sink (cl_options c)) err w"

definition count_subscribe :: "client \<Rightarrow> string \<Rightarrow> string \<Rightarrow> string \<Rightarrow> 'e world \<Rightarrow> 'e world" where
  "count_subscribe c kind subject result w =
     emit_if (co_metrics (cl_options c)) (EvIncSubscribe kind subject result) w"

text \<open>A context is done exactly when its cancel function was called: its parent never is.\<close>

definition ensure_handler_context :: "'e ext \<Rightarrow> client \<Rightarrow> 'e world \<Rightarrow> client \<times> 'e world" where
  "ensure_handler_context X c w =
     (if cl_handler_ctx c \<noteq> None \<and> \<not> cl_handler_done c then (c, w)
      else (let (n, w1) = query (x_new_ctx X) w
            in (c\<lparr>cl_handler_ctx := Some (CtxCancel CtxBackground n), cl_handler_cancel := True,
                  cl_handler_done := False\<rparr>, w1)))"

definition cancel_handler_context :: "client \<Rightarrow> 'e world \<Rightarrow> client \<times> 'e world" where
  "cancel_handler_context c w =
     (if cl_handler_cancel c
      then (c\<lparr>cl_handler_cancel := False, cl_handler_done := True\<rparr>,
            (case cl_handler_ctx c of None \<Rightarrow> w | Some ctx \<Rightarrow> emit (EvCancel ctx) w))
      else (c, w))"

text \<open>\<^verbatim>\<open>canceledCtx\<close> stands in until the first start.\<close>

definition canceled_ctx :: gctx where "canceled_ctx = CtxCancel CtxBackground 0"

definition handler_context :: "client \<Rightarrow> gctx" where
  "handler_context c = (case cl_handler_ctx c of None \<Rightarrow> canceled_ctx | Some ctx \<Rightarrow> ctx)"

section \<open>Samples\<close>

definition sample_client_config :: client_config where
  "sample_client_config = \<lparr>ac_agent_name = ''vyos'', ac_config_version = ''1'',
     ac_nats = \<lparr>an_servers = ['' nats://a ''], an_client_name = [], an_credentials_file = [],
       an_nkey_seed_file = [], an_user_jwt_file = [], an_username = [], an_password = [],
       an_token = [], an_connect_timeout = 0, an_retry_on_failed_connect = False,
       an_max_reconnects = 0, an_reconnect_wait = 7, an_reconnect_buf_size = 0, an_tls = None\<rparr>,
     ac_jetstream = \<lparr>aj_domain = [], aj_api_prefix = [], aj_default_timeout = 0\<rparr>,
     ac_subjects = \<lparr>ap_configure = [], ap_action = [], ap_result = [], ap_status = [], ap_health = []\<rparr>,
     ac_kv = \<lparr>ak_bucket = [], ak_key_pattern = [], ak_auto_create_bucket = True, ak_history = 0,
       ak_ttl = 0, ak_max_value_size = 0, ak_storage = '' FILE '', ak_replicas = 0\<rparr>,
     ac_timeouts = \<lparr>at_publish = 9, at_subscribe = 0, at_kv = 0, at_shutdown = 0\<rparr>,
     ac_retry = \<lparr>ay_publish_attempts = 2, ay_publish_backoff = 0\<rparr>,
     ac_observe = \<lparr>ao_logger = False, ao_metrics = True\<rparr>\<rparr>"

lemma sample_client_config_session: "to_session_config sample_client_config = sample_config"
  by (simp add: to_session_config_def to_session_tls_def sample_client_config_def sample_config_def)

text \<open>A client with a live session.\<close>

definition sample_client :: client where
  "sample_client = \<lparr>cl_cfg = sample_client_config,
     cl_options = \<lparr>co_logger = True, co_metrics = True, co_error_sink = True,
       co_reconnect_handler = True, co_disconnect_handler = True\<rparr>,
     cl_session = sample_live, cl_subs = new_registry, cl_subjects = default_builder,
     cl_handler_ctx = None, cl_handler_cancel = False, cl_handler_done = False, cl_next_watch = 0,
     cl_watches = [], cl_callbacks = True\<rparr>"

end
