(* ===== verification/Client_Send.thy ===== *)
theory Client_Send
  imports Client
begin

text \<open>
  Sending: the submissions and publications of the facade and its access to the desired
  configuration (\<^verbatim>\<open>agentcore/client.go\<close>). A submission of a configuration stores first and
  notifies afterwards.
\<close>

section \<open>Desired configuration\<close>

definition client_store_desired ::
  "'e ext \<Rightarrow> client \<Rightarrow> gctx option \<Rightarrow> desired_config_record \<Rightarrow> 'e world \<Rightarrow>
   (gerr + stored_desired_config) \<times> 'e world" where
  "client_store_desired X c mctx rec w =
     (let (r, w1) = store_desired_config X (client_store X c) mctx rec w
      in (case r of Inl err \<Rightarrow> Inl (public_error err) | Inr sd \<Rightarrow> Inr sd, w1))"

text \<open>\<^verbatim>\<open>fromKVStored\<close> leaves \<^verbatim>\<open>Deleted\<close> at false, which it always is for a loaded record.\<close>

definition from_kv_stored :: "stored_desired_config \<Rightarrow> stored_desired_config" where
  "from_kv_stored sd = sd\<lparr>sd_deleted := False\<rparr>"

definition client_load_desired ::
  "'e ext \<Rightarrow> client \<Rightarrow> gctx option \<Rightarrow> string \<Rightarrow> 'e world \<Rightarrow> (gerr + stored_desired_config) \<times> 'e world" where
  "client_load_desired X c mctx target w =
     (let (r, w1) = load_desired_config X (client_store X c) mctx target w
      in (case r of Inl err \<Rightarrow> Inl (public_error err) | Inr sd \<Rightarrow> Inr (from_kv_stored sd), w1))"

definition startup_reconcile ::
  "'e ext \<Rightarrow> client \<Rightarrow> gctx option \<Rightarrow> string \<Rightarrow> 'e world \<Rightarrow> (gerr + stored_desired_config) \<times> 'e world" where
  "startup_reconcile X c mctx target w = client_load_desired X c mctx target w"

section \<open>Contexts, encoding and publishing\<close>

definition validate_operation_context ::
  "'e ext \<Rightarrow> string \<Rightarrow> gctx option \<Rightarrow> 'e world \<Rightarrow> gerr option \<times> 'e world" where
  "validate_operation_context X op mctx w =
     (case mctx of
        None \<Rightarrow> (Some (validation_error op ''context is required''), w)
      | Some ctx \<Rightarrow>
          (let (ce, w1) = query (x_ctx_err X ctx) w
           in (case ce of
                 None \<Rightarrow> None
               | Some err \<Rightarrow> Some (AgError CodeValidation op [] [] ''context is not usable'' False (Some err)), w1)))"

definition encode_failed :: "string \<Rightarrow> string \<Rightarrow> string \<Rightarrow> gerr \<Rightarrow> gerr" where
  "encode_failed op subject msg err = AgError CodeEncodeFailed op subject [] msg False (Some err)"

definition client_publish ::
  "'e ext \<Rightarrow> client \<Rightarrow> gctx option \<Rightarrow> string \<Rightarrow> kind \<Rightarrow> string \<Rightarrow> bytes \<Rightarrow> 'e world \<Rightarrow>
   gerr option \<times> 'e world" where
  "client_publish X c mctx op kind subject payload w =
     (let (r, w1) = publish X (client_publisher X c) mctx op kind subject payload w
      in (to_public_error r, w1))"

section \<open>Submissions\<close>

definition submit_record :: "configure_command \<Rightarrow> desired_config_record" where
  "submit_record cmd = \<lparr>dr_version = cc_version cmd, dr_rpc_id = cc_rpc_id cmd,
     dr_target = cc_target cmd, dr_uuid = cc_uuid cmd, dr_payload = cc_payload cmd,
     dr_timestamp = cc_timestamp cmd\<rparr>"

definition submit_notification ::
  "configure_command \<Rightarrow> stored_desired_config \<Rightarrow> gotime \<Rightarrow> configure_notification" where
  "submit_notification cmd stored now = \<lparr>cn_version = cc_version cmd, cn_rpc_id = cc_rpc_id cmd,
     cn_target = cc_target cmd, cn_command_type = ''configure'', cn_uuid = cc_uuid cmd,
     cn_kv_bucket = sd_bucket stored, cn_kv_key = sd_key stored, cn_timestamp = time_utc now\<rparr>"

definition configure_ack ::
  "configure_command \<Rightarrow> stored_desired_config \<Rightarrow> string \<Rightarrow> gotime \<Rightarrow> submission_ack" where
  "configure_ack cmd stored subject now = \<lparr>sa_accepted = True, sa_rpc_id = cc_rpc_id cmd,
     sa_target = cc_target cmd, sa_subject = subject, sa_accepted_at = now,
     sa_kv_bucket = sd_bucket stored, sa_kv_key = sd_key stored, sa_kv_revision = sd_revision stored\<rparr>"

text \<open>What follows a successful store.\<close>

definition notify_configure ::
  "'e ext \<Rightarrow> client \<Rightarrow> gctx option \<Rightarrow> configure_command \<Rightarrow> stored_desired_config \<Rightarrow> 'e world \<Rightarrow>
   (gerr + submission_ack) \<times> 'e world" where
  "notify_configure X c mctx cmd stored w =
     (case configure_subject (cl_subjects c) (cc_target cmd) of
        Inl err \<Rightarrow> (Inl (public_error err), w)
      | Inr subject \<Rightarrow>
     (let (now, w1) = query (x_clock X) w;
          note = submit_notification cmd stored now
      in case validate_configure_notification ''submit_configure'' note of
        Some err \<Rightarrow> (Inl err, w1)
      | None \<Rightarrow>
     (case marshal_configure_notification note of
        Inl err \<Rightarrow> (Inl (encode_failed ''submit_configure_encode_notification'' subject
             ''failed to encode configure notification'' err), w1)
      | Inr payload \<Rightarrow>
     (let (r, w2) = client_publish X c mctx ''submit_configure_publish_notification'' kind_configure
                      subject payload w1
      in case r of
        Some err \<Rightarrow> (Inl err, w2)
      | None \<Rightarrow> (Inr (configure_ack cmd stored subject (cn_timestamp note)), w2)))))"

text \<open>The store's result is never nil in the model, as in the code.\<close>

definition submit_configure ::
  "'e ext \<Rightarrow> client \<Rightarrow> gctx option \<Rightarrow> configure_command \<Rightarrow> 'e world \<Rightarrow>
   (gerr + submission_ack) \<times> 'e world" where
  "submit_configure X c mctx cmd w =
     (let op = ''submit_configure'';
          (ce, w1) = validate_operation_context X op mctx w
      in case ce of
        Some err \<Rightarrow> (Inl err, w1)
      | None \<Rightarrow>
     (case validate_configure_command op cmd of
        Some err \<Rightarrow> (Inl err, w1)
      | None \<Rightarrow>
     (let (r, w2) = client_store_desired X c mctx (submit_record cmd) w1
      in case r of
        Inl err \<Rightarrow> (Inl err, w2)
      | Inr stored \<Rightarrow> notify_configure X c mctx cmd stored w2)))"

definition action_ack :: "action_command \<Rightarrow> string \<Rightarrow> gotime \<Rightarrow> submission_ack" where
  "action_ack cmd subject now = \<lparr>sa_accepted = True, sa_rpc_id = ac_rpc_id cmd,
     sa_target = ac_target cmd, sa_subject = subject, sa_accepted_at = time_utc now,
     sa_kv_bucket = [], sa_kv_key = [], sa_kv_revision = 0\<rparr>"

definition submit_action ::
  "'e ext \<Rightarrow> client \<Rightarrow> gctx option \<Rightarrow> action_command \<Rightarrow> 'e world \<Rightarrow> (gerr + submission_ack) \<times> 'e world" where
  "submit_action X c mctx cmd w =
     (let op = ''submit_action'';
          (ce, w1) = validate_operation_context X op mctx w
      in case ce of
        Some err \<Rightarrow> (Inl err, w1)
      | None \<Rightarrow>
     (case validate_action_command op cmd of
        Some err \<Rightarrow> (Inl err, w1)
      | None \<Rightarrow>
     (case action_subject (cl_subjects c) (ac_target cmd) (ac_action cmd) of
        Inl err \<Rightarrow> (Inl (public_error err), w1)
      | Inr subject \<Rightarrow>
     (case marshal_action_command cmd of
        Inl err \<Rightarrow> (Inl (encode_failed ''submit_action_encode'' subject
             ''failed to encode action command'' err), w1)
      | Inr payload \<Rightarrow>
     (let (r, w2) = client_publish X c mctx ''submit_action_publish'' kind_action subject payload w1
      in case r of
        Some err \<Rightarrow> (Inl err, w2)
      | None \<Rightarrow>
          (let (now, w3) = query (x_clock X) w2 in (Inr (action_ack cmd subject now), w3)))))))"

definition publish_result ::
  "'e ext \<Rightarrow> client \<Rightarrow> gctx option \<Rightarrow> result_envelope \<Rightarrow> 'e world \<Rightarrow> gerr option \<times> 'e world" where
  "publish_result X c mctx msg w =
     (let op = ''publish_result'';
          (ce, w1) = validate_operation_context X op mctx w
      in case ce of
        Some err \<Rightarrow> (Some err, w1)
      | None \<Rightarrow>
     (case validate_result_envelope op msg of
        Some err \<Rightarrow> (Some err, w1)
      | None \<Rightarrow>
     (case result_subject (cl_subjects c) (re_target msg) of
        Inl err \<Rightarrow> (Some (public_error err), w1)
      | Inr subject \<Rightarrow>
     (case marshal_result_envelope msg of
        Inl err \<Rightarrow> (Some (encode_failed ''publish_result_encode'' subject
             ''failed to encode result envelope'' err), w1)
      | Inr payload \<Rightarrow> client_publish X c mctx op kind_result subject payload w1))))"

definition publish_status ::
  "'e ext \<Rightarrow> client \<Rightarrow> gctx option \<Rightarrow> status_envelope \<Rightarrow> 'e world \<Rightarrow> gerr option \<times> 'e world" where
  "publish_status X c mctx msg w =
     (let op = ''publish_status'';
          (ce, w1) = validate_operation_context X op mctx w
      in case ce of
        Some err \<Rightarrow> (Some err, w1)
      | None \<Rightarrow>
     (case validate_status_envelope op msg of
        Some err \<Rightarrow> (Some err, w1)
      | None \<Rightarrow>
     (case status_subject (cl_subjects c) (se_target msg) of
        Inl err \<Rightarrow> (Some (public_error err), w1)
      | Inr subject \<Rightarrow>
     (case marshal_status_envelope msg of
        Inl err \<Rightarrow> (Some (encode_failed ''publish_status_encode'' subject
             ''failed to encode status envelope'' err), w1)
      | Inr payload \<Rightarrow> client_publish X c mctx op kind_status subject payload w1))))"

section \<open>What sending adds to the trace\<close>

definition public_err :: "gerr \<Rightarrow> bool" where
  "public_err err \<longleftrightarrow> (\<forall>c op s k m r cause. err \<noteq> RtError c op s k m r cause)"

lemma public_err_public [simp]: "public_err (public_error e)"
  by (simp add: public_err_def public_error_not_Rt)

lemma public_err_AgError [simp]: "public_err (AgError c op s k m r cause)"
  by (simp add: public_err_def)

lemma public_err_validation [simp]: "public_err (validation_error op msg)"
  by (simp add: validation_error_def)

lemma public_err_encode [simp]: "public_err (encode_failed op s msg e)"
  by (simp add: encode_failed_def)

text \<open>A publication: its events, how often the message was accepted, and its result.\<close>

definition publishes :: "string \<Rightarrow> bytes \<Rightarrow> bool \<Rightarrow> event list \<Rightarrow> bool" where
  "publishes subject payload ok evs \<longleftrightarrow>
     (\<forall>ev\<in>set evs. publish_event subject payload ev) \<and> length (filter sent_ok evs) \<le> 1 \<and>
     (ok \<longleftrightarrow> (\<exists>nc fctx. EvPublish nc subject payload None \<in> set evs \<and> EvFlush nc fctx None \<in> set evs))"

lemma publishes_no_kv: "publishes subject payload ok evs \<Longrightarrow> filter is_kv_put evs = []"
  by (auto simp: publishes_def publish_event_def is_kv_put_def filter_empty_conv split: event.splits)

lemma client_publish_adds:
  assumes "client_publish X c mctx op kind subject payload w = (r, w')"
  obtains evs where "adds w w' evs" "publishes subject payload (r = None) evs"
    "\<forall>err. r = Some err \<longrightarrow> public_err err"
proof -
  obtain r0 where p: "publish X (client_publisher X c) mctx op kind subject payload w = (r0, w')"
    and r: "r = to_public_error r0"
    using assms by (auto simp: client_publish_def split: prod.splits)
  have "pb_connection (client_publisher X c) = connection X (cl_session c)"
    by (simp add: client_publisher_def Let_def)
  from manager_connection.publish_reports [OF this p] obtain evs where evs: "adds w w' evs"
    "publish_report (publish_op op) subject payload (nat (max 1 (pb_attempts (client_publisher X c)))) r0 evs"
    by blast
  have "publishes subject payload (r = None) evs"
    unfolding publishes_def using evs(2) r unfolding publish_report_def by (simp add: to_public_error_def)
  moreover have "\<forall>err. r = Some err \<longrightarrow> public_err err" using r by (cases r0) auto
  ultimately show thesis by (rule that [OF evs(1)])
qed

lemma operation_context:
  assumes "validate_operation_context X op mctx w = (ce, w')"
  shows "w_trace w' = w_trace w" and "ce = Some err \<Longrightarrow> public_err err"
  using assms by (auto simp: validate_operation_context_def split: option.splits prod.splits dest: query_trace)

lemma client_store_cases:
  assumes "client_store_desired X c mctx rec w = (r, w')"
  obtains (error) err evs where "r = Inl err" "public_err err" "adds w w' evs" "filter is_publish evs = []"
      "\<forall>kv key payload rev. EvKVPut kv key payload (Inr rev) \<notin> set evs"
  | (stored) sd kv payload rest where "r = Inr sd"
      "adds w w' (EvKVPut kv (sd_key sd) payload (Inr (sd_revision sd)) # rest)"
      "filter is_kv_put rest = []" "filter is_publish rest = []"
      "encode_desired_config_record rec = Inr payload" "sd_record sd = rec"
      "sd_bucket sd = desired_config_bucket (cl_session c)"
proof -
  obtain r0 where s: "store_desired_config X (manager_store X (cl_session c)) mctx rec w = (r0, w')"
    and r: "r = (case r0 of Inl err \<Rightarrow> Inl (public_error err) | Inr sd \<Rightarrow> Inr sd)"
    using assms by (auto simp: client_store_desired_def client_store_def split: prod.splits)
  from s show thesis
  proof (cases rule: manager_runtime.store_cases)
    case (refused err)
    with r show thesis by (intro error [of "public_error err" "[]"]) simp_all
  next
    case (failed kv key payload err)
    with r show thesis
      by (intro error [of "public_error (kv_store_error ''store_desired_config''
            ''failed to write desired config to KV'' (Some err))" "[EvKVPut kv key payload (Inl err)]"])
        (simp_all add: is_publish_def)
  next
    case (stored kv key payload revision created got reports)
    have "filter is_kv_put reports = []" "filter is_publish reports = []"
      using stored(5) by (auto simp: filter_empty_conv is_kv_put_def is_publish_def)
    with stored r that(2) [of "\<lparr>sd_record = rec, sd_bucket = desired_config_bucket (cl_session c), sd_key = key,
        sd_revision = revision, sd_created_at = created, sd_deleted = False\<rparr>" kv payload "EvKVGet kv key got # reports"]
    show thesis by (simp add: is_kv_put_def is_publish_def)
  qed
qed

lemma notify_cases:
  assumes "notify_configure X c mctx cmd stored w = (r, w')"
  obtains (silent) err where "r = Inl err" "public_err err" "adds w w' []"
  | (sent) subject now payload evs where "adds w w' evs" "publishes subject payload (is_ok r) evs"
      "configure_subject (cl_subjects c) (cc_target cmd) = Inr subject"
      "marshal_configure_notification (submit_notification cmd stored now) = Inr payload"
      "validate_configure_notification ''submit_configure'' (submit_notification cmd stored now) = None"
      "\<And>ack. r = Inr ack \<Longrightarrow> ack = configure_ack cmd stored subject (time_utc now)"
      "\<And>err. r = Inl err \<Longrightarrow> public_err err"
proof (cases "configure_subject (cl_subjects c) (cc_target cmd)")
  case (Inl err)
  with assms show thesis by (intro silent [of "public_error err"]) (auto simp: notify_configure_def)
next
  case subject: (Inr subject)
  obtain now w1 where now: "query (x_clock X) w = (now, w1)" by fastforce
  note t1 = query_trace [OF now]
  let ?note = "submit_notification cmd stored now"
  show thesis
  proof (cases "validate_configure_notification ''submit_configure'' ?note")
    case (Some err)
    then have "public_err err"
      using configure_notification_check.reject_msg by fastforce
    with Some show thesis using assms subject now t1
      by (intro silent [of err]) (auto simp: notify_configure_def adds_def)
  next
    case valid: None
    show thesis
    proof (cases "marshal_configure_notification ?note")
      case (Inl err)
      with assms subject now t1 valid show thesis
        by (intro silent [of "encode_failed ''submit_configure_encode_notification'' subject
             ''failed to encode configure notification'' err"]) (auto simp: notify_configure_def adds_def)
    next
      case payload: (Inr payload)
      obtain p w2 where p: "client_publish X c mctx ''submit_configure_publish_notification'' kind_configure
          subject payload w1 = (p, w2)" by fastforce
      from p obtain evs where evs: "adds w1 w2 evs" "publishes subject payload (p = None) evs"
        "\<forall>err. p = Some err \<longrightarrow> public_err err" by (rule client_publish_adds)
      have r: "r = (case p of Some err \<Rightarrow> Inl err | None \<Rightarrow> Inr (configure_ack cmd stored subject (time_utc now)))"
        and w': "w' = w2"
        using assms subject now valid payload p
        by (auto simp: notify_configure_def submit_notification_def split: option.splits)
      show thesis
        by (rule sent [OF _ _ subject payload valid, of evs])
          (use evs r w' t1 in \<open>auto simp: adds_def split: option.splits\<close>)
    qed
  qed
qed

section \<open>Properties\<close>

text \<open>
  A store with the first events and the notification of it with the second, ending in \<open>r\<close>.
\<close>

definition notified ::
  "client \<Rightarrow> configure_command \<Rightarrow> gerr + submission_ack \<Rightarrow> event list \<Rightarrow> event list \<Rightarrow> bool" where
  "notified c cmd r pre post \<longleftrightarrow> (\<exists>kv payload sd subject now notice.
       filter is_kv_put pre = [EvKVPut kv (sd_key sd) payload (Inr (sd_revision sd))] \<and>
       encode_desired_config_record (submit_record cmd) = Inr payload \<and>
       sd_bucket sd = desired_config_bucket (cl_session c) \<and>
       configure_subject (cl_subjects c) (cc_target cmd) = Inr subject \<and>
       marshal_configure_notification (submit_notification cmd sd now) = Inr notice \<and>
       publishes subject notice (is_ok r) post \<and>
       (\<forall>ack. r = Inr ack \<longrightarrow> ack = configure_ack cmd sd subject (time_utc now)))"

text \<open>C13: submitting a configuration stores before it notifies. The events split into a first part
  that publishes nothing and a second that writes nothing; when the second is not empty, the first
  holds one accepted write of the command's record, and everything published is the notification
  that names that write's bucket and key, on the target's configure subject, accepted at most once.
  Success means both were accepted, and the acknowledgement carries the key and revision of the
  write; every error is a public error. So a notification never points to a configuration that was
  not stored.\<close>

theorem submit_configure_outcome:
  assumes "submit_configure X c mctx cmd w = (r, w')"
  shows "\<exists>pre post. adds w w' (pre @ post) \<and> filter is_publish pre = [] \<and> filter is_kv_put post = [] \<and>
    (post \<noteq> [] \<longrightarrow> notified c cmd r pre post) \<and>
    (is_ok r \<longrightarrow> post \<noteq> []) \<and> (\<forall>err. r = Inl err \<longrightarrow> public_err err)"
proof -
  obtain ce w1 where ce: "validate_operation_context X ''submit_configure'' mctx w = (ce, w1)" by fastforce
  note t1 = operation_context [OF ce]
  show ?thesis
  proof (cases "ce = None \<and> validate_configure_command ''submit_configure'' cmd = None")
    case False
    then obtain err where "r = Inl err" "w' = w1" "public_err err"
      using assms ce t1(2) configure_command_check.reject_msg
      by (fastforce simp: submit_configure_def split: option.splits)
    with t1 show ?thesis by (intro exI [of _ "[]"]) (simp add: adds_def)
  next
    case True
    obtain s w2 where s: "client_store_desired X c mctx (submit_record cmd) w1 = (s, w2)" by fastforce
    have r: "(case s of Inl err \<Rightarrow> (Inl err, w2) | Inr sd \<Rightarrow> notify_configure X c mctx cmd sd w2) = (r, w')"
      using assms ce True s by (simp add: submit_configure_def)
    from s show ?thesis
    proof (cases rule: client_store_cases)
      case (error err evs)
      with r t1(1) show ?thesis by (intro exI [of _ evs] exI [of _ "[]"]) (auto simp: adds_def)
    next
      case (stored sd kv payload rest)
      let ?pre = "EvKVPut kv (sd_key sd) payload (Inr (sd_revision sd)) # rest"
      have pre: "filter is_publish ?pre = []" "filter is_kv_put ?pre = [EvKVPut kv (sd_key sd) payload (Inr (sd_revision sd))]"
        using stored(3,4) by (simp_all add: is_publish_def is_kv_put_def)
      from r stored(1) have "notify_configure X c mctx cmd sd w2 = (r, w')" by simp
      then show ?thesis
      proof (cases rule: notify_cases)
        case (silent err)
        with pre stored(2) t1(1) show ?thesis
          by (intro exI [of _ ?pre] exI [of _ "[]"]) (auto simp: adds_def)
      next
        case (sent subject now notice evs)
        have "is_ok r \<Longrightarrow> evs \<noteq> []" using sent(2) by (auto simp: publishes_def)
        with pre stored sent t1(1) publishes_no_kv [OF sent(2)] show ?thesis
          by (intro exI [of _ ?pre] exI [of _ evs]) (simp add: adds_def notified_def, blast)
      qed
    qed
  qed
qed

definition sample_configure :: configure_command where
  "sample_configure = \<lparr>cc_version = ''1'', cc_rpc_id = ''r'', cc_target = ''dev'', cc_uuid = ''u'',
     cc_payload = ''{}'', cc_timestamp = sim_time\<rparr>"

lemma sample_publishes:
  assumes "sm_fails (w_env w) = []" and "\<not> blank subject" and "payload \<noteq> []"
  shows "\<exists>w'. client_publish sim_ext sample_client (Some CtxBackground) op kind subject payload w = (None, w')"
  using assms
  by (simp add: client_publish_def publish_def publish_op_def publish_once_def publish_context_def
      client_publisher_def sample_client_def sample_live_def sample_manager_def connection_def query_def
      perform_def emit_if_def emit_def sim_defs eval_nat_numeral sample_effective_def Let_def)

lemma dev_subject: "configure_subject default_builder ''dev'' = Inr ''cmd.configure.dev''"
proof -
  have "validate_target ''dev'' = None" using sample_target by (simp flip: kv_validate_target)
  then show ?thesis by (simp add: configure.subject_eq default_builder_def default_renders)
qed

lemma sample_submit:
  "\<exists>ack w'. submit_configure sim_ext sample_client (Some CtxBackground) sample_configure (sim_world []) = (Inr ack, w')"
proof -
  have valid: "validate_configure_command ''submit_configure'' sample_configure = None"
    by (simp add: validate_configure_command_def sample_configure_def field_check_defs empty_object_valid
        go_simps sim_time_def is_zero_time_def)
  have q: "query (x_ctx_err sim_ext CtxBackground) (sim_world []) = (None, sim_world [])"
    by (simp add: query_def sim_defs)
  have rec: "submit_record sample_configure = sample_record"
    by (simp add: submit_record_def sample_configure_def sample_record_def)
  obtain sd w2 where s: "store_desired_config sim_ext (manager_store sim_ext sample_live) (Some CtxBackground)
      sample_record (sim_world []) = (Inr sd, w2)"
    and sd: "sd_key sd = ''desired.dev''" "sd_bucket sd = ''cfg_desired''" "sm_fails (w_env w2) = []"
    using sample_store by blast
  have store: "client_store_desired sim_ext sample_client (Some CtxBackground) sample_record (sim_world []) = (Inr sd, w2)"
    using s by (simp add: client_store_desired_def client_store_def sample_client_def)
  let ?note = "submit_notification sample_configure sd sim_time"
  have n: "?note = \<lparr>cn_version = ''1'', cn_rpc_id = ''r'', cn_target = ''dev'', cn_command_type = ''configure'',
      cn_uuid = ''u'', cn_kv_bucket = ''cfg_desired'', cn_kv_key = ''desired.dev'', cn_timestamp = sim_time\<rparr>"
    by (simp add: submit_notification_def sample_configure_def sd time_utc_def sim_time_def)
  have ok: "validate_configure_notification ''submit_configure'' ?note = None"
    unfolding n by (simp add: validate_configure_notification_def field_check_defs go_simps sim_time_def is_zero_time_def)
  obtain p where p: "marshal_configure_notification ?note = Inr p" "p \<noteq> []"
    unfolding n by (simp add: marshal_configure_notification_def fields_configure_notification_def
        marshal_struct_def field_omitted_def marshal_value_def sample_time)
  have c: "query (x_clock sim_ext) w2 = (sim_time, w2)"
    by (simp add: query_def sim_defs)
  have blank: "\<not> blank ''cmd.configure.dev''" by (simp add: go_simps)
  obtain w3 where pub: "client_publish sim_ext sample_client (Some CtxBackground)
      ''submit_configure_publish_notification'' kind_configure ''cmd.configure.dev'' p w2 = (None, w3)"
    using sample_publishes [OF sd(3) blank p(2)] by blast
  have subj: "configure_subject (cl_subjects sample_client) (cc_target sample_configure) = Inr ''cmd.configure.dev''"
    using dev_subject by (simp add: sample_client_def sample_configure_def)
  show ?thesis
    by (simp add: submit_configure_def validate_operation_context_def q valid rec store notify_configure_def
        subj c ok p pub)
qed

theorem submit_configure_outcome_witness:
  "\<exists>ack w' pre post kv payload (sd :: stored_desired_config). submit_configure sim_ext sample_client (Some CtxBackground) sample_configure
      (sim_world []) = (Inr ack, w') \<and> adds (sim_world []) w' (pre @ post) \<and> post \<noteq> [] \<and>
    filter is_kv_put pre = [EvKVPut kv (sd_key sd) payload (Inr (sd_revision sd))]"
proof -
  obtain ack w' where s: "submit_configure sim_ext sample_client (Some CtxBackground) sample_configure
      (sim_world []) = (Inr ack, w')"
    using sample_submit by blast
  from submit_configure_outcome [OF s] obtain pre post where p: "adds (sim_world []) w' (pre @ post)"
    "post \<noteq> [] \<longrightarrow> notified sample_client sample_configure (Inr ack) pre post"
    "is_ok (Inr ack :: gerr + submission_ack) \<longrightarrow> post \<noteq> []"
    by (elim exE conjE) (rule that)
  have post: "post \<noteq> []" using p(3) by (rule mp) (rule is_ok_simps)
  with p(2) have "notified sample_client sample_configure (Inr ack) pre post" by (rule mp)
  then obtain kv payload and sd :: stored_desired_config where "filter is_kv_put pre = [EvKVPut kv (sd_key sd) payload (Inr (sd_revision sd))]"
    unfolding notified_def by blast
  with p(1) post s show ?thesis by (intro exI conjI)
qed

text \<open>The other three publications share one shape: a checked context, a checked message, its subject,
  its encoding, one publication.\<close>

definition publication :: "(gerr + string) \<Rightarrow> (gerr + bytes) \<Rightarrow> bool \<Rightarrow> event list \<Rightarrow> bool" where
  "publication subject payload ok evs \<longleftrightarrow> (evs \<noteq> [] \<or> ok \<longrightarrow>
     (\<exists>s p. subject = Inr s \<and> payload = Inr p \<and> publishes s p ok evs))"

lemma publication_silent [simp]: "publication s p False []"
  by (simp add: publication_def)

lemma publication_sent:
  "publishes s p ok evs \<Longrightarrow> publication (Inr s) (Inr p) ok evs"
  by (simp add: publication_def)

lemma publication_no_kv: "publication s p ok evs \<Longrightarrow> filter is_kv_put evs = []"
  by (cases "evs = []") (auto simp: publication_def dest: publishes_no_kv)

lemma action_command_public: "validate_action_command op m = Some err \<Longrightarrow> public_err err"
  using action_command_check.reject_msg by fastforce

lemma submit_action_adds:
  assumes "submit_action X c mctx m w = (r, w')"
  shows "\<exists>evs. adds w w' evs \<and> publication (action_subject (cl_subjects c) (ac_target m) (ac_action m)) (marshal_action_command m) (is_ok r) evs \<and> filter is_kv_put evs = [] \<and>
    (validate_action_command ''submit_action'' m \<noteq> None \<longrightarrow> evs = []) \<and> (\<forall>err. r = Inl err \<longrightarrow> public_err err)"
proof -
  obtain ce w1 where ce: "validate_operation_context X ''submit_action'' mctx w = (ce, w1)" by fastforce
  note t1 = operation_context [OF ce]
  show ?thesis
  proof (cases "ce = None \<and> validate_action_command ''submit_action'' m = None \<and> is_ok (action_subject (cl_subjects c) (ac_target m) (ac_action m)) \<and> is_ok (marshal_action_command m)")
    case False
    then have "\<exists>err. r = Inl err \<and> w' = w1 \<and> public_err err"
      using assms ce t1(2)
      by (auto simp: submit_action_def Let_def split: option.splits sum.splits intro: action_command_public)
    with t1(1) show ?thesis by (intro exI [of _ "[]"]) (auto simp: adds_def)
  next
    case True
    then obtain s p where sp: "action_subject (cl_subjects c) (ac_target m) (ac_action m) = Inr s" "marshal_action_command m = Inr p" by (auto simp: is_ok_iff)
    obtain x w2 where x: "client_publish X c mctx ''submit_action_publish'' kind_action s p w1 = (x, w2)" by fastforce
    from x obtain evs where evs: "adds w1 w2 evs" "publishes s p (x = None) evs"
      "\<forall>err. x = Some err \<longrightarrow> public_err err" by (rule client_publish_adds)
    have "w_trace w' = w_trace w2" "is_ok r = (x = None)" "\<forall>err. r = Inl err \<longrightarrow> x = Some err"
      using assms ce True sp x
      by (auto simp: submit_action_def split: option.splits prod.splits dest: query_trace)
    then show ?thesis using t1(1) evs publication_sent [OF evs(2)] publishes_no_kv [OF evs(2)] True
      by (intro exI [of _ evs]) (auto simp: adds_def sp)
  qed
qed

lemma result_envelope_public: "validate_result_envelope op m = Some err \<Longrightarrow> public_err err"
  using result_envelope_check.reject_msg by fastforce

lemma publish_result_adds:
  assumes "publish_result X c mctx m w = (r, w')"
  shows "\<exists>evs. adds w w' evs \<and> publication (result_subject (cl_subjects c) (re_target m)) (marshal_result_envelope m) (r = None) evs \<and> filter is_kv_put evs = [] \<and>
    (validate_result_envelope ''publish_result'' m \<noteq> None \<longrightarrow> evs = []) \<and> (\<forall>err. r = Some err \<longrightarrow> public_err err)"
proof -
  obtain ce w1 where ce: "validate_operation_context X ''publish_result'' mctx w = (ce, w1)" by fastforce
  note t1 = operation_context [OF ce]
  show ?thesis
  proof (cases "ce = None \<and> validate_result_envelope ''publish_result'' m = None \<and> is_ok (result_subject (cl_subjects c) (re_target m)) \<and> is_ok (marshal_result_envelope m)")
    case False
    then have "\<exists>err. r = Some err \<and> w' = w1 \<and> public_err err"
      using assms ce t1(2)
      by (auto simp: publish_result_def Let_def split: option.splits sum.splits intro: result_envelope_public)
        (metis result_envelope_public)
    with t1(1) show ?thesis by (intro exI [of _ "[]"]) (auto simp: adds_def)
  next
    case True
    then obtain s p where sp: "result_subject (cl_subjects c) (re_target m) = Inr s" "marshal_result_envelope m = Inr p" by (auto simp: is_ok_iff)
    obtain x w2 where x: "client_publish X c mctx ''publish_result'' kind_result s p w1 = (x, w2)" by fastforce
    from x obtain evs where evs: "adds w1 w2 evs" "publishes s p (x = None) evs"
      "\<forall>err. x = Some err \<longrightarrow> public_err err" by (rule client_publish_adds)
    have "w_trace w' = w_trace w2" "(r = None) = (x = None)" "\<forall>err. r = Some err \<longrightarrow> x = Some err"
      using assms ce True sp x
      by (auto simp: publish_result_def split: option.splits prod.splits dest: query_trace)
    then show ?thesis using t1(1) evs publication_sent [OF evs(2)] publishes_no_kv [OF evs(2)] True
      by (intro exI [of _ evs]) (auto simp: adds_def sp)
  qed
qed

lemma status_envelope_public: "validate_status_envelope op m = Some err \<Longrightarrow> public_err err"
  using status_envelope_check.reject_msg by fastforce

lemma publish_status_adds:
  assumes "publish_status X c mctx m w = (r, w')"
  shows "\<exists>evs. adds w w' evs \<and> publication (status_subject (cl_subjects c) (se_target m)) (marshal_status_envelope m) (r = None) evs \<and> filter is_kv_put evs = [] \<and>
    (validate_status_envelope ''publish_status'' m \<noteq> None \<longrightarrow> evs = []) \<and> (\<forall>err. r = Some err \<longrightarrow> public_err err)"
proof -
  obtain ce w1 where ce: "validate_operation_context X ''publish_status'' mctx w = (ce, w1)" by fastforce
  note t1 = operation_context [OF ce]
  show ?thesis
  proof (cases "ce = None \<and> validate_status_envelope ''publish_status'' m = None \<and> is_ok (status_subject (cl_subjects c) (se_target m)) \<and> is_ok (marshal_status_envelope m)")
    case False
    then have "\<exists>err. r = Some err \<and> w' = w1 \<and> public_err err"
      using assms ce t1(2)
      by (auto simp: publish_status_def Let_def split: option.splits sum.splits intro: status_envelope_public)
        (metis status_envelope_public)
    with t1(1) show ?thesis by (intro exI [of _ "[]"]) (auto simp: adds_def)
  next
    case True
    then obtain s p where sp: "status_subject (cl_subjects c) (se_target m) = Inr s" "marshal_status_envelope m = Inr p" by (auto simp: is_ok_iff)
    obtain x w2 where x: "client_publish X c mctx ''publish_status'' kind_status s p w1 = (x, w2)" by fastforce
    from x obtain evs where evs: "adds w1 w2 evs" "publishes s p (x = None) evs"
      "\<forall>err. x = Some err \<longrightarrow> public_err err" by (rule client_publish_adds)
    have "w_trace w' = w_trace w2" "(r = None) = (x = None)" "\<forall>err. r = Some err \<longrightarrow> x = Some err"
      using assms ce True sp x
      by (auto simp: publish_status_def split: option.splits prod.splits dest: query_trace)
    then show ?thesis using t1(1) evs publication_sent [OF evs(2)] publishes_no_kv [OF evs(2)] True
      by (intro exI [of _ evs]) (auto simp: adds_def sp)
  qed
qed

text \<open>C14: an action, a result or a status is published on the subject of its target (and action), as
  its encoding, accepted by the client library at most once; the call succeeds exactly when the
  message was accepted and flushed; nothing is written to the bucket; a message that does not pass
  its validator is not sent and its error is the validator's; every error is a public error.\<close>

theorem publications_outcome:
  assumes "submit_action X c mctx cmd w = (ra, wa)" and "publish_result X c mctx res w = (rr, wr)"
    and "publish_status X c mctx st w = (rs, ws)"
  shows "(\<exists>evs. adds w wa evs \<and> publication (action_subject (cl_subjects c) (ac_target cmd) (ac_action cmd))
      (marshal_action_command cmd) (is_ok ra) evs \<and> filter is_kv_put evs = [] \<and>
      (validate_action_command ''submit_action'' cmd \<noteq> None \<longrightarrow> evs = []) \<and> (\<forall>err. ra = Inl err \<longrightarrow> public_err err)) \<and>
    (\<exists>evs. adds w wr evs \<and> publication (result_subject (cl_subjects c) (re_target res))
      (marshal_result_envelope res) (rr = None) evs \<and> filter is_kv_put evs = [] \<and>
      (validate_result_envelope ''publish_result'' res \<noteq> None \<longrightarrow> evs = []) \<and> (\<forall>err. rr = Some err \<longrightarrow> public_err err)) \<and>
    (\<exists>evs. adds w ws evs \<and> publication (status_subject (cl_subjects c) (se_target st))
      (marshal_status_envelope st) (rs = None) evs \<and> filter is_kv_put evs = [] \<and>
      (validate_status_envelope ''publish_status'' st \<noteq> None \<longrightarrow> evs = []) \<and> (\<forall>err. rs = Some err \<longrightarrow> public_err err))"
  by (intro conjI submit_action_adds [OF assms(1)] publish_result_adds [OF assms(2)] publish_status_adds [OF assms(3)])

definition sample_status :: status_envelope where
  "sample_status = zero_status_envelope\<lparr>se_version := ''1'', se_target := ''dev'', se_status := ''ready'',
     se_timestamp := sim_time\<rparr>"

lemma sample_status_sent:
  "\<exists>w'. publish_status sim_ext sample_client (Some CtxBackground) sample_status (sim_world []) = (None, w')"
proof -
  have q: "query (x_ctx_err sim_ext CtxBackground) (sim_world []) = (None, sim_world [])"
    by (simp add: query_def sim_defs)
  have valid: "validate_status_envelope ''publish_status'' sample_status = None"
    by (simp add: validate_status_envelope_def sample_status_def zero_status_envelope_def field_check_defs
        go_simps sim_time_def is_zero_time_def)
  have "validate_target ''dev'' = None" using sample_target by (simp flip: kv_validate_target)
  then have subj: "status_subject (cl_subjects sample_client) (se_target sample_status) = Inr ''status.dev''"
    by (simp add: status.subject_eq sample_client_def default_builder_def default_renders sample_status_def
        zero_status_envelope_def)
  obtain p where p: "marshal_status_envelope sample_status = Inr p" "p \<noteq> []"
    by (simp add: marshal_status_envelope_def fields_status_envelope_def sample_status_def
        zero_status_envelope_def marshal_struct_def field_omitted_def marshal_value_def sample_time)
  have "\<not> blank ''status.dev''" "sm_fails (w_env (sim_world [])) = []" by (simp_all add: go_simps sim_world_def)
  then obtain w' where "client_publish sim_ext sample_client (Some CtxBackground) ''publish_status'' kind_status
      ''status.dev'' p (sim_world []) = (None, w')"
    using sample_publishes p(2) by blast
  then show ?thesis
    by (simp add: publish_status_def validate_operation_context_def q valid subj p(1))
qed

theorem publications_outcome_witness:
  "\<exists>w' evs s p. publish_status sim_ext sample_client (Some CtxBackground) sample_status (sim_world []) = (None, w') \<and>
     adds (sim_world []) w' evs \<and> publishes s p True evs"
proof -
  obtain w' where s: "publish_status sim_ext sample_client (Some CtxBackground) sample_status (sim_world []) = (None, w')"
    using sample_status_sent by blast
  obtain ra wa where a: "submit_action sim_ext sample_client (Some CtxBackground) zero_action_command (sim_world []) = (ra, wa)"
    by fastforce
  obtain rr wr where r: "publish_result sim_ext sample_client (Some CtxBackground) zero_result_envelope (sim_world []) = (rr, wr)"
    by fastforce
  from publications_outcome [OF a r s, THEN conjunct2, THEN conjunct2] obtain evs
    where evs: "adds (sim_world []) w' evs"
    and p: "publication (status_subject (cl_subjects sample_client) (se_target sample_status))
      (marshal_status_envelope sample_status) (None = (None :: gerr option)) evs"
    by (elim exE conjE) (rule that)
  from p obtain subj payload where "publishes subj payload True evs"
    unfolding publication_def by auto
  with s evs show ?thesis by (intro exI conjI)
qed

end
