(* ===== verification/Client_Subscriptions.thy ===== *)
theory Client_Subscriptions
  imports Client_Send
begin

text \<open>
  Subscriptions of the facade (\<^verbatim>\<open>agentcore/handlers_runtime.go\<close>): registering handlers, activating
  registrations on the session's connection, rolling back, restoring after a reconnect and
  deactivating. \<^verbatim>\<open>subMu\<close> makes each of these operations
  atomic but one: deactivating takes the handles out under the mutex and unsubscribes after it. A
  callback is named by the handler it is bound to; ranging over the registry's map takes the
  order of iteration as the argument \<open>ord\<close>.
\<close>

section \<open>Options\<close>

text \<open>\<^verbatim>\<open>WithQueueGroup\<close> is the only option; a nil option is skipped.\<close>

datatype subscription_option = WithQueueGroup string

record subscription_options =
  so_queue_group :: string

definition apply_subscription_option ::
  "subscription_option \<Rightarrow> subscription_options \<Rightarrow> subscription_options" where
  "apply_subscription_option opt out = (case opt of WithQueueGroup q \<Rightarrow> out\<lparr>so_queue_group := q\<rparr>)"

definition resolve_subscription_options ::
  "subscription_option option list \<Rightarrow> gerr + subscription_options" where
  "resolve_subscription_options opts =
     (let out = fold (\<lambda>opt out. case opt of None \<Rightarrow> out | Some f \<Rightarrow> apply_subscription_option f out) opts
                  \<lparr>so_queue_group = []\<rparr>
      in if contains_any (so_queue_group out) ws_chars
           then Inl (validation_error ''register_handler_options'' ''queue group cannot contain whitespace'')
         else Inr out)"

section \<open>Subscribing\<close>

definition client_subscribe_failed :: "string \<Rightarrow> string \<Rightarrow> string \<Rightarrow> gerr \<Rightarrow> gerr" where
  "client_subscribe_failed op subject msg err = AgError CodeSubscribeFailed op subject [] msg True (Some err)"

definition subscribe_internal ::
  "'e ext \<Rightarrow> client \<Rightarrow> string \<Rightarrow> kind \<Rightarrow> string \<Rightarrow> string \<Rightarrow> callback option \<Rightarrow> bool \<Rightarrow> 'e world \<Rightarrow>
   (gerr + subscription) \<times> 'e world" where
  "subscribe_internal X c op kind subject queue callback do_flush w =
     (case callback of
        None \<Rightarrow> (Inl (validation_error op ''subscription callback is required''), w)
      | Some cb \<Rightarrow>
     (if blank subject then (Inl (validation_error op ''subscription subject is required''), w)
      else
     (let (r, w1) = connection X (cl_session c) w in
      case r of
        Inl err \<Rightarrow> (Inl (public_error err), w1)
      | Inr nc \<Rightarrow>
     (let q = (if \<not> blank queue then queue else []);
          (s, w2) = perform (EvSubscribe nc subject q cb) (x_subscribe X nc subject q cb) w1
      in case s of
        Inl err \<Rightarrow> (Inl (client_subscribe_failed op subject ''subscribe operation failed'' err), w2)
      | Inr sub \<Rightarrow>
     (if \<not> do_flush then (Inr sub, log_client c LogDebug ''subscription created'' w2)
      else
     (let d = subscribe_timeout (cl_session c);
          (f, w3) = perform (EvFlushTimeout nc d) (x_flush_timeout X nc d) w2
      in case f of
        Some err \<Rightarrow>
          (let (_, w4) = perform (EvUnsubscribe sub) (x_unsubscribe X sub) w3
           in (Inl (client_subscribe_failed op subject ''subscribe readiness flush failed'' err), w4))
      | None \<Rightarrow> (Inr sub, log_client c LogDebug ''subscription created'' w3)))))))"

text \<open>The four wrappers name the operation and the kind.\<close>

definition subscribe_configure where
  "subscribe_configure X c = subscribe_internal X c ''subscribe_configure'' kind_configure"

definition subscribe_action where
  "subscribe_action X c = subscribe_internal X c ''subscribe_action'' kind_action"

definition subscribe_result where
  "subscribe_result X c = subscribe_internal X c ''subscribe_result'' kind_result"

definition subscribe_status where
  "subscribe_status X c = subscribe_internal X c ''subscribe_status'' kind_status"

definition create_subscription ::
  "'e ext \<Rightarrow> client \<Rightarrow> activation_record \<Rightarrow> string \<Rightarrow> bool \<Rightarrow> 'e world \<Rightarrow> (gerr + subscription) \<times> 'e world" where
  "create_subscription X c rec op do_flush w =
     (let k = ar_kind rec; s = ar_subject rec; q = ar_queue_group rec; cb = Some (ar_callback rec) in
      if k = kind_configure then subscribe_configure X c s q cb do_flush w
      else if k = kind_action then subscribe_action X c s q cb do_flush w
      else if k = kind_result then subscribe_result X c s q cb do_flush w
      else if k = kind_status then subscribe_status X c s q cb do_flush w
      else (Inl (AgError CodeValidation op s [] ''unsupported subscription kind'' False None), w))"

definition unsubscribe :: "'e ext \<Rightarrow> subscription \<Rightarrow> 'e world \<Rightarrow> gerr option \<times> 'e world" where
  "unsubscribe X sub w = perform (EvUnsubscribe sub) (x_unsubscribe X sub) w"

text \<open>Unsubscribing, a failure being logged and reported.\<close>

definition cleanup_subscription ::
  "'e ext \<Rightarrow> client \<Rightarrow> subscription option \<Rightarrow> string \<Rightarrow> 'e world \<Rightarrow> 'e world" where
  "cleanup_subscription X c sub msg w =
     (case sub of
        None \<Rightarrow> w
      | Some s \<Rightarrow>
          (let (r, w1) = unsubscribe X s w
           in case r of None \<Rightarrow> w1 | Some err \<Rightarrow> report_client c err (log_client c LogWarn msg w1)))"

section \<open>Activation\<close>

definition with_subs :: "registry \<Rightarrow> client \<Rightarrow> client" where
  "with_subs r c = c\<lparr>cl_subs := r\<rparr>"

text \<open>What follows a new subscription: it is entered in the registry, and what it replaces dropped.\<close>

definition enter_subscription ::
  "'e ext \<Rightarrow> activation_record \<Rightarrow> subscription \<Rightarrow> client \<Rightarrow> 'e world \<Rightarrow> client \<times> 'e world" where
  "enter_subscription X rec sub c w =
     (case get_activation_record (cl_subs c) (ar_id rec) of
        None \<Rightarrow> (c, cleanup_subscription X c (Some sub)
          ''failed to cleanup active subscription after registration was removed during activation'' w)
      | Some _ \<Rightarrow>
          (let (stale, r) = mark_active (ar_id rec) (Some sub) (cl_subs c);
               c1 = with_subs r c;
               w1 = cleanup_subscription X c1 stale ''failed to unsubscribe stale subscription after override'' w;
               w2 = log_client c1 LogInfo ''subscription activated'' w1
           in (c1, count_subscribe c1 (ar_kind rec) (ar_subject rec) ''success'' w2)))"

definition activate_record ::
  "'e ext \<Rightarrow> activation_record \<Rightarrow> bool \<Rightarrow> string \<Rightarrow> bool \<Rightarrow> client \<Rightarrow> 'e world \<Rightarrow>
   gerr option \<times> client \<times> 'e world" where
  "activate_record X rec force op do_flush c w =
     (if ar_active rec \<and> \<not> force then (None, c, w)
      else
        (let w1 = (if force then cleanup_subscription X c (ar_active_sub rec)
                     ''failed to unsubscribe stale subscription before restore'' w else w);
             (s, w2) = create_subscription X c rec op do_flush w1
         in case s of
              Inl err \<Rightarrow>
                (let c1 = with_subs (mark_inactive (ar_id rec) (Some err) (cl_subs c)) c
                 in (Some err, c1, count_subscribe c1 (ar_kind rec) (ar_subject rec) ''failure''
                       (log_client c1 LogError ''subscription activation failed'' w2)))
            | Inr sub \<Rightarrow>
                (let (c1, w3) = enter_subscription X rec sub c w2 in (None, c1, w3))))"

definition activation_record_by_id :: "client \<Rightarrow> string \<Rightarrow> bool \<Rightarrow> activation_record option" where
  "activation_record_by_id c i force =
     (case get_activation_record (cl_subs c) i of
        None \<Rightarrow> None
      | Some rec \<Rightarrow> if ar_active rec \<and> \<not> force then None else Some rec)"

definition activate_by_id ::
  "'e ext \<Rightarrow> string \<Rightarrow> bool \<Rightarrow> string \<Rightarrow> client \<Rightarrow> 'e world \<Rightarrow> gerr option \<times> client \<times> 'e world" where
  "activate_by_id X i force op c w =
     (case activation_record_by_id c i force of
        None \<Rightarrow> (None, c, w)
      | Some rec \<Rightarrow> activate_record X rec force op True c w)"

definition activate_after_registration ::
  "'e ext \<Rightarrow> string \<Rightarrow> string \<Rightarrow> client \<Rightarrow> 'e world \<Rightarrow> gerr option \<times> client \<times> 'e world" where
  "activate_after_registration X i op c w =
     (let st = hs_state (client_health c) in
      if st = StateNew \<or> st = StateConnecting then (None, c, w)
      else (let (r, c1, w1) = activate_by_id X i False op c w
            in case r of Some err \<Rightarrow> (Some err, c1, w1) | None \<Rightarrow> (None, sync_subscription_health c1, w1)))"

text \<open>\<open>joined\<close> is the error collected so far: \<^verbatim>\<open>errors.Join\<close> nests.\<close>

fun activate_records ::
  "'e ext \<Rightarrow> string \<Rightarrow> activation_record list \<Rightarrow> gerr option \<Rightarrow> client \<Rightarrow> 'e world \<Rightarrow>
   gerr option \<times> client \<times> 'e world" where
  "activate_records X op [] joined c w = (joined, c, w)"
| "activate_records X op (rec # recs) joined c w =
     (let (r, c1, w1) = activate_record X rec False op True c w
      in activate_records X op recs (case r of None \<Rightarrow> joined | Some err \<Rightarrow> errors_join [joined, Some err]) c1 w1)"

definition activate_all ::
  "'e ext \<Rightarrow> (string list \<Rightarrow> string list) \<Rightarrow> string \<Rightarrow> client \<Rightarrow> 'e world \<Rightarrow> gerr option \<times> client \<times> 'e world" where
  "activate_all X ord op c w =
     (let (r, c1, w1) = activate_records X op (list_activations ord (cl_subs c)) None c w
      in (r, sync_subscription_health c1, w1))"

section \<open>Deactivation and rollback\<close>

fun drop_handles ::
  "'e ext \<Rightarrow> string \<Rightarrow> active_handle list \<Rightarrow> gerr option \<Rightarrow> 'e world \<Rightarrow> gerr option \<times> 'e world" where
  "drop_handles X op [] joined w = (joined, w)"
| "drop_handles X op (h # hs) joined w =
     (case ah_sub h of
        None \<Rightarrow> drop_handles X op hs joined w
      | Some s \<Rightarrow>
          (let (r, w1) = unsubscribe X s w
           in drop_handles X op hs
                (case r of
                   None \<Rightarrow> joined
                 | Some err \<Rightarrow> errors_join [joined, Some (AgError CodeShutdown op (ah_subject h) []
                     ''failed to unsubscribe active handler'' True (Some err))]) w1))"

definition deactivate_all ::
  "'e ext \<Rightarrow> (string list \<Rightarrow> string list) \<Rightarrow> string \<Rightarrow> client \<Rightarrow> 'e world \<Rightarrow> gerr option \<times> client \<times> 'e world" where
  "deactivate_all X ord op c w =
     (let (handles, r) = clear_active_handles ord (cl_subs c);
          (joined, w1) = drop_handles X op handles None w
      in (joined, sync_subscription_health (with_subs r c), w1))"

definition rollback_registration ::
  "'e ext \<Rightarrow> string \<Rightarrow> client \<Rightarrow> 'e world \<Rightarrow> client \<times> 'e world" where
  "rollback_registration X i c w =
     (let (h, r) = registry_remove i (cl_subs c)
      in case h of
           None \<Rightarrow> (sync_subscription_health c, w)
         | Some a \<Rightarrow> (sync_subscription_health (with_subs r c), cleanup_subscription X c (ah_sub a)
             ''failed to cleanup active subscription during registration rollback'' w))"

section \<open>Registering handlers\<close>

text \<open>The part the four functions share, from the registry entry on.\<close>

definition register_spec ::
  "'e ext \<Rightarrow> string \<Rightarrow> add_spec \<Rightarrow> string \<Rightarrow> client \<Rightarrow> 'e world \<Rightarrow> gerr option \<times> client \<times> 'e world" where
  "register_spec X op spec msg c w =
     (let (r, reg) = registry_add spec (cl_subs c); c1 = with_subs reg c
      in case r of
           Inl err \<Rightarrow> (Some (public_error err), c1, w)
         | Inr snap \<Rightarrow>
             (let c2 = sync_subscription_health c1;
                  w1 = count_subscribe c2 (as_kind spec) (as_subject spec) ''registered''
                         (log_client c2 LogDebug msg w);
                  (a, c3, w2) = activate_after_registration X (sn_id snap) op c2 w1
              in case a of
                   None \<Rightarrow> (None, c3, w2)
                 | Some err \<Rightarrow>
                     (let (c4, w3) = rollback_registration X (sn_id snap) c3 w2 in (Some err, c4, w3))))"

definition register_configure_handler ::
  "'e ext \<Rightarrow> string \<Rightarrow> nat option \<Rightarrow> subscription_option option list \<Rightarrow> client \<Rightarrow> 'e world \<Rightarrow>
   gerr option \<times> client \<times> 'e world" where
  "register_configure_handler X target handler opts c w =
     (let op = ''register_configure_handler'' in
      if handler = None then (Some (validation_error op ''configure handler is required''), c, w)
      else (case configure_subject (cl_subjects c) target of
        Inl err \<Rightarrow> (Some (public_error err), c, w)
      | Inr subject \<Rightarrow>
     (case resolve_subscription_options opts of
        Inl err \<Rightarrow> (Some err, c, w)
      | Inr so \<Rightarrow> register_spec X op \<lparr>as_kind = kind_configure, as_target = target, as_action = [],
          as_subject = subject, as_queue_group = so_queue_group so, as_callback = handler\<rparr>
          ''registered configure handler'' c w)))"

definition register_action_handler ::
  "'e ext \<Rightarrow> string \<Rightarrow> string \<Rightarrow> nat option \<Rightarrow> subscription_option option list \<Rightarrow> client \<Rightarrow> 'e world \<Rightarrow>
   gerr option \<times> client \<times> 'e world" where
  "register_action_handler X target action handler opts c w =
     (let op = ''register_action_handler'' in
      if handler = None then (Some (validation_error op ''action handler is required''), c, w)
      else (case action_subject (cl_subjects c) target action of
        Inl err \<Rightarrow> (Some (public_error err), c, w)
      | Inr subject \<Rightarrow>
     (case resolve_subscription_options opts of
        Inl err \<Rightarrow> (Some err, c, w)
      | Inr so \<Rightarrow> register_spec X op \<lparr>as_kind = kind_action, as_target = target, as_action = action,
          as_subject = subject, as_queue_group = so_queue_group so, as_callback = handler\<rparr>
          ''registered action handler'' c w)))"

definition register_result_handler ::
  "'e ext \<Rightarrow> string \<Rightarrow> nat option \<Rightarrow> subscription_option option list \<Rightarrow> client \<Rightarrow> 'e world \<Rightarrow>
   gerr option \<times> client \<times> 'e world" where
  "register_result_handler X target handler opts c w =
     (let op = ''register_result_handler'' in
      if handler = None then (Some (validation_error op ''result handler is required''), c, w)
      else (case result_subject (cl_subjects c) target of
        Inl err \<Rightarrow> (Some (public_error err), c, w)
      | Inr subject \<Rightarrow>
     (case resolve_subscription_options opts of
        Inl err \<Rightarrow> (Some err, c, w)
      | Inr so \<Rightarrow> register_spec X op \<lparr>as_kind = kind_result, as_target = target, as_action = [],
          as_subject = subject, as_queue_group = so_queue_group so, as_callback = handler\<rparr>
          ''registered result handler'' c w)))"

definition register_status_handler ::
  "'e ext \<Rightarrow> string \<Rightarrow> nat option \<Rightarrow> subscription_option option list \<Rightarrow> client \<Rightarrow> 'e world \<Rightarrow>
   gerr option \<times> client \<times> 'e world" where
  "register_status_handler X target handler opts c w =
     (let op = ''register_status_handler'' in
      if handler = None then (Some (validation_error op ''status handler is required''), c, w)
      else (case status_subject (cl_subjects c) target of
        Inl err \<Rightarrow> (Some (public_error err), c, w)
      | Inr subject \<Rightarrow>
     (case resolve_subscription_options opts of
        Inl err \<Rightarrow> (Some err, c, w)
      | Inr so \<Rightarrow> register_spec X op \<lparr>as_kind = kind_status, as_target = target, as_action = [],
          as_subject = subject, as_queue_group = so_queue_group so, as_callback = handler\<rparr>
          ''registered status handler'' c w)))"

section \<open>Restoring after a reconnect\<close>

text \<open>First a new subscription for every registration, without flushing; failures are collected.\<close>

fun restore_create ::
  "'e ext \<Rightarrow> activation_record list \<Rightarrow> (activation_record \<times> subscription) list \<Rightarrow> gerr option \<Rightarrow>
   client \<Rightarrow> 'e world \<Rightarrow> (activation_record \<times> subscription) list \<times> gerr option \<times> client \<times> 'e world" where
  "restore_create X [] created joined c w = (created, joined, c, w)"
| "restore_create X (rec # recs) created joined c w =
     (let w1 = (if ar_active rec then cleanup_subscription X c (ar_active_sub rec)
                  ''failed to unsubscribe stale subscription before restore'' w else w);
          (s, w2) = create_subscription X c rec ''restore_subscriptions'' False w1
      in case s of
           Inl err \<Rightarrow>
             (let c1 = with_subs (mark_inactive (ar_id rec) (Some err) (cl_subs c)) c;
                  w3 = count_subscribe c1 (ar_kind rec) (ar_subject rec) ''failure''
                    (log_client c1 LogError ''subscription restore failed to create NATS subscription'' w2)
              in restore_create X recs created (errors_join [joined, Some err]) c1 w3)
         | Inr sub \<Rightarrow> restore_create X recs (created @ [(rec, sub)]) joined c w2)"

text \<open>When the batch cannot be made ready, every new subscription is dropped.\<close>

fun restore_abandon ::
  "'e ext \<Rightarrow> gerr \<Rightarrow> (activation_record \<times> subscription) list \<Rightarrow> client \<Rightarrow> 'e world \<Rightarrow> client \<times> 'e world" where
  "restore_abandon X err [] c w = (c, w)"
| "restore_abandon X err ((rec, sub) # ts) c w =
     (let (_, w1) = unsubscribe X sub w
      in restore_abandon X err ts (with_subs (mark_inactive (ar_id rec) (Some err) (cl_subs c)) c) w1)"

fun restore_enter ::
  "'e ext \<Rightarrow> (activation_record \<times> subscription) list \<Rightarrow> client \<Rightarrow> 'e world \<Rightarrow> client \<times> 'e world" where
  "restore_enter X [] c w = (c, w)"
| "restore_enter X ((rec, sub) # ts) c w =
     (case get_activation_record (cl_subs c) (ar_id rec) of
        None \<Rightarrow> (let (_, w1) = unsubscribe X sub w in restore_enter X ts c w1)
      | Some _ \<Rightarrow>
          (let (stale, r) = mark_active (ar_id rec) (Some sub) (cl_subs c);
               c1 = with_subs r c;
               w1 = (case stale of None \<Rightarrow> w | Some s \<Rightarrow> snd (unsubscribe X s w));
               w2 = count_subscribe c1 (ar_kind rec) (ar_subject rec) ''success''
                 (log_client c1 LogInfo ''subscription activated (batch)'' w1)
           in restore_enter X ts c1 w2))"

definition restore_flush_failed :: "gerr \<Rightarrow> gerr" where
  "restore_flush_failed err = AgError CodeSubscribeFailed ''restore_subscriptions_batch_flush'' [] []
     ''batch subscribe readiness flush failed'' True (Some err)"

definition restore_all ::
  "'e ext \<Rightarrow> (string list \<Rightarrow> string list) \<Rightarrow> client \<Rightarrow> 'e world \<Rightarrow> gerr option \<times> client \<times> 'e world" where
  "restore_all X ord c w =
     (let records = restore_records ord (cl_subs c) in
      if records = [] then (None, c, w)
      else
     (let (created, joined, c1, w1) = restore_create X records [] None c w in
      if created = [] then (joined, sync_subscription_health c1, w1)
      else
     (let (n, w2) = connection X (cl_session c1) w1 in
      case n of
        Inl err \<Rightarrow>
          (let (c2, w3) = restore_abandon X err created c1 w2
           in (errors_join [joined, Some (public_error err)], sync_subscription_health c2, w3))
      | Inr nc \<Rightarrow>
     (let d = subscribe_timeout (cl_session c1);
          (f, w3) = perform (EvFlushTimeout nc d) (x_flush_timeout X nc d) w2
      in case f of
        Some err \<Rightarrow>
          (let e = restore_flush_failed err; (c2, w4) = restore_abandon X e created c1 w3
           in (errors_join [joined, Some e], sync_subscription_health c2, w4))
      | None \<Rightarrow>
          (let (c2, w4) = restore_enter X created c1 w3 in (joined, sync_subscription_health c2, w4))))))"

end
