(* ===== verification/Subscription_Accounts.thy ===== *)
theory Subscription_Accounts
  imports Client_Subscriptions
begin

text \<open>
  What the operations on subscriptions do with the handles that the server's client library hands
  out: the case rules of subscribing, activating, registering, restoring and deactivating, the
  invariant of the client that all of them keep, and the accounting for every handle.
\<close>

section \<open>Accounting for subscription handles\<close>

text \<open>
  The subscriptions that a trace shows made and dropped, those a registry holds, and the contract
  of every operation here: whatever was held before or made meanwhile is held afterwards or was
  unsubscribed, so no subscription is lost from sight while the server still serves it.
\<close>

definition made_subs :: "event list \<Rightarrow> subscription set" where
  "made_subs evs = {s. \<exists>nc subject queue cb. EvSubscribe nc subject queue cb (Inr s) \<in> set evs}"

definition dropped_subs :: "event list \<Rightarrow> subscription set" where
  "dropped_subs evs = {s. \<exists>r. EvUnsubscribe s r \<in> set evs}"

definition held_subs :: "registry \<Rightarrow> subscription set" where
  "held_subs r = {s. \<exists>i. held_by r i = Some s}"

definition accounts :: "registry \<Rightarrow> event list \<Rightarrow> registry \<Rightarrow> bool" where
  "accounts r evs r' \<longleftrightarrow> held_subs r \<union> made_subs evs \<subseteq> held_subs r' \<union> dropped_subs evs"

lemma made_dropped_simps [simp]:
  "made_subs [] = {}" "dropped_subs [] = {}"
  "made_subs (xs @ ys) = made_subs xs \<union> made_subs ys"
  "dropped_subs (xs @ ys) = dropped_subs xs \<union> dropped_subs ys"
  "made_subs (EvUnsubscribe s r # evs) = made_subs evs"
  "dropped_subs (EvUnsubscribe s r # evs) = insert s (dropped_subs evs)"
  "made_subs (EvSubscribe nc subject queue cb (Inr s) # evs) = insert s (made_subs evs)"
  "made_subs (EvSubscribe nc subject queue cb (Inl e) # evs) = made_subs evs"
  "dropped_subs (EvSubscribe nc subject queue cb x # evs) = dropped_subs evs"
  "made_subs (EvLog level msg # evs) = made_subs evs" "dropped_subs (EvLog level msg # evs) = dropped_subs evs"
  "made_subs (EvErrorSink e # evs) = made_subs evs" "dropped_subs (EvErrorSink e # evs) = dropped_subs evs"
  "made_subs (EvIncSubscribe k subject result # evs) = made_subs evs"
  "dropped_subs (EvIncSubscribe k subject result # evs) = dropped_subs evs"
  "made_subs (EvFlushTimeout nc d f # evs) = made_subs evs"
  "dropped_subs (EvFlushTimeout nc d f # evs) = dropped_subs evs"
  by (auto simp: made_subs_def dropped_subs_def)

lemma accounts_trans: "accounts r xs r1 \<Longrightarrow> accounts r1 ys r2 \<Longrightarrow> accounts r (xs @ ys) r2"
  by (auto simp: accounts_def)

lemma accounts_quiet: "made_subs evs \<subseteq> dropped_subs evs \<Longrightarrow> accounts r evs r"
  by (auto simp: accounts_def)

lemma accounts_held: "made_subs evs \<subseteq> dropped_subs evs \<Longrightarrow> held_by r' = held_by r \<Longrightarrow> accounts r evs r'"
  by (auto simp: accounts_def held_subs_def)

lemma with_subs_simps [simp]:
  "cl_subs (with_subs r c) = r" "cl_options (with_subs r c) = cl_options c"
  "cl_session (with_subs r c) = cl_session c" "with_subs (cl_subs c) c = c"
  "with_subs r (with_subs r' c) = with_subs r c" "cl_subjects (with_subs r c) = cl_subjects c"
  "client_health (with_subs r c) = client_health c"
  by (simp_all add: with_subs_def client_health_def)

text \<open>Events that make and drop nothing.\<close>

lemma client_events [simp]:
  "w_trace (log_client c level msg w) = w_trace w @ (if co_logger (cl_options c) then [EvLog level msg] else [])"
  "w_trace (count_subscribe c k s r w) = w_trace w @ (if co_metrics (cl_options c) then [EvIncSubscribe k s r] else [])"
  "w_trace (report_client c err w) = w_trace w @
     (case client_sink (cl_options c) of None \<Rightarrow> [] | Some f \<Rightarrow> [EvErrorSink (f err)])"
  by (simp_all add: log_client_def count_subscribe_def report_client_def)

lemma cleanup_adds:
  obtains evs where "adds w (cleanup_subscription X c sub msg w) evs" "made_subs evs = {}"
    "dropped_subs evs = set_option sub"
proof (cases sub)
  case None
  then show thesis by (intro that [of "[]"]) (simp_all add: cleanup_subscription_def)
next
  case (Some s)
  obtain r w1 where u: "unsubscribe X s w = (r, w1)" by fastforce
  then have t: "w_trace w1 = w_trace w @ [EvUnsubscribe s r]" by (auto simp: unsubscribe_def dest: perform_trace)
  let ?evs = "EvUnsubscribe s r # (case r of None \<Rightarrow> [] | Some err \<Rightarrow>
      (if co_logger (cl_options c) then [EvLog LogWarn msg] else []) @
      (case client_sink (cl_options c) of None \<Rightarrow> [] | Some f \<Rightarrow> [EvErrorSink (f err)]))"
  have "adds w (cleanup_subscription X c sub msg w) ?evs"
    using u t Some by (auto simp: cleanup_subscription_def adds_def split: option.split)
  moreover have "made_subs ?evs = {}" "dropped_subs ?evs = set_option sub"
    using Some by (auto split: option.split)
  ultimately show thesis by (rule that)
qed

lemma subscribe_internal_cases:
  assumes "subscribe_internal X c op kind subject queue callback do_flush w = (r, w')"
  obtains (failed) err evs where "r = Inl err" "adds w w' evs" "made_subs evs \<subseteq> dropped_subs evs" "public_err err"
  | (made) s nc q cb evs where "r = Inr s" "adds w w' evs" "made_subs evs = {s}" "dropped_subs evs = {}"
      "m_nc (cl_session c) = Some nc" "callback = Some cb" "EvSubscribe nc subject q cb (Inr s) \<in> set evs"
      "do_flush \<Longrightarrow> \<exists>d. EvFlushTimeout nc d None \<in> set evs"
      "q = (if \<not> blank queue then queue else [])"
proof (cases "callback = None \<or> blank subject")
  case True
  with assms show thesis
    by (intro failed [of "if callback = None then validation_error op ''subscription callback is required''
        else validation_error op ''subscription subject is required''" "[]"])
      (auto simp: subscribe_internal_def split: option.splits)
next
  case False
  then obtain cb where cb: "callback = Some cb" by auto
  obtain n w1 where n: "connection X (cl_session c) w = (n, w1)" by fastforce
  then have t1: "w_trace w1 = w_trace w" by (rule manager_connection.connection_trace)
  show thesis
  proof (cases n)
    case (Inl err)
    with assms False cb n t1 show thesis
      by (intro failed [of "public_error err" "[]"]) (auto simp: subscribe_internal_def adds_def)
  next
    case nc: (Inr nc)
    let ?q = "if \<not> blank queue then queue else []"
    obtain s w2 where s: "perform (EvSubscribe nc subject ?q cb) (x_subscribe X nc subject ?q cb) w1 = (s, w2)"
      by fastforce
    note t2 = perform_trace [OF s]
    have live: "m_nc (cl_session c) = Some nc" using connection_Inr n nc by blast
    show thesis
    proof (cases s)
      case (Inl err)
      with assms False cb n nc s t1 t2 show thesis
        by (intro failed [of "client_subscribe_failed op subject ''subscribe operation failed'' err"
              "[EvSubscribe nc subject ?q cb (Inl err)]"])
          (auto simp: subscribe_internal_def adds_def client_subscribe_failed_def Let_def)
    next
      case sub: (Inr sub)
      let ?log = "if co_logger (cl_options c) then [EvLog LogDebug ''subscription created''] else []"
      show thesis
      proof (cases do_flush)
        case False
        with assms \<open>\<not> (callback = None \<or> blank subject)\<close> cb n nc s sub t1 t2 live show thesis
          by (intro made [of sub "EvSubscribe nc subject ?q cb (Inr sub) # ?log" nc cb ?q])
            (auto simp: subscribe_internal_def adds_def Let_def)
      next
        case True
        let ?d = "subscribe_timeout (cl_session c)"
        obtain f w3 where f: "perform (EvFlushTimeout nc ?d) (x_flush_timeout X nc ?d) w2 = (f, w3)" by fastforce
        note t3 = perform_trace [OF f]
        show thesis
        proof (cases f)
          case None
          with assms False True cb n nc s sub f t1 t2 t3 live show thesis
            by (intro made [of sub "EvSubscribe nc subject ?q cb (Inr sub) # EvFlushTimeout nc ?d None # ?log" nc cb ?q])
              (auto simp: subscribe_internal_def adds_def Let_def)
        next
          case (Some err)
          obtain u w4 where u: "perform (EvUnsubscribe sub) (x_unsubscribe X sub) w3 = (u, w4)" by fastforce
          note t4 = perform_trace [OF u]
          from assms False True cb n nc s sub f u t1 t2 t3 t4 Some show thesis
            by (intro failed [of "client_subscribe_failed op subject ''subscribe readiness flush failed'' err"
                "[EvSubscribe nc subject ?q cb (Inr sub), EvFlushTimeout nc ?d (Some err), EvUnsubscribe sub u]"])
              (auto simp: subscribe_internal_def adds_def client_subscribe_failed_def Let_def)
        qed
      qed
    qed
  qed
qed

lemma create_subscription_cases:
  assumes "create_subscription X c rec op do_flush w = (r, w')"
  obtains (failed) err evs where "r = Inl err" "adds w w' evs" "made_subs evs \<subseteq> dropped_subs evs" "public_err err"
  | (made) s nc q evs where "r = Inr s" "adds w w' evs" "made_subs evs = {s}" "dropped_subs evs = {}"
      "m_nc (cl_session c) = Some nc" "EvSubscribe nc (ar_subject rec) q (ar_callback rec) (Inr s) \<in> set evs"
      "do_flush \<Longrightarrow> \<exists>d. EvFlushTimeout nc d None \<in> set evs"
      "q = (if \<not> blank (ar_queue_group rec) then ar_queue_group rec else [])"
proof -
  let ?sub = "\<lambda>op' kind. subscribe_internal X c op' kind (ar_subject rec) (ar_queue_group rec)
      (Some (ar_callback rec)) do_flush w"
  have "create_subscription X c rec op do_flush w =
    (if ar_kind rec = kind_configure then ?sub ''subscribe_configure'' kind_configure
     else if ar_kind rec = kind_action then ?sub ''subscribe_action'' kind_action
     else if ar_kind rec = kind_result then ?sub ''subscribe_result'' kind_result
     else if ar_kind rec = kind_status then ?sub ''subscribe_status'' kind_status
     else (Inl (AgError CodeValidation op (ar_subject rec) [] ''unsupported subscription kind'' False None), w))"
    by (simp only: create_subscription_def Let_def subscribe_configure_def subscribe_action_def
        subscribe_result_def subscribe_status_def)
  then consider (unknown) "r = Inl (AgError CodeValidation op (ar_subject rec) [] ''unsupported subscription kind'' False None)" "w' = w"
    | (sub) op' kind where "?sub op' kind = (r, w')"
    unfolding assms by (metis prod.inject)
  then show thesis
  proof cases
    case unknown
    then show thesis
      by (intro failed [of "AgError CodeValidation op (ar_subject rec) [] ''unsupported subscription kind'' False None" "[]"]) simp_all
  next
    case sub
    then show thesis
    proof (cases rule: subscribe_internal_cases)
      case (failed err evs)
      then show thesis by (rule that(1))
    next
      case (made s nc q cb evs)
      then show thesis by (intro that(2) [of s evs nc q]) simp_all
    qed
  qed
qed

section \<open>One activation\<close>

lemma activation_record_iff: "get_activation_record r i = None \<longleftrightarrow> \<not> registered r i"
  by (simp add: get_activation_record_def registered_def)

lemma enter_cases:
  assumes "enter_subscription X rec sub c w = (c', w')"
  obtains (gone) evs where "\<not> registered (cl_subs c) (ar_id rec)" "c' = c" "adds w w' evs"
      "made_subs evs = {}" "dropped_subs evs = {sub}"
  | (active) stale reg evs where "registered (cl_subs c) (ar_id rec)"
      "mark_active (ar_id rec) (Some sub) (cl_subs c) = (stale, reg)" "c' = with_subs reg c"
      "adds w w' evs" "made_subs evs = {}" "dropped_subs evs = set_option stale"
proof (cases "get_activation_record (cl_subs c) (ar_id rec)")
  case None
  then have n: "\<not> registered (cl_subs c) (ar_id rec)"
    by (simp add: activation_record_iff)
  have "c' = c" "w' = cleanup_subscription X c (Some sub)
      ''failed to cleanup active subscription after registration was removed during activation'' w"
    using assms None by (auto simp: enter_subscription_def)
  moreover obtain evs where "adds w (cleanup_subscription X c (Some sub)
      ''failed to cleanup active subscription after registration was removed during activation'' w) evs"
    "made_subs evs = {}" "dropped_subs evs = set_option (Some sub)"
    by (rule cleanup_adds)
  ultimately show thesis by (intro gone [OF n, of evs]) simp_all
next
  case (Some a)
  then have n: "registered (cl_subs c) (ar_id rec)"
    using activation_record_iff [of "cl_subs c" "ar_id rec"] by simp
  obtain stale reg where m: "mark_active (ar_id rec) (Some sub) (cl_subs c) = (stale, reg)" by fastforce
  let ?w1 = "cleanup_subscription X (with_subs reg c) stale
      ''failed to unsubscribe stale subscription after override'' w"
  obtain evs where evs: "adds w ?w1 evs" "made_subs evs = {}" "dropped_subs evs = set_option stale"
    by (rule cleanup_adds)
  let ?more = "(if co_logger (cl_options c) then [EvLog LogInfo ''subscription activated''] else []) @
      (if co_metrics (cl_options c) then [EvIncSubscribe (ar_kind rec) (ar_subject rec) ''success''] else [])"
  have c': "c' = with_subs reg c" and more: "adds ?w1 w' ?more"
    using assms Some m by (auto simp: enter_subscription_def adds_def Let_def)
  have "adds w w' (evs @ ?more)" by (rule adds_trans [OF evs(1) more])
  then show thesis by (rule active [OF n m c']) (use evs in simp_all)
qed

lemma activate_record_cases:
  assumes "activate_record X rec force op do_flush c w = (r, c', w')"
  obtains (already) "ar_active rec" "r = None" "c' = c" "w' = w"
  | (failed) err evs where "r = Some err" "c' = with_subs (mark_inactive (ar_id rec) (Some err) (cl_subs c)) c"
      "adds w w' evs" "made_subs evs \<subseteq> dropped_subs evs"
      "ar_active rec \<Longrightarrow> set_option (ar_active_sub rec) \<subseteq> dropped_subs evs" "public_err err"
  | (gone) evs where "r = None" "\<not> registered (cl_subs c) (ar_id rec)" "c' = c" "adds w w' evs"
      "made_subs evs \<subseteq> dropped_subs evs"
  | (active) sub nc q stale reg evs where "r = None" "registered (cl_subs c) (ar_id rec)"
      "mark_active (ar_id rec) (Some sub) (cl_subs c) = (stale, reg)" "c' = with_subs reg c"
      "adds w w' evs" "made_subs evs = {sub}" "set_option stale \<subseteq> dropped_subs evs"
      "m_nc (cl_session c) = Some nc" "EvSubscribe nc (ar_subject rec) q (ar_callback rec) (Inr sub) \<in> set evs"
      "q = (if \<not> blank (ar_queue_group rec) then ar_queue_group rec else [])"
proof (cases "ar_active rec \<and> \<not> force")
  case True
  with assms show thesis by (intro already) (simp_all add: activate_record_def)
next
  case False
  let ?w1 = "if force then cleanup_subscription X c (ar_active_sub rec)
      ''failed to unsubscribe stale subscription before restore'' w else w"
  obtain e1 where e1: "adds w ?w1 e1" "made_subs e1 = {}" "force \<Longrightarrow> dropped_subs e1 = set_option (ar_active_sub rec)"
  proof (cases force)
    case True
    obtain e where "adds w (cleanup_subscription X c (ar_active_sub rec)
        ''failed to unsubscribe stale subscription before restore'' w) e" "made_subs e = {}"
      "dropped_subs e = set_option (ar_active_sub rec)"
      by (rule cleanup_adds)
    with True show thesis by (intro that [of e]) simp_all
  qed (use that [of "[]"] in simp)
  obtain s w2 where s: "create_subscription X c rec op do_flush ?w1 = (s, w2)" by fastforce
  have act: "activate_record X rec force op do_flush c w = (case s of
      Inl err \<Rightarrow> (let c1 = with_subs (mark_inactive (ar_id rec) (Some err) (cl_subs c)) c
        in (Some err, c1, count_subscribe c1 (ar_kind rec) (ar_subject rec) ''failure''
             (log_client c1 LogError ''subscription activation failed'' w2)))
    | Inr sub \<Rightarrow> (let (c1, w3) = enter_subscription X rec sub c w2 in (None, c1, w3)))"
    unfolding activate_record_def if_not_P [OF False] using s by simp
  from s show thesis
  proof (cases rule: create_subscription_cases)
    case (failed err evs)
    let ?more = "(if co_logger (cl_options c) then [EvLog LogError ''subscription activation failed''] else []) @
        (if co_metrics (cl_options c) then [EvIncSubscribe (ar_kind rec) (ar_subject rec) ''failure''] else [])"
    have *: "r = Some err" "c' = with_subs (mark_inactive (ar_id rec) (Some err) (cl_subs c)) c" "adds w2 w' ?more"
      using assms act failed(1) by (auto simp: adds_def Let_def)
    have "adds w w' (e1 @ evs @ ?more)" by (rule adds_trans [OF e1(1) adds_trans [OF failed(2) *(3)]])
    then show thesis
      by (rule that(2) [OF *(1,2)]) (use e1 failed False in auto)
  next
    case (made sub nc q evs)
    obtain c1 w3 where en: "enter_subscription X rec sub c w2 = (c1, w3)" by fastforce
    have r: "r = None" "c' = c1" "w' = w3" using assms act made(1) en by auto
    from en show thesis
    proof (cases rule: enter_cases)
      case (gone e3)
      have "adds w w' (e1 @ evs @ e3)" unfolding r(3) by (rule adds_trans [OF e1(1) adds_trans [OF made(2) gone(3)]])
      then show thesis by (intro that(3)) (use e1 made gone r in auto)
    next
      case (active stale reg e3)
      have a: "adds w w' (e1 @ evs @ e3)" unfolding r(3) by (rule adds_trans [OF e1(1) adds_trans [OF made(2) active(4)]])
      have c': "c' = with_subs reg c" using r active by simp
      show thesis
        by (rule that(4) [OF r(1) active(1,2) c' a]) (use e1 made active in auto)
    qed
  qed
qed

text \<open>An activation record is current when it tells what the registry holds.\<close>

definition current :: "registry \<Rightarrow> activation_record \<Rightarrow> bool" where
  "current r rec \<longleftrightarrow> held_by r (ar_id rec) = ar_active_sub rec \<and> (ar_active rec \<longleftrightarrow> ar_active_sub rec \<noteq> None)"

lemma held_subs_inactive:
  "held_subs r \<subseteq> held_subs (mark_inactive i err r) \<union> set_option (held_by r i)"
  using subs.drop_held [of i err r] by (auto simp: held_subs_def fun_upd_def)

lemma held_subs_active:
  assumes "mark_active i (Some s) r = (stale, r')" and "registered r i"
  shows "insert s (held_subs r) \<subseteq> held_subs r' \<union> set_option stale"
proof
  fix x
  assume "x \<in> insert s (held_subs r)"
  then consider "x = s" | j where "held_by r j = Some x" by (auto simp: held_subs_def)
  then show "x \<in> held_subs r' \<union> set_option stale"
  proof cases
    case 1
    have "held_by r' i = Some s" using subs.activate_held [OF assms] by simp
    with 1 show ?thesis by (auto simp: held_subs_def)
  next
    case 2
    from subs.activate_conserves [OF assms this] show ?thesis by (auto simp: held_subs_def)
  qed
qed

lemma inactive_frame:
  "registered (mark_inactive i err r) = registered r" "rg_next_id (mark_inactive i err r) = rg_next_id r"
  "rg_by_key (mark_inactive i err r) = rg_by_key r"
  by (auto simp: mark_inactive_def registered_def fun_eq_iff Let_def simp del: map_of_eq_Some_iff split: option.splits)

text \<open>What an activation may touch: the handle of its registration, and nothing else of the client.\<close>

definition touches :: "string set \<Rightarrow> client \<Rightarrow> client \<Rightarrow> bool" where
  "touches I c c' \<longleftrightarrow> c' = with_subs (cl_subs c') c \<and> registered (cl_subs c') = registered (cl_subs c) \<and>
     (\<forall>j. j \<notin> I \<longrightarrow> held_by (cl_subs c') j = held_by (cl_subs c) j) \<and>
     (reg_ok (cl_subs c) \<longrightarrow> reg_ok (cl_subs c'))"

lemma touches_refl [simp]: "touches I c c"
  by (simp add: touches_def)

lemma touches_trans: "touches I c c1 \<Longrightarrow> touches J c1 c2 \<Longrightarrow> touches (I \<union> J) c c2"
  unfolding touches_def by (metis Un_iff with_subs_simps(5))

lemma touches_inactive: "touches {i} c (with_subs (mark_inactive i err (cl_subs c)) c)"
  using subs.drop_held [of i err "cl_subs c"] by (simp add: touches_def inactive_frame mark_inactive_ok)

lemma touches_active:
  assumes "mark_active i (Some s) (cl_subs c) = (stale, reg)" and "registered (cl_subs c) i"
  shows "touches {i} c (with_subs reg c)"
  using subs.activate_held [OF assms] mark_active_ok [OF _ assms(1)] by (simp add: touches_def)

lemma activate_record_adds:
  assumes "activate_record X rec force op do_flush c w = (r, c', w')" and cur: "current (cl_subs c) rec"
  shows "\<exists>evs. adds w w' evs \<and> accounts (cl_subs c) evs (cl_subs c') \<and> touches {ar_id rec} c c'"
  using assms(1)
proof (cases rule: activate_record_cases)
  case already
  then show ?thesis by (intro exI [of _ "[]"]) (simp add: accounts_quiet)
next
  case (failed err evs)
  have "set_option (held_by (cl_subs c) (ar_id rec)) \<subseteq> dropped_subs evs"
    using failed(5) cur by (cases "ar_active_sub rec") (auto simp: current_def)
  then have "accounts (cl_subs c) evs (cl_subs c')"
    using failed(2,4) held_subs_inactive [of "cl_subs c" "ar_id rec" "Some err"] by (auto simp: accounts_def)
  then show ?thesis using failed touches_inactive by blast
next
  case (gone evs)
  then show ?thesis by (intro exI [of _ evs]) (simp add: accounts_quiet)
next
  case (active sub nc q stale reg evs)
  have "accounts (cl_subs c) evs (cl_subs c')"
    using active(4,6,7) held_subs_active [OF active(3,2)] by (auto simp: accounts_def)
  then show ?thesis using active touches_active [OF active(3,2)] by blast
qed

section \<open>The loops\<close>

definition stale_free :: "registry \<Rightarrow> activation_record list \<Rightarrow> bool" where
  "stale_free r recs \<longleftrightarrow> distinct (map ar_id recs) \<and> (\<forall>rec \<in> set recs. current r rec)"

lemma stale_free_touched:
  "stale_free (cl_subs c) (rec # recs) \<Longrightarrow> touches {ar_id rec} c c' \<Longrightarrow> stale_free (cl_subs c') recs"
proof -
  assume a: "stale_free (cl_subs c) (rec # recs)" and t: "touches {ar_id rec} c c'"
  have "current (cl_subs c') x" if x: "x \<in> set recs" for x
  proof -
    have "ar_id x \<in> ar_id ` set recs" "ar_id rec \<notin> ar_id ` set recs"
      using a x by (simp_all add: stale_free_def)
    then have "ar_id x \<noteq> ar_id rec" by metis
    then have "held_by (cl_subs c') (ar_id x) = held_by (cl_subs c) (ar_id x)"
      using t by (simp add: touches_def)
    then show ?thesis using a x by (simp add: stale_free_def current_def)
  qed
  with a show "stale_free (cl_subs c') recs" by (simp add: stale_free_def)
qed

lemma activate_records_adds:
  assumes "activate_records X op recs joined c w = (r, c', w')" and "stale_free (cl_subs c) recs"
  shows "\<exists>evs. adds w w' evs \<and> accounts (cl_subs c) evs (cl_subs c') \<and> touches (ar_id ` set recs) c c'"
  using assms
proof (induction recs arbitrary: joined c w)
  case Nil
  then show ?case by (intro exI [of _ "[]"]) (simp add: accounts_quiet)
next
  case (Cons rec recs)
  obtain r1 c1 w1 where a: "activate_record X rec False op True c w = (r1, c1, w1)"
    by (metis prod_cases3)
  have "current (cl_subs c) rec" using Cons.prems(2) by (simp add: stale_free_def)
  from activate_record_adds [OF a this] obtain e1 where
    e1: "adds w w1 e1" "accounts (cl_subs c) e1 (cl_subs c1)" "touches {ar_id rec} c c1" by blast
  have "activate_records X op recs (case r1 of None \<Rightarrow> joined | Some err \<Rightarrow> errors_join [joined, Some err]) c1 w1
      = (r, c', w')"
    using Cons.prems(1) a by simp
  from Cons.IH [OF this stale_free_touched [OF Cons.prems(2) e1(3)]] obtain e2 where
    e2: "adds w1 w' e2" "accounts (cl_subs c1) e2 (cl_subs c')" "touches (ar_id ` set recs) c1 c'" by blast
  have "touches (ar_id ` set (rec # recs)) c c'" using touches_trans [OF e1(3) e2(3)] by simp
  then show ?case using adds_trans [OF e1(1) e2(1)] accounts_trans [OF e1(2) e2(2)] by blast
qed

lemma range_entries_ids:
  assumes "reg_ok r" and "order_ok ord"
  shows "map en_id (range_entries ord r) = ord (map fst (rg_entries r))"
proof -
  have "map en_id (List.map_filter (gomap_get (rg_entries r)) ks) = ks"
    if "set ks \<subseteq> fst ` set (rg_entries r)" for ks
    using that
  proof (induction ks)
    case (Cons k ks)
    then obtain e where e: "gomap_get (rg_entries r) k = Some e"
      by (metis insert_subset list.simps(15) map_of_eq_None_iff not_None_eq)
    with reg_okD(3) [OF assms(1) e] Cons show ?case
      by (simp add: List.map_filter_def del: map_of_eq_Some_iff)
  qed (simp add: List.map_filter_def)
  then show ?thesis by (simp add: range_entries_def order_set [OF assms(2)])
qed

lemma list_activations_current:
  assumes "reg_ok r" and "order_ok ord"
  shows "stale_free r (list_activations ord r)"
proof -
  have wf: "gomap_wf (rg_entries r)" using assms(1) by (simp add: reg_ok_def)
  have "distinct (ord (map fst (rg_entries r)))"
    using wf assms(2) by (metis mset_eq_imp_distinct_iff order_ok_def)
  moreover have "map ar_id (list_activations ord r) = map en_id (range_entries ord r)"
    by (simp add: list_activations_def activation_from_entry_def)
  moreover have "current r rec" if rec: "rec \<in> set (list_activations ord r)" for rec
  proof -
    from rec obtain e i where e: "gomap_get (rg_entries r) i = Some e" "rec = activation_from_entry e"
      using range_entries_iff [OF assms(2) wf] by (auto simp: list_activations_def simp del: map_of_eq_Some_iff)
    with reg_okD(3,4) [OF assms(1) e(1)] show ?thesis
      by (simp add: current_def held_by_def activation_from_entry_def del: map_of_eq_Some_iff)
  qed
  ultimately show ?thesis by (simp add: stale_free_def range_entries_ids [OF assms])
qed

lemma drop_handles_adds:
  assumes "drop_handles X op hs joined w = (r, w')"
  shows "\<exists>evs. adds w w' evs \<and> made_subs evs = {} \<and> dropped_subs evs = (\<Union>h \<in> set hs. set_option (ah_sub h)) \<and>
    (r = None \<longleftrightarrow> joined = None \<and> (\<forall>s e. EvUnsubscribe s (Some e) \<notin> set evs)) \<and>
    (\<forall>ev \<in> set evs. \<exists>s x. ev = EvUnsubscribe s x)"
  using assms
proof (induction hs arbitrary: joined w)
  case Nil
  then show ?case by (intro exI [of _ "[]"]) simp
next
  case (Cons h hs)
  show ?case
  proof (cases "ah_sub h")
    case None
    with Cons show ?thesis by simp
  next
    case (Some s)
    obtain u w1 where u: "unsubscribe X s w = (u, w1)" by fastforce
    then have t: "w_trace w1 = w_trace w @ [EvUnsubscribe s u]" by (auto simp: unsubscribe_def dest: perform_trace)
    let ?j = "case u of None \<Rightarrow> joined | Some err \<Rightarrow> errors_join [joined, Some (AgError CodeShutdown op (ah_subject h) []
        ''failed to unsubscribe active handler'' True (Some err))]"
    have "drop_handles X op hs ?j w1 = (r, w')" using Cons.prems Some u by simp
    from Cons.IH [OF this] obtain evs where evs: "adds w1 w' evs" "made_subs evs = {}"
      "dropped_subs evs = (\<Union>h \<in> set hs. set_option (ah_sub h))"
      "r = None \<longleftrightarrow> ?j = None \<and> (\<forall>s e. EvUnsubscribe s (Some e) \<notin> set evs)"
      "\<forall>ev \<in> set evs. \<exists>s x. ev = EvUnsubscribe s x" by blast
    have "?j = None \<longleftrightarrow> joined = None \<and> u = None" by (cases u) simp_all
    then show ?thesis using evs t Some
      by (intro exI [of _ "EvUnsubscribe s u # evs"]) (auto simp: adds_def)
  qed
qed

section \<open>The invariant of the client\<close>

text \<open>
  The counters that health reports are those of the registry, the registry, the session and the
  subject builder are in order, and the session runs on a normalised configuration.
\<close>

definition counts_ok :: "client \<Rightarrow> bool" where
  "counts_ok c \<longleftrightarrow> registry_counts (cl_subs c) =
     (hs_registered (client_health c), hs_active (client_health c))"

definition client_ok :: "client \<Rightarrow> bool" where
  "client_ok c \<longleftrightarrow> reg_ok (cl_subs c) \<and> counts_ok c \<and> mgr_ok (cl_session c) \<and> builder_ok (cl_subjects c) \<and>
     effective_ok (m_effective (cl_session c))"

lemma sync_subs [simp]: "cl_subs (sync_subscription_health c) = cl_subs c"
  by (simp add: sync_subscription_health_def split: prod.split)

lemma sync_counts [simp]: "counts_ok (sync_subscription_health c)"
  by (simp add: sync_subscription_health_def counts_ok_def set_subscription_counts_def client_health_def
      split: prod.split)

lemma sync_id: "counts_ok c \<Longrightarrow> sync_subscription_health c = c"
  by (simp add: sync_subscription_health_def counts_ok_def set_subscription_counts_def client_health_def)

lemma sync_sync [simp]: "sync_subscription_health (sync_subscription_health c) = sync_subscription_health c"
  by (rule sync_id) simp

lemma sync_with_subs [simp]:
  "sync_subscription_health (with_subs r (sync_subscription_health c)) = sync_subscription_health (with_subs r c)"
  by (simp add: sync_subscription_health_def with_subs_def set_subscription_counts_def split: prod.split)

lemma sync_session [simp]:
  "m_nc (cl_session (sync_subscription_health c)) = m_nc (cl_session c)"
  "cl_options (sync_subscription_health c) = cl_options c"
  "m_effective (cl_session (sync_subscription_health c)) = m_effective (cl_session c)"
  "cl_subjects (sync_subscription_health c) = cl_subjects c"
  "hs_state (client_health (sync_subscription_health c)) = hs_state (client_health c)"
  by (simp_all add: sync_subscription_health_def set_subscription_counts_def client_health_def split: prod.split)

lemma sync_mgr_ok [simp]: "mgr_ok (cl_session c) \<Longrightarrow> mgr_ok (cl_session (sync_subscription_health c))"
  by (simp add: sync_subscription_health_def set_subscription_counts_ok split: prod.split)

text \<open>
  What an operation on subscriptions leaves: the client of before with a new registry and the
  counters brought up to date.
\<close>

definition with_registry :: "client \<Rightarrow> client \<Rightarrow> bool" where
  "with_registry c c' \<longleftrightarrow> c' = sync_subscription_health (with_subs (cl_subs c') c)"

lemma with_registry_ok:
  assumes "client_ok c" and "with_registry c c'" and "reg_ok (cl_subs c')"
  shows "client_ok c'"
proof -
  have "c' = sync_subscription_health (with_subs (cl_subs c') c)" using assms(2) by (simp add: with_registry_def)
  then show ?thesis using assms(1,3)
    by (metis client_ok_def sync_counts sync_mgr_ok sync_session(3,4) with_subs_simps(3,6))
qed

lemma with_registry_refl: "client_ok c \<Longrightarrow> with_registry c c"
  by (simp add: with_registry_def sync_id client_ok_def)

lemma with_registry_touches:
  "touches I c c' \<Longrightarrow> with_registry c (sync_subscription_health c')"
  unfolding with_registry_def touches_def by (metis sync_subs)

section \<open>The operations account for their subscriptions\<close>

definition sound_step :: "client \<Rightarrow> 'e world \<Rightarrow> client \<Rightarrow> 'e world \<Rightarrow> bool" where
  "sound_step c w c' w' \<longleftrightarrow> (\<exists>evs. adds w w' evs \<and> accounts (cl_subs c) evs (cl_subs c') \<and> client_ok c')"

lemma activate_all_sound:
  assumes "client_ok c" and "order_ok ord" and "activate_all X ord op c w = (r, c', w')"
  shows "sound_step c w c' w'" and "with_registry c c'" and "registered (cl_subs c') = registered (cl_subs c)"
proof -
  have ok: "reg_ok (cl_subs c)" using assms(1) by (simp add: client_ok_def)
  obtain c1 where a: "activate_records X op (list_activations ord (cl_subs c)) None c w = (r, c1, w')"
    and c': "c' = sync_subscription_health c1"
    using assms(3) by (auto simp: activate_all_def split: prod.splits)
  from activate_records_adds [OF a list_activations_current [OF ok assms(2)]] obtain evs where
    evs: "adds w w' evs" "accounts (cl_subs c) evs (cl_subs c1)"
      "touches (ar_id ` set (list_activations ord (cl_subs c))) c c1" by blast
  show reg: "with_registry c c'" unfolding c' by (rule with_registry_touches [OF evs(3)])
  have "reg_ok (cl_subs c1)" using evs(3) ok by (simp add: touches_def)
  then have "client_ok c'" using with_registry_ok [OF assms(1) reg] by (simp add: c')
  with evs(1,2) show "sound_step c w c' w'" unfolding sound_step_def c' by auto
  show "registered (cl_subs c') = registered (cl_subs c)" using evs(3) by (simp add: c' touches_def)
qed

lemma deactivate_all_effect:
  assumes "client_ok c" and "order_ok ord" and "deactivate_all X ord op c w = (r, c', w')"
  obtains evs where "adds w w' evs" "made_subs evs = {}" "dropped_subs evs = held_subs (cl_subs c)"
    "\<And>i. held_by (cl_subs c') i = None" "registered (cl_subs c') = registered (cl_subs c)"
    "r = None \<longleftrightarrow> (\<forall>s e. EvUnsubscribe s (Some e) \<notin> set evs)"
    "registry_counts (cl_subs c') = (fst (registry_counts (cl_subs c)), 0)" "with_registry c c'"
    "reg_ok (cl_subs c')" "\<forall>ev \<in> set evs. \<exists>s x. ev = EvUnsubscribe s x"
proof -
  have ok: "reg_ok (cl_subs c)" using assms(1) by (simp add: client_ok_def)
  obtain hs reg where cl: "clear_active_handles ord (cl_subs c) = (hs, reg)" by fastforce
  have d: "drop_handles X op hs None w = (r, w')" and c': "c' = sync_subscription_health (with_subs reg c)"
    using assms(3) cl by (auto simp: deactivate_all_def split: prod.splits)
  from drop_handles_adds [OF d] obtain evs where evs: "adds w w' evs" "made_subs evs = {}"
    "dropped_subs evs = (\<Union>h \<in> set hs. set_option (ah_sub h))"
    "r = None \<longleftrightarrow> (\<forall>s e. EvUnsubscribe s (Some e) \<notin> set evs)" "\<forall>ev \<in> set evs. \<exists>s x. ev = EvUnsubscribe s x"
    by auto
  have "dropped_subs evs = held_subs (cl_subs c)"
    unfolding evs(3) held_subs_def using clear_active_hands_back(1) [OF ok assms(2) cl] by (auto simp: set_eq_iff)
  moreover have "with_registry c c'" by (simp add: with_registry_def c')
  moreover have "reg_ok (cl_subs c')" using clear_active_handles_ok [OF ok cl] by (simp add: c')
  ultimately show thesis
    by (intro that [of evs]) (use evs clear_active_leaves [OF cl] in \<open>simp_all add: c'\<close>)
qed

lemma deactivate_all_sound:
  assumes "client_ok c" and "order_ok ord" and "deactivate_all X ord op c w = (r, c', w')"
  shows "sound_step c w c' w'"
  using assms
proof (rule deactivate_all_effect)
  fix evs
  assume "adds w w' evs" "made_subs evs = {}" "dropped_subs evs = held_subs (cl_subs c)"
    "with_registry c c'" "reg_ok (cl_subs c')"
  then show ?thesis using with_registry_ok [OF assms(1)]
    by (auto simp: sound_step_def accounts_def)
qed

lemma remove_inactive:
  "registry_remove i (mark_inactive i err r) =
     (case registry_remove i r of (h, r') \<Rightarrow> (map_option (\<lambda>a. a\<lparr>ah_sub := None\<rparr>) h, r'))"
proof (cases "gomap_get (rg_entries r) i")
  case None
  then show ?thesis by (simp add: registry_remove_def mark_inactive_def)
next
  case (Some e)
  have del: "AList.delete i (AList.update i v m) = AList.delete i m" for v :: reg_entry and m
    by (induction m) auto
  show ?thesis using Some
    by (simp add: registry_remove_def mark_inactive_def Let_def handle_of_def del
        del: map_of_eq_Some_iff split: option.split)
qed

text \<open>
  Every outcome of a registration: refused by the registry, kept for the start that will activate
  it, active, or rolled back.
\<close>

lemma register_spec_cases:
  assumes ok: "client_ok c" and left: "ids_left (cl_subs c)"
    and reg: "register_spec X op spec msg c w = (r, c', w')"
  obtains (refused) err where "r = Some (public_error err)" "w' = w" "with_registry c c'"
      "reg_ok (cl_subs c')" "rg_entries (cl_subs c') = rg_entries (cl_subs c)"
      "rg_by_key (cl_subs c') = rg_by_key (cl_subs c)"
  | (kept) sn evs where "registry_add spec (cl_subs c) = (Inr sn, cl_subs c')" "r = None"
      "hs_state (client_health c) \<in> {StateNew, StateConnecting}" "with_registry c c'" "adds w w' evs"
      "made_subs evs = {}" "dropped_subs evs = {}" "held_by (cl_subs c') (sn_id sn) = None"
  | (active) sn reg1 sub nc q evs where "registry_add spec (cl_subs c) = (Inr sn, reg1)" "r = None"
      "mark_active (sn_id sn) (Some sub) reg1 = (None, cl_subs c')" "with_registry c c'" "adds w w' evs"
      "made_subs evs = {sub}" "m_nc (cl_session c) = Some nc" "registered reg1 (sn_id sn)"
      "EvSubscribe nc (as_subject spec) q (the (as_callback spec)) (Inr sub) \<in> set evs"
      "q = (if \<not> blank (as_queue_group spec) then as_queue_group spec else [])"
      "hs_state (client_health c) \<notin> {StateNew, StateConnecting}"
  | (rolled_back) err evs where "r = Some err" "public_err err" "with_registry c c'" "adds w w' evs"
      "made_subs evs \<subseteq> dropped_subs evs" "reg_ok (cl_subs c')" "rg_entries (cl_subs c') = rg_entries (cl_subs c)"
      "rg_by_key (cl_subs c') = rg_by_key (cl_subs c)"
proof -
  have rok: "reg_ok (cl_subs c)" using ok by (simp add: client_ok_def)
  obtain x reg1 where add: "registry_add spec (cl_subs c) = (x, reg1)" by fastforce
  note rok1 = registry_add_ok [OF rok left add]
  show thesis
  proof (cases x)
    case (Inl err)
    have keep: "rg_entries reg1 = rg_entries (cl_subs c)" "rg_by_key reg1 = rg_by_key (cl_subs c)"
      using add unfolding Inl by (cases rule: registry_add_cases; simp)+
    have r: "r = Some (public_error err)" "c' = with_subs reg1 c" "w' = w"
      using reg add Inl by (auto simp: register_spec_def Let_def)
    have "counts_ok (with_subs reg1 c)"
      using ok keep by (simp add: client_ok_def counts_ok_def registry_counts_def client_health_def)
    then have "with_registry c c'" by (simp add: with_registry_def r sync_id)
    then show thesis by (intro refused [of err]) (use r keep rok1 in simp_all)
  next
    case (Inr sn)
    let ?c2 = "sync_subscription_health (with_subs reg1 c)"
    let ?w1 = "count_subscribe ?c2 (as_kind spec) (as_subject spec) ''registered'' (log_client ?c2 LogDebug msg w)"
    let ?e1 = "(if co_logger (cl_options c) then [EvLog LogDebug msg] else []) @
        (if co_metrics (cl_options c) then [EvIncSubscribe (as_kind spec) (as_subject spec) ''registered''] else [])"
    have e1: "adds w ?w1 ?e1" "made_subs ?e1 = {}" "dropped_subs ?e1 = {}" by (auto simp: adds_def)
    obtain a c3 w2 where a: "activate_after_registration X (sn_id sn) op ?c2 ?w1 = (a, c3, w2)"
      by (metis prod_cases3)
    have rest: "(case a of None \<Rightarrow> (None, c3, w2) | Some err \<Rightarrow>
        (let (c4, w3) = rollback_registration X (sn_id sn) c3 w2 in (Some err, c4, w3))) = (r, c', w')"
      using reg add Inr a by (simp add: register_spec_def Let_def)
    from registry_added [OF rok left add [unfolded Inr]] obtain rec where
      rec: "get_activation_record reg1 (sn_id sn) = Some rec" "ar_id rec = sn_id sn" "\<not> ar_active rec"
        "ar_active_sub rec = None" "ar_subject rec = as_subject spec" "ar_queue_group rec = as_queue_group spec"
        "as_callback spec = Some (ar_callback rec)" "held_by reg1 (sn_id sn) = None" .
    have known: "registered reg1 (sn_id sn)" using rec(1) activation_record_iff [of reg1 "sn_id sn"] by simp
    show thesis
    proof (cases "hs_state (client_health c) \<in> {StateNew, StateConnecting}")
      case True
      then have "a = None" "c3 = ?c2" "w2 = ?w1"
        using a by (auto simp: activate_after_registration_def Let_def)
      with rest have r: "r = None" "c' = ?c2" "w' = ?w1" by auto
      show thesis
        by (rule kept [OF _ r(1) True, of sn ?e1]) (use add Inr r e1 rec(8) in \<open>simp_all add: with_registry_def\<close>)
    next
      case False
      obtain b c4 w4 where b: "activate_record X rec False op True ?c2 ?w1 = (b, c4, w4)" by (metis prod_cases3)
      have by_id: "activation_record_by_id ?c2 (sn_id sn) False = Some rec"
        using rec(1,3) by (simp add: activation_record_by_id_def)
      have act: "(a, c3, w2) = (case b of Some err \<Rightarrow> (Some err, c4, w4) | None \<Rightarrow> (None, sync_subscription_health c4, w4))"
        using a b False by_id by (auto simp: activate_after_registration_def activate_by_id_def Let_def)
      from b show thesis
      proof (cases rule: activate_record_cases)
        case already
        with rec(3) show thesis by simp
      next
        case (gone evs)
        with known rec(2) show thesis by simp
      next
        case (failed err evs)
        have rm: "registry_remove (sn_id sn) (mark_inactive (sn_id sn) (Some err) reg1) =
            (Some \<lparr>ah_id = sn_id sn, ah_subject = as_subject spec, ah_sub = None\<rparr>,
             (cl_subs c)\<lparr>rg_next_id := rg_next_id (cl_subs c) + 1\<rparr>)"
          using registry_add_undo [OF rok left add [unfolded Inr]] by (simp add: remove_inactive)
        have roll: "rollback_registration X (sn_id sn) c3 w2 =
            (sync_subscription_health (with_subs ((cl_subs c)\<lparr>rg_next_id := rg_next_id (cl_subs c) + 1\<rparr>) c), w4)"
          using act failed(1,2) rec(2) rm
          by (simp add: rollback_registration_def cleanup_subscription_def)
        have r: "r = Some err" "w' = w4"
          "c' = sync_subscription_health (with_subs ((cl_subs c)\<lparr>rg_next_id := rg_next_id (cl_subs c) + 1\<rparr>) c)"
          using rest act failed(1) roll by auto
        have a: "adds w w' (?e1 @ evs)" unfolding r(2) by (rule adds_trans [OF e1(1) failed(3)])
        show thesis
          by (rule rolled_back [OF r(1) failed(6) _ a])
            (use failed(4) e1 advance_ok [OF rok left] in \<open>auto simp: r with_registry_def\<close>)
      next
        case (active sub nc q stale reg2 evs)
        have m: "mark_active (sn_id sn) (Some sub) reg1 = (stale, reg2)" using active(3) rec(2) by simp
        have "stale = None" using subs.activate_stale [OF m known] rec(8) by (simp split: if_splits)
        have r: "r = None" "c' = sync_subscription_health (with_subs reg2 ?c2)" "w' = w4"
          using rest act active(1,4) by auto
        have a: "adds w w' (?e1 @ evs)" unfolding r(3) by (rule adds_trans [OF e1(1) active(5)])
        show thesis
          by (rule that(3) [OF add [unfolded Inr] r(1) _ _ a, of sub nc q])
            (use m \<open>stale = None\<close> active e1 known rec False in \<open>auto simp: r with_registry_def\<close>)
      qed
    qed
  qed
qed

section \<open>Restoring accounts for its subscriptions\<close>

lemma unsubscribe_trace: "unsubscribe X s w = (r, w') \<Longrightarrow> w_trace w' = w_trace w @ [EvUnsubscribe s r]"
  unfolding unsubscribe_def by (rule perform_trace)

lemma restore_create_adds:
  assumes "restore_create X recs created joined c w = (created', joined', c', w')"
    and "stale_free (cl_subs c) recs"
  shows "\<exists>evs new. created' = created @ new \<and> adds w w' evs \<and> fst ` set new \<subseteq> set recs \<and>
    held_subs (cl_subs c) \<union> made_subs evs \<subseteq> held_subs (cl_subs c') \<union> dropped_subs evs \<union> snd ` set new \<and>
    touches (ar_id ` set recs) c c' \<and>
    (\<forall>j. held_by (cl_subs c') j = None \<or> held_by (cl_subs c') j = held_by (cl_subs c) j) \<and>
    (\<forall>rec \<in> fst ` set new. set_option (ar_active_sub rec) \<subseteq> dropped_subs evs)"
  using assms
proof (induction recs arbitrary: created joined c w)
  case Nil
  then show ?case by (intro exI [of _ "[]"]) simp
next
  case (Cons rec recs)
  have cur: "current (cl_subs c) rec" using Cons.prems(2) by (simp add: stale_free_def)
  define w1 where "w1 = (if ar_active rec then cleanup_subscription X c (ar_active_sub rec)
      ''failed to unsubscribe stale subscription before restore'' w else w)"
  obtain e1 where e1: "adds w w1 e1" "made_subs e1 = {}" "dropped_subs e1 = set_option (ar_active_sub rec)"
  proof (cases "ar_active rec")
    case True
    show thesis
      by (rule cleanup_adds [of w X c "ar_active_sub rec" "''failed to unsubscribe stale subscription before restore''"])
        (use that True in \<open>simp add: w1_def\<close>)
  next
    case False
    then have "ar_active_sub rec = None" using cur by (simp add: current_def)
    with False show thesis by (intro that [of "[]"]) (simp_all add: w1_def)
  qed
  obtain x w2 where x: "create_subscription X c rec ''restore_subscriptions'' False w1 = (x, w2)" by fastforce
  from x show ?case
  proof (cases rule: create_subscription_cases)
    case (failed err evs)
    let ?c1 = "with_subs (mark_inactive (ar_id rec) (Some err) (cl_subs c)) c"
    let ?w3 = "count_subscribe ?c1 (ar_kind rec) (ar_subject rec) ''failure''
        (log_client ?c1 LogError ''subscription restore failed to create NATS subscription'' w2)"
    let ?more = "(if co_logger (cl_options c) then [EvLog LogError ''subscription restore failed to create NATS subscription''] else []) @
        (if co_metrics (cl_options c) then [EvIncSubscribe (ar_kind rec) (ar_subject rec) ''failure''] else [])"
    have more: "adds w2 ?w3 ?more" "made_subs ?more = {}" "dropped_subs ?more = {}" by (auto simp: adds_def)
    have t: "touches {ar_id rec} c ?c1" by (rule touches_inactive)
    have "restore_create X recs created (errors_join [joined, Some err]) ?c1 ?w3 = (created', joined', c', w')"
      using Cons.prems(1) x failed(1) by (simp add: w1_def Let_def)
    from Cons.IH [OF this stale_free_touched [OF Cons.prems(2) t]] obtain e2 new where
      new: "created' = created @ new" "fst ` set new \<subseteq> set recs"
        "\<forall>rec \<in> fst ` set new. set_option (ar_active_sub rec) \<subseteq> dropped_subs e2"
      and e2: "adds ?w3 w' e2" "touches (ar_id ` set recs) ?c1 c'"
        "held_subs (cl_subs ?c1) \<union> made_subs e2 \<subseteq> held_subs (cl_subs c') \<union> dropped_subs e2 \<union> snd ` set new"
        "\<forall>j. held_by (cl_subs c') j = None \<or> held_by (cl_subs c') j = held_by (cl_subs ?c1) j"
      by blast
    have "\<forall>j. held_by (cl_subs c') j = None \<or> held_by (cl_subs c') j = held_by (cl_subs c) j"
      using e2(4) subs.drop_held [of "ar_id rec" "Some err" "cl_subs c"] by (auto simp: fun_upd_def split: if_splits)
    moreover
    let ?evs = "e1 @ evs @ ?more @ e2"
    have a: "adds w w' ?evs"
      by (rule adds_trans [OF e1(1) adds_trans [OF failed(2) adds_trans [OF more(1) e2(1)]]])
    have "held_subs (cl_subs c) \<subseteq> held_subs (cl_subs ?c1) \<union> dropped_subs e1"
      using held_subs_inactive [of "cl_subs c" "ar_id rec" "Some err"] cur e1(3) by (simp add: current_def)
    then have "held_subs (cl_subs c) \<union> made_subs ?evs \<subseteq> held_subs (cl_subs c') \<union> dropped_subs ?evs \<union> snd ` set new"
      using e2(3) failed(3) e1(2) more(2,3) by auto
    moreover have "touches (ar_id ` set (rec # recs)) c c'" using touches_trans [OF t e2(2)] by simp
    ultimately show ?thesis using a new
      by (intro exI [of _ ?evs] exI [of _ new]) (auto simp: more)
  next
    case (made sub nc q evs)
    have rest: "restore_create X recs (created @ [(rec, sub)]) joined c w2 = (created', joined', c', w')"
      using Cons.prems(1) x made(1) by (simp add: w1_def Let_def)
    from Cons.IH [OF rest stale_free_touched [OF Cons.prems(2) touches_refl]] obtain e2 new where
      new: "created' = (created @ [(rec, sub)]) @ new" "fst ` set new \<subseteq> set recs"
        "\<forall>rec \<in> fst ` set new. set_option (ar_active_sub rec) \<subseteq> dropped_subs e2"
      and e2: "adds w2 w' e2" "touches (ar_id ` set recs) c c'"
        "held_subs (cl_subs c) \<union> made_subs e2 \<subseteq> held_subs (cl_subs c') \<union> dropped_subs e2 \<union> snd ` set new"
        "\<forall>j. held_by (cl_subs c') j = None \<or> held_by (cl_subs c') j = held_by (cl_subs c) j"
      by blast
    let ?evs = "e1 @ evs @ e2"
    have a: "adds w w' ?evs" by (rule adds_trans [OF e1(1) adds_trans [OF made(2) e2(1)]])
    have "touches (ar_id ` set (rec # recs)) c c'"
      using touches_trans [OF touches_refl [of "{ar_id rec}" c] e2(2)] by simp
    moreover have "held_subs (cl_subs c) \<union> made_subs ?evs \<subseteq>
        held_subs (cl_subs c') \<union> dropped_subs ?evs \<union> snd ` set ((rec, sub) # new)"
      using e2(3) made(3) e1(2) by auto
    moreover have "\<forall>x \<in> fst ` set ((rec, sub) # new). set_option (ar_active_sub x) \<subseteq> dropped_subs ?evs"
      using new(3) e1(3) by (auto simp: Ball_def)
    ultimately show ?thesis using a new(1,2) e2(4)
      by (intro exI [of _ ?evs] exI [of _ "(rec, sub) # new"]) auto
  qed
qed

lemma restore_abandon_adds:
  assumes "restore_abandon X err ts c w = (c', w')"
  shows "\<exists>evs. adds w w' evs \<and> made_subs evs = {} \<and> dropped_subs evs = snd ` set ts \<and>
    touches (ar_id ` fst ` set ts) c c' \<and>
    held_subs (cl_subs c) \<subseteq> held_subs (cl_subs c') \<union> {s. \<exists>rec \<in> fst ` set ts. held_by (cl_subs c) (ar_id rec) = Some s}"
  using assms
proof (induction ts arbitrary: c w)
  case Nil
  then show ?case by (intro exI [of _ "[]"]) simp
next
  case (Cons t ts)
  obtain rec sub where t: "t = (rec, sub)" by fastforce
  obtain u w1 where u: "unsubscribe X sub w = (u, w1)" by fastforce
  let ?c1 = "with_subs (mark_inactive (ar_id rec) (Some err) (cl_subs c)) c"
  have "restore_abandon X err ts ?c1 w1 = (c', w')" using Cons.prems t u by simp
  from Cons.IH [OF this] obtain evs where evs: "adds w1 w' evs" "made_subs evs = {}" "dropped_subs evs = snd ` set ts"
    "touches (ar_id ` fst ` set ts) ?c1 c'"
    "held_subs (cl_subs ?c1) \<subseteq> held_subs (cl_subs c') \<union> {s. \<exists>rec \<in> fst ` set ts. held_by (cl_subs ?c1) (ar_id rec) = Some s}"
    by blast
  have "adds w w' (EvUnsubscribe sub u # evs)" using evs(1) unsubscribe_trace [OF u] by (simp add: adds_def)
  moreover have "touches (ar_id ` fst ` set (t # ts)) c c'"
    using touches_trans [OF touches_inactive [of "ar_id rec" c "Some err"] evs(4)] by (simp add: t)
  moreover have "held_subs (cl_subs c) \<subseteq> held_subs (cl_subs c') \<union>
      {s. \<exists>rec \<in> fst ` set (t # ts). held_by (cl_subs c) (ar_id rec) = Some s}"
  proof
    fix s
    assume s: "s \<in> held_subs (cl_subs c)"
    have drop: "held_by (cl_subs ?c1) = (held_by (cl_subs c))(ar_id rec := None)"
      using subs.drop_held [of "ar_id rec" "Some err" "cl_subs c"] by simp
    from s held_subs_inactive [of "cl_subs c" "ar_id rec" "Some err"]
    consider "s \<in> held_subs (cl_subs ?c1)" | "held_by (cl_subs c) (ar_id rec) = Some s" by fastforce
    then show "s \<in> held_subs (cl_subs c') \<union> {s. \<exists>rec \<in> fst ` set (t # ts). held_by (cl_subs c) (ar_id rec) = Some s}"
    proof cases
      case 1
      with evs(5) show ?thesis unfolding drop by (auto split: if_splits)
    qed (simp add: t)
  qed
  ultimately show ?case using evs(2,3) by (intro exI [of _ "EvUnsubscribe sub u # evs"]) (simp add: t)
qed

lemma restore_enter_adds:
  assumes "restore_enter X ts c w = (c', w')"
  shows "\<exists>evs. adds w w' evs \<and> made_subs evs = {} \<and> touches (ar_id ` fst ` set ts) c c' \<and>
    held_subs (cl_subs c) \<union> snd ` set ts \<subseteq> held_subs (cl_subs c') \<union> dropped_subs evs"
  using assms
proof (induction ts arbitrary: c w)
  case Nil
  then show ?case by (intro exI [of _ "[]"]) simp
next
  case (Cons t ts)
  obtain rec sub where t: "t = (rec, sub)" by fastforce
  obtain c1 w1 e1 where step: "restore_enter X ts c1 w1 = (c', w')" "adds w w1 e1" "made_subs e1 = {}"
    "touches {ar_id rec} c c1" "insert sub (held_subs (cl_subs c)) \<subseteq> held_subs (cl_subs c1) \<union> dropped_subs e1"
  proof (cases "get_activation_record (cl_subs c) (ar_id rec)")
    case None
    obtain u w1 where u: "unsubscribe X sub w = (u, w1)" by fastforce
    show thesis
      by (rule that [of c w1 "[EvUnsubscribe sub u]"])
        (use Cons.prems t u None unsubscribe_trace [OF u] in \<open>auto simp: adds_def\<close>)
  next
    case (Some a)
    then have known: "registered (cl_subs c) (ar_id rec)"
      using activation_record_iff [of "cl_subs c" "ar_id rec"] by simp
    obtain stale reg where m: "mark_active (ar_id rec) (Some sub) (cl_subs c) = (stale, reg)" by fastforce
    let ?c1 = "with_subs reg c"
    let ?w1 = "case stale of None \<Rightarrow> w | Some s \<Rightarrow> snd (unsubscribe X s w)"
    let ?w2 = "count_subscribe ?c1 (ar_kind rec) (ar_subject rec) ''success''
        (log_client ?c1 LogInfo ''subscription activated (batch)'' ?w1)"
    let ?e = "(case stale of None \<Rightarrow> [] | Some s \<Rightarrow> [EvUnsubscribe s (fst (unsubscribe X s w))]) @
        (if co_logger (cl_options c) then [EvLog LogInfo ''subscription activated (batch)''] else []) @
        (if co_metrics (cl_options c) then [EvIncSubscribe (ar_kind rec) (ar_subject rec) ''success''] else [])"
    have "w_trace (snd (unsubscribe X s w)) = w_trace w @ [EvUnsubscribe s (fst (unsubscribe X s w))]" for s
      by (rule unsubscribe_trace [of X s w]) simp
    then have "adds w ?w2 ?e" by (auto simp: adds_def split: option.split)
    moreover have "made_subs ?e = {}" "dropped_subs ?e = set_option stale" by (auto split: option.split)
    moreover have "restore_enter X ts ?c1 ?w2 = (c', w')"
      using Cons.prems t Some m by (simp add: Let_def)
    ultimately show thesis
      using touches_active [OF m known] held_subs_active [OF m known]
      by (intro that [of ?c1 ?w2 ?e]) simp_all
  qed
  from Cons.IH [OF step(1)] obtain e2 where e2: "adds w1 w' e2" "made_subs e2 = {}"
    "touches (ar_id ` fst ` set ts) c1 c'"
    "held_subs (cl_subs c1) \<union> snd ` set ts \<subseteq> held_subs (cl_subs c') \<union> dropped_subs e2" by blast
  have "adds w w' (e1 @ e2)" by (rule adds_trans [OF step(2) e2(1)])
  moreover have "touches (ar_id ` fst ` set (t # ts)) c c'" using touches_trans [OF step(4) e2(3)] by (simp add: t)
  moreover have "held_subs (cl_subs c) \<union> snd ` set (t # ts) \<subseteq> held_subs (cl_subs c') \<union> dropped_subs (e1 @ e2)"
    using step(5) e2(4) by (auto simp: t)
  ultimately show ?case using step(3) e2(2) by (intro exI [of _ "e1 @ e2"]) simp
qed

lemma restore_all_sound:
  assumes ok: "client_ok c" and ord: "order_ok ord" and res: "restore_all X ord c w = (r, c', w')"
  shows "sound_step c w c' w'" and "with_registry c c'" and "registered (cl_subs c') = registered (cl_subs c)"
proof -
  have rok: "reg_ok (cl_subs c)" using ok by (simp add: client_ok_def)
  let ?recs = "restore_records ord (cl_subs c)"
  have cur: "stale_free (cl_subs c) ?recs"
    using list_activations_current [OF rok ord] by (simp add: restore_records_def)
  have "\<exists>evs c1 I. adds w w' evs \<and> accounts (cl_subs c) evs (cl_subs c1) \<and> touches I c c1 \<and>
      (c' = c \<and> c1 = c \<or> c' = sync_subscription_health c1)"
  proof (cases "?recs = []")
    case True
    with res show ?thesis
      by (intro exI [of _ "[]"] exI [of _ c]) (auto simp: restore_all_def accounts_quiet)
  next
    case False
    obtain created joined c1 w1 where cr: "restore_create X ?recs [] None c w = (created, joined, c1, w1)"
      by (metis prod_cases4)
    from restore_create_adds [OF cr cur] obtain e1 where
      e1: "adds w w1 e1" "fst ` set created \<subseteq> set ?recs" "touches (ar_id ` set ?recs) c c1"
        "held_subs (cl_subs c) \<union> made_subs e1 \<subseteq> held_subs (cl_subs c1) \<union> dropped_subs e1 \<union> snd ` set created"
        "\<forall>j. held_by (cl_subs c1) j = None \<or> held_by (cl_subs c1) j = held_by (cl_subs c) j"
        "\<forall>rec \<in> fst ` set created. set_option (ar_active_sub rec) \<subseteq> dropped_subs e1"
      by auto
    have stale: "s \<in> dropped_subs e1" if "rec \<in> fst ` set created" "held_by (cl_subs c1) (ar_id rec) = Some s" for rec s
    proof -
      have "current (cl_subs c) rec" using cur that(1) e1(2) by (auto simp: stale_free_def)
      moreover have "held_by (cl_subs c) (ar_id rec) = Some s"
        using e1(5) that(2) by (metis option.distinct(1))
      ultimately have "ar_active_sub rec = Some s" by (simp add: current_def)
      with e1(6) that(1) show ?thesis by fastforce
    qed
    have abandon: "\<exists>evs I. adds w w2 evs \<and> accounts (cl_subs c) evs (cl_subs c2) \<and> touches I c c2"
      if a: "restore_abandon X err created c1 wx = (c2, w2)" and t: "adds w1 wx e"
        and q: "made_subs e = {}" "dropped_subs e = {}" for err wx c2 w2 e
    proof -
      from restore_abandon_adds [OF a] obtain e2 where e2: "adds wx w2 e2" "made_subs e2 = {}"
        "dropped_subs e2 = snd ` set created" "touches (ar_id ` fst ` set created) c1 c2"
        "held_subs (cl_subs c1) \<subseteq> held_subs (cl_subs c2) \<union>
           {s. \<exists>rec \<in> fst ` set created. held_by (cl_subs c1) (ar_id rec) = Some s}" by blast
      have "held_subs (cl_subs c1) \<subseteq> held_subs (cl_subs c2) \<union> dropped_subs e1"
        using e2(5) stale by blast
      then have "accounts (cl_subs c) (e1 @ e @ e2) (cl_subs c2)"
        unfolding accounts_def using e1(4) e2(2,3) q by auto
      moreover have "adds w w2 (e1 @ e @ e2)" by (rule adds_trans [OF e1(1) adds_trans [OF t e2(1)]])
      ultimately show ?thesis using touches_trans [OF e1(3) e2(4)] by blast
    qed
    show ?thesis
    proof (cases "created = []")
      case True
      with res False cr have c': "c' = sync_subscription_health c1" "w' = w1" by (auto simp: restore_all_def)
      have "accounts (cl_subs c) e1 (cl_subs c1)" using e1(4) True by (simp add: accounts_def)
      with c' e1(1,3) show ?thesis by blast
    next
      case some: False
      obtain n w2 where n: "connection X (cl_session c1) w1 = (n, w2)" by fastforce
      have t2: "adds w1 w2 []" using manager_connection.connection_trace [OF n] by (simp add: adds_def)
      show ?thesis
      proof (cases n)
        case (Inl err)
        obtain c2 w3 where a: "restore_abandon X err created c1 w2 = (c2, w3)" by fastforce
        with res False cr some n Inl have "c' = sync_subscription_health c2" "w' = w3"
          by (auto simp: restore_all_def)
        with abandon [OF a t2] show ?thesis by auto
      next
        case (Inr nc)
        let ?d = "subscribe_timeout (cl_session c1)"
        obtain f w3 where f: "perform (EvFlushTimeout nc ?d) (x_flush_timeout X nc ?d) w2 = (f, w3)" by fastforce
        have t3: "adds w1 w3 [EvFlushTimeout nc ?d f]" using t2 perform_trace [OF f] by (simp add: adds_def)
        show ?thesis
        proof (cases f)
          case (Some err)
          obtain c2 w4 where a: "restore_abandon X (restore_flush_failed err) created c1 w3 = (c2, w4)" by fastforce
          with res False cr some n Inr f Some have "c' = sync_subscription_health c2" "w' = w4"
            by (auto simp: restore_all_def Let_def)
          with abandon [OF a t3] show ?thesis by auto
        next
          case None
          obtain c2 w4 where a: "restore_enter X created c1 w3 = (c2, w4)" by fastforce
          with res False cr some n Inr f None have c': "c' = sync_subscription_health c2" "w' = w4"
            by (auto simp: restore_all_def Let_def)
          from restore_enter_adds [OF a] obtain e2 where e2: "adds w3 w4 e2" "made_subs e2 = {}"
            "touches (ar_id ` fst ` set created) c1 c2"
            "held_subs (cl_subs c1) \<union> snd ` set created \<subseteq> held_subs (cl_subs c2) \<union> dropped_subs e2" by blast
          have "adds w w4 (e1 @ [EvFlushTimeout nc ?d f] @ e2)"
            by (rule adds_trans [OF e1(1) adds_trans [OF t3 e2(1)]])
          moreover have "accounts (cl_subs c) (e1 @ [EvFlushTimeout nc ?d f] @ e2) (cl_subs c2)"
            unfolding accounts_def using e1(4) e2(2,4) by simp blast
          ultimately show ?thesis using c' touches_trans [OF e1(3) e2(3)] by blast
        qed
      qed
    qed
  qed
  then obtain evs c1 I where *: "adds w w' evs" "accounts (cl_subs c) evs (cl_subs c1)" "touches I c c1"
    "c' = c \<and> c1 = c \<or> c' = sync_subscription_health c1" by blast
  from *(4) show reg: "with_registry c c'"
  proof
    assume "c' = c \<and> c1 = c"
    with with_registry_refl [OF ok] show ?thesis by simp
  next
    assume "c' = sync_subscription_health c1"
    with with_registry_touches [OF *(3)] show ?thesis by simp
  qed
  have same: "cl_subs c' = cl_subs c1" using *(4) by auto
  have "reg_ok (cl_subs c')" and "registered (cl_subs c') = registered (cl_subs c)"
    using *(3) rok by (simp_all add: same touches_def)
  with with_registry_ok [OF ok reg] *(1,2) show "sound_step c w c' w'"
    and "registered (cl_subs c') = registered (cl_subs c)" by (auto simp: sound_step_def same)
qed

lemma register_spec_sound:
  assumes ok: "client_ok c" and left: "ids_left (cl_subs c)"
    and reg: "register_spec X op spec msg c w = (r, c', w')"
  shows "sound_step c w c' w'" and "with_registry c c'"
proof -
  have rok: "reg_ok (cl_subs c)" using ok by (simp add: client_ok_def)
  have held: "held_by r2 = held_by (cl_subs c)" if "rg_entries r2 = rg_entries (cl_subs c)" for r2
    using that by (simp add: held_by_def fun_eq_iff)
  have added: "held_by r2 = held_by (cl_subs c) \<and> reg_ok r2" if a: "registry_add spec (cl_subs c) = (Inr sn, r2)" for sn r2
  proof -
    from a have "held_by r2 = held_by (cl_subs c)"
    proof (cases rule: registry_add_cases)
      case (added e)
      have "gomap_get (rg_entries (cl_subs c)) (en_id e) = None"
        using fresh_id [OF rok left] added(5) by simp
      then have "held_by r2 i = held_by (cl_subs c) i" for i
        using added(4,11) by (cases "i = en_id e") (simp_all add: held_by_def)
      then show ?thesis by (rule ext)
    qed simp_all
    with registry_add_ok [OF rok left a] show ?thesis by simp
  qed
  have "with_registry c c' \<and> reg_ok (cl_subs c') \<and> (\<exists>evs. adds w w' evs \<and> accounts (cl_subs c) evs (cl_subs c'))"
    using ok left reg
  proof (cases rule: register_spec_cases)
    case (refused err)
    have "accounts (cl_subs c) [] (cl_subs c')" by (rule accounts_held [OF _ held]) (simp_all add: refused)
    with refused show ?thesis by (intro conjI exI [of _ "[]"]) simp_all
  next
    case (kept sn evs)
    note a = added [OF kept(1)]
    have "accounts (cl_subs c) evs (cl_subs c')" by (rule accounts_held) (simp_all add: kept a)
    with kept a show ?thesis by blast
  next
    case (active sn reg1 sub nc q evs)
    note a = added [OF active(1)]
    have "insert sub (held_subs reg1) \<subseteq> held_subs (cl_subs c')"
      using held_subs_active [OF active(3,8)] by simp
    moreover have "held_subs reg1 = held_subs (cl_subs c)" using a by (simp add: held_subs_def)
    ultimately have "accounts (cl_subs c) evs (cl_subs c')"
      using active(6) by (simp add: accounts_def) blast
    then show ?thesis using active mark_active_ok [OF _ active(3)] a by blast
  next
    case (rolled_back err evs)
    have "accounts (cl_subs c) evs (cl_subs c')" by (rule accounts_held [OF rolled_back(5) held]) (rule rolled_back)
    with rolled_back show ?thesis by blast
  qed
  then show "sound_step c w c' w'" and "with_registry c c'"
    using with_registry_ok [OF ok] by (auto simp: sound_step_def)
qed

end
