(* ===== verification/Subscription_Outcomes.thy ===== *)
theory Subscription_Outcomes
  imports Subscription_Accounts
begin

text \<open>
  What the operations on subscriptions achieve when they succeed, and what they leave when they
  fail: registering, activating, deactivating and restoring handlers.
\<close>

section \<open>The four registrations\<close>

datatype handler_request =
    ForConfigure string | ForAction string string | ForResult string | ForStatus string

fun request_kind :: "handler_request \<Rightarrow> kind" where
  "request_kind (ForConfigure target) = kind_configure"
| "request_kind (ForAction target action) = kind_action"
| "request_kind (ForResult target) = kind_result"
| "request_kind (ForStatus target) = kind_status"

fun request_subject :: "builder \<Rightarrow> handler_request \<Rightarrow> gerr + string" where
  "request_subject b (ForConfigure target) = configure_subject b target"
| "request_subject b (ForAction target action) = action_subject b target action"
| "request_subject b (ForResult target) = result_subject b target"
| "request_subject b (ForStatus target) = status_subject b target"

fun register_request ::
  "'e ext \<Rightarrow> handler_request \<Rightarrow> nat option \<Rightarrow> subscription_option option list \<Rightarrow> client \<Rightarrow> 'e world \<Rightarrow>
   gerr option \<times> client \<times> 'e world" where
  "register_request X (ForConfigure target) = register_configure_handler X target"
| "register_request X (ForAction target action) = register_action_handler X target action"
| "register_request X (ForResult target) = register_result_handler X target"
| "register_request X (ForStatus target) = register_status_handler X target"

lemma resolve_public: "resolve_subscription_options opts = Inl err \<Longrightarrow> public_err err"
  by (auto simp: resolve_subscription_options_def Let_def split: if_splits)

lemma register_request_eq:
  obtains op missing msg target action where "register_request X req h opts c w =
    (if h = None then (Some (validation_error op missing), c, w)
     else (case request_subject (cl_subjects c) req of
       Inl err \<Rightarrow> (Some (public_error err), c, w)
     | Inr subject \<Rightarrow>
    (case resolve_subscription_options opts of
       Inl err \<Rightarrow> (Some err, c, w)
     | Inr so \<Rightarrow> register_spec X op \<lparr>as_kind = request_kind req, as_target = target, as_action = action,
         as_subject = subject, as_queue_group = so_queue_group so, as_callback = h\<rparr> msg c w)))"
  by (cases req) (simp_all only: register_request.simps request_subject.simps request_kind.simps
      register_configure_handler_def register_action_handler_def register_result_handler_def
      register_status_handler_def Let_def)

lemma register_request_cases:
  assumes "register_request X req h opts c w = (r, c', w')"
  obtains (refused) err where "r = Some err" "public_err err" "c' = c" "w' = w"
  | (spec) op spec msg hnd so where "register_spec X op spec msg c w = (r, c', w')" "h = Some hnd"
      "request_subject (cl_subjects c) req = Inr (as_subject spec)" "as_kind spec = request_kind req"
      "as_callback spec = Some hnd" "resolve_subscription_options opts = Inr so"
      "as_queue_group spec = so_queue_group so"
proof -
  obtain op missing msg target action where eq: "register_request X req h opts c w =
    (if h = None then (Some (validation_error op missing), c, w)
     else (case request_subject (cl_subjects c) req of
       Inl err \<Rightarrow> (Some (public_error err), c, w)
     | Inr subject \<Rightarrow>
    (case resolve_subscription_options opts of
       Inl err \<Rightarrow> (Some err, c, w)
     | Inr so \<Rightarrow> register_spec X op \<lparr>as_kind = request_kind req, as_target = target, as_action = action,
         as_subject = subject, as_queue_group = so_queue_group so, as_callback = h\<rparr> msg c w)))"
    by (rule register_request_eq)
  show thesis
  proof (cases h)
    case None
    with assms eq show thesis by (intro refused [of "validation_error op missing"]) simp_all
  next
    case hnd: (Some hnd)
    show thesis
    proof (cases "request_subject (cl_subjects c) req")
      case (Inl err)
      with assms eq hnd show thesis by (intro refused [of "public_error err"]) simp_all
    next
      case subject: (Inr subject)
      show thesis
      proof (cases "resolve_subscription_options opts")
        case (Inl err)
        with assms eq hnd subject show thesis by (intro refused [of err]) (simp_all add: resolve_public)
      next
        case so: (Inr so)
        let ?spec = "\<lparr>as_kind = request_kind req, as_target = target, as_action = action,
            as_subject = subject, as_queue_group = so_queue_group so, as_callback = Some hnd\<rparr>"
        have "register_spec X op ?spec msg c w = (r, c', w')" using assms eq hnd subject so by simp
        then show thesis by (rule spec [of op ?spec msg hnd so]) (use hnd subject so in simp_all)
      qed
    qed
  qed
qed

section \<open>Records under the operations of the registry\<close>

lemma record_active:
  assumes "mark_active i (Some s) r = (stale, r')"
  shows "get_activation_record r' j = (if j = i
    then map_option (\<lambda>rec. rec\<lparr>ar_active_sub := Some s, ar_active := True\<rparr>) (get_activation_record r i)
    else get_activation_record r j)"
  using assms
  by (auto simp: mark_active_def get_activation_record_def activation_from_entry_def
      simp del: map_of_eq_Some_iff split: option.splits)

lemma record_added:
  assumes "reg_ok r" and "ids_left r" and "registry_add spec r = (Inr sn, r1)"
  shows "get_activation_record r (sn_id sn) = None"
    and "get_activation_record r1 j = (if j = sn_id sn then Some \<lparr>ar_id = sn_id sn, ar_kind = as_kind spec,
      ar_subject = as_subject spec, ar_queue_group = as_queue_group spec, ar_callback = the (as_callback spec),
      ar_active_sub = None, ar_active = False\<rparr> else get_activation_record r j)"
proof -
  have "get_activation_record r (sn_id sn) = None \<and>
    get_activation_record r1 j = (if j = sn_id sn then Some \<lparr>ar_id = sn_id sn, ar_kind = as_kind spec,
      ar_subject = as_subject spec, ar_queue_group = as_queue_group spec, ar_callback = the (as_callback spec),
      ar_active_sub = None, ar_active = False\<rparr> else get_activation_record r j)"
    using assms(3)
  proof (cases rule: registry_add_cases)
    case (added e)
    have "gomap_get (rg_entries r) (sn_id sn) = None"
      using fresh_id [OF assms(1,2)] added(3,5) by (simp add: snapshot_from_entry_def)
    with added show ?thesis
      by (simp add: get_activation_record_def activation_from_entry_def snapshot_from_entry_def del: map_of_eq_Some_iff)
  qed simp_all
  then show "get_activation_record r (sn_id sn) = None"
    and "get_activation_record r1 j = (if j = sn_id sn then Some \<lparr>ar_id = sn_id sn, ar_kind = as_kind spec,
      ar_subject = as_subject spec, ar_queue_group = as_queue_group spec, ar_callback = the (as_callback spec),
      ar_active_sub = None, ar_active = False\<rparr> else get_activation_record r j)" by simp_all
qed

lemma record_entries: "rg_entries r' = rg_entries r \<Longrightarrow> get_activation_record r' = get_activation_record r"
  by (simp add: get_activation_record_def fun_eq_iff)

section \<open>A registration\<close>

text \<open>
  The registration a request leaves: the entry \<open>i\<close>, new, for the subject and the handler of the
  request, every other entry as it was; waiting for the start when there is no session yet, else
  active with the subscription just made.
\<close>

definition entered ::
  "client \<Rightarrow> handler_request \<Rightarrow> nat \<Rightarrow> subscription_options \<Rightarrow> event list \<Rightarrow> client \<Rightarrow> bool" where
  "entered c req hnd so evs c' \<longleftrightarrow> (\<exists>i rec subject.
     request_subject (cl_subjects c) req = Inr subject \<and> get_activation_record (cl_subs c) i = None \<and>
     get_activation_record (cl_subs c') i = Some rec \<and> ar_kind rec = request_kind req \<and> ar_subject rec = subject \<and>
     ar_queue_group rec = so_queue_group so \<and> ar_callback rec = hnd \<and>
     (\<forall>j. j \<noteq> i \<longrightarrow> get_activation_record (cl_subs c') j = get_activation_record (cl_subs c) j) \<and>
     (if hs_state (client_health c) \<in> {StateNew, StateConnecting}
      then \<not> ar_active rec \<and> made_subs evs = {}
      else \<exists>nc sub. ar_active rec \<and> ar_active_sub rec = Some sub \<and> m_nc (cl_session c) = Some nc \<and>
        made_subs evs = {sub} \<and> EvSubscribe nc subject
          (if \<not> blank (so_queue_group so) then so_queue_group so else []) hnd (Inr sub) \<in> set evs))"

lemma register_spec_entered:
  assumes ok: "client_ok c" and left: "ids_left (cl_subs c)"
    and reg: "register_spec X op spec msg c w = (None, c', w')"
    and spec: "request_subject (cl_subjects c) req = Inr (as_subject spec)" "as_kind spec = request_kind req"
      "as_callback spec = Some hnd" "as_queue_group spec = so_queue_group so"
  obtains evs where "adds w w' evs" "entered c req hnd so evs c'"
  using ok left reg
proof (cases rule: register_spec_cases)
  case (kept sn evs)
  have rok: "reg_ok (cl_subs c)" using ok by (simp add: client_ok_def)
  note r = record_added [OF rok left kept(1)]
  have "entered c req hnd so evs c'"
    unfolding entered_def using r(1) kept(3,6) spec by (intro exI [of _ "sn_id sn"]) (simp add: r(2))
  with kept(5) show thesis by (rule that)
next
  case (active sn reg1 sub nc q evs)
  have rok: "reg_ok (cl_subs c)" using ok by (simp add: client_ok_def)
  note r = record_added [OF rok left active(1)]
  have "entered c req hnd so evs c'"
    unfolding entered_def using r(1) spec active
    by (intro exI [of _ "sn_id sn"]) (auto simp: r(2) record_active [OF active(3)] split: if_splits)
  with active(5) show thesis by (rule that)
qed simp_all

text \<open>C15: registering a handler, of any of the four kinds, in any reachable state of the client:
  on success there is one new registration, for the subject of the request's target (and action)
  and the given handler, and every other registration is as before; it is active, holding the
  subscription just made on the session's connection, unless the session has not been started yet.
  On an error nothing remains: the registrations are those of before, every subscription made
  meanwhile was dropped, and the error is a public error. Either way the client's invariant holds.\<close>

theorem registration_outcome:
  assumes "client_ok c" and "ids_left (cl_subs c)" and "register_request X req h opts c w = (r, c', w')"
  shows "client_ok c' \<and> (\<exists>evs. adds w w' evs \<and>
    (case r of
       None \<Rightarrow> (\<exists>hnd so. h = Some hnd \<and> resolve_subscription_options opts = Inr so \<and> entered c req hnd so evs c')
     | Some err \<Rightarrow> public_err err \<and> get_activation_record (cl_subs c') = get_activation_record (cl_subs c) \<and>
         rg_by_key (cl_subs c') = rg_by_key (cl_subs c) \<and> made_subs evs \<subseteq> dropped_subs evs))"
  using assms(3)
proof (cases rule: register_request_cases)
  case (refused err)
  with assms(1) show ?thesis by (intro conjI exI [of _ "[]"]) simp_all
next
  case (spec op spec msg hnd so)
  from register_spec_sound [OF assms(1,2) spec(1)] have ok: "client_ok c'" by (auto simp: sound_step_def)
  show ?thesis
  proof (cases r)
    case None
    from spec(1) [unfolded None] obtain evs where "adds w w' evs" "entered c req hnd so evs c'"
      by (rule register_spec_entered [OF assms(1,2) _ spec(3,4,5,7)])
    with None ok spec(2,6) show ?thesis by auto
  next
    case (Some err)
    from assms(1,2) spec(1) show ?thesis
    proof (cases rule: register_spec_cases)
      case (refused err)
      with ok show ?thesis
        by (intro conjI exI [of _ "[]"]) (simp_all add: record_entries [OF refused(5)])
    next
      case (rolled_back err evs)
      with ok show ?thesis
        by (intro conjI exI [of _ evs]) (simp_all add: record_entries [OF rolled_back(7)])
    qed (use Some in simp_all)
  qed
qed

text \<open>A client with a live session and one registration, not yet active.\<close>

lemma sample_client_ok: "client_ok sample_client"
  using sample_live_ok new_registry_ok
  by (simp add: client_ok_def sample_client_def counts_ok_def registry_counts_def
      client_health_def builder_ok_def default_builder_def default_patterns_valid)
    (simp add: sample_live_def sample_manager_def mgr_ok_def new_health_def new_registry_def)

definition sample_registered_client :: client where
  "sample_registered_client = sync_subscription_health (with_subs sample_registry sample_client)"

lemma sample_registered_client_ok: "client_ok sample_registered_client"
  by (rule with_registry_ok [OF sample_client_ok])
    (simp_all add: sample_registered_client_def with_registry_def reachable_ok [OF sample_reachable])

theorem registration_outcome_witness:
  "\<exists>r c' w'. register_request sim_ext (ForAction ''dev'' ''reboot'') (Some 3) [Some (WithQueueGroup ''workers'')]
      sample_client (sim_world [''subscribe'']) = (r, c', w') \<and> client_ok c'"
proof -
  obtain r c' w' where s: "register_request sim_ext (ForAction ''dev'' ''reboot'') (Some 3)
      [Some (WithQueueGroup ''workers'')] sample_client (sim_world [''subscribe'']) = (r, c', w')"
    by (metis prod_cases3)
  have "ids_left (cl_subs sample_client)" by (simp add: sample_client_def new_ids_left)
  from registration_outcome [OF sample_client_ok this s] s show ?thesis by blast
qed

end
