(* ===== verification/Subscription_Restore.thy ===== *)
theory Subscription_Restore
  imports Subscription_Outcomes
begin

text \<open>
  Activating, deactivating and restoring all registrations at once: after a success every
  registration holds a subscription on the session's connection.
\<close>

section \<open>Activation of everything\<close>

text \<open>The registrations of a client whose handler receives messages.\<close>

definition all_active :: "registry \<Rightarrow> bool" where
  "all_active r \<longleftrightarrow> (\<forall>i. registered r i \<longrightarrow> held_by r i \<noteq> None)"

lemma activate_record_held:
  assumes "activate_record X rec force op do_flush c w = (None, c', w')"
    and "current (cl_subs c) rec" and "registered (cl_subs c) (ar_id rec)"
  shows "held_by (cl_subs c') (ar_id rec) \<noteq> None"
  using assms(1)
proof (cases rule: activate_record_cases)
  case already
  then show ?thesis using assms(2) by (simp add: current_def)
next
  case (active sub nc q stale reg evs)
  then show ?thesis using subs.activate_held [OF active(3,2)] by simp
qed (use assms(3) in simp_all)

lemma activate_records_held:
  assumes "activate_records X op recs joined c w = (None, c', w')" and "stale_free (cl_subs c) recs"
    and "\<forall>rec \<in> set recs. registered (cl_subs c) (ar_id rec)"
  shows "joined = None \<and> (\<forall>rec \<in> set recs. held_by (cl_subs c') (ar_id rec) \<noteq> None)"
  using assms
proof (induction recs arbitrary: joined c w)
  case (Cons rec recs)
  have cur: "current (cl_subs c) rec" and known: "registered (cl_subs c) (ar_id rec)"
    using Cons.prems(2,3) by (simp_all add: stale_free_def)
  obtain r c1 w1 where a: "activate_record X rec False op True c w = (r, c1, w1)" by (metis prod_cases3)
  from activate_record_adds [OF a cur] have t: "touches {ar_id rec} c c1" by blast
  have rest: "activate_records X op recs (case r of None \<Rightarrow> joined | Some err \<Rightarrow> errors_join [joined, Some err]) c1 w1 =
      (None, c', w')" using Cons.prems(1) a by simp
  have sf: "stale_free (cl_subs c1) recs" by (rule stale_free_touched [OF Cons.prems(2) t])
  have reg: "registered (cl_subs c1) = registered (cl_subs c)" using t by (simp add: touches_def)
  have "\<forall>rec \<in> set recs. registered (cl_subs c1) (ar_id rec)" using Cons.prems(3) by (simp add: reg)
  from Cons.IH [OF rest sf this] have ih: "(case r of None \<Rightarrow> joined | Some err \<Rightarrow> errors_join [joined, Some err]) = None"
    "\<forall>rec \<in> set recs. held_by (cl_subs c') (ar_id rec) \<noteq> None" by blast+
  then have r: "r = None" "joined = None" by (simp_all split: option.splits)
  have "held_by (cl_subs c1) (ar_id rec) \<noteq> None" by (rule activate_record_held [OF a [unfolded r(1)] cur known])
  moreover from activate_records_adds [OF rest sf] have "touches (ar_id ` set recs) c1 c'" by blast
  moreover have "ar_id rec \<notin> ar_id ` set recs" using Cons.prems(2) by (simp add: stale_free_def)
  ultimately show ?case using ih(2) r(2) by (simp add: touches_def)
qed simp

lemma list_activations_ids:
  assumes "reg_ok r" and "order_ok ord"
  shows "registered r i \<longleftrightarrow> i \<in> ar_id ` set (list_activations ord r)"
proof -
  have "ar_id ` set (list_activations ord r) = set (map en_id (range_entries ord r))"
    by (simp add: list_activations_def activation_from_entry_def image_image)
  also have "\<dots> = fst ` set (rg_entries r)" by (simp add: range_entries_ids [OF assms] order_set [OF assms(2)])
  finally show ?thesis by (metis map_of_eq_None_iff registered_def)
qed

lemma listed_record:
  assumes "reg_ok r" and "order_ok ord" and "get_activation_record r i = Some rec"
  shows "rec \<in> set (list_activations ord r)" and "ar_id rec = i"
proof -
  have wf: "gomap_wf (rg_entries r)" using assms(1) by (simp add: reg_ok_def)
  obtain e where e: "gomap_get (rg_entries r) i = Some e" "rec = activation_from_entry e"
    using assms(3) by (auto simp: get_activation_record_def simp del: map_of_eq_Some_iff)
  then have "e \<in> set (range_entries ord r)" using range_entries_iff [OF assms(2) wf] by blast
  then show "rec \<in> set (list_activations ord r)" by (simp add: list_activations_def e(2))
  show "ar_id rec = i" using reg_okD(3) [OF assms(1) e(1)] by (simp add: e(2) activation_from_entry_def)
qed

lemma activate_all_complete:
  assumes "client_ok c" and "order_ok ord" and "activate_all X ord op c w = (None, c', w')"
  shows "all_active (cl_subs c')"
proof -
  have ok: "reg_ok (cl_subs c)" using assms(1) by (simp add: client_ok_def)
  obtain c1 where a: "activate_records X op (list_activations ord (cl_subs c)) None c w = (None, c1, w')"
    and c': "c' = sync_subscription_health c1"
    using assms(3) by (auto simp: activate_all_def split: prod.splits)
  note cur = list_activations_current [OF ok assms(2)]
  have "\<forall>rec \<in> set (list_activations ord (cl_subs c)). registered (cl_subs c) (ar_id rec)"
    using list_activations_ids [OF ok assms(2)] by blast
  from activate_records_held [OF a cur this]
  have held: "\<forall>i \<in> ar_id ` set (list_activations ord (cl_subs c)). held_by (cl_subs c1) i \<noteq> None" by blast
  moreover from activate_records_adds [OF a cur] have "registered (cl_subs c1) = registered (cl_subs c)"
    by (auto simp: touches_def)
  ultimately show ?thesis by (auto simp: all_active_def c' list_activations_ids [OF ok assms(2)])
qed

section \<open>Restoring everything\<close>

text \<open>The subscription of a registration, as the trace shows it made on the connection \<open>nc\<close>.\<close>

definition subscribed :: "conn option \<Rightarrow> activation_record \<Rightarrow> subscription \<Rightarrow> event list \<Rightarrow> bool" where
  "subscribed mnc rec sub evs \<longleftrightarrow> (\<exists>nc. mnc = Some nc \<and> EvSubscribe nc (ar_subject rec)
     (if \<not> blank (ar_queue_group rec) then ar_queue_group rec else []) (ar_callback rec) (Inr sub) \<in> set evs)"

lemma subscribed_append: "subscribed mnc rec sub xs \<or> subscribed mnc rec sub ys \<Longrightarrow> subscribed mnc rec sub (xs @ ys)"
  by (auto simp: subscribed_def)

lemma restore_create_complete:
  assumes "restore_create X recs created joined c w = (created', None, c', w')"
  shows "joined = None \<and> (\<exists>new evs. created' = created @ new \<and> map fst new = recs \<and> adds w w' evs \<and>
    (\<forall>(rec, sub) \<in> set new. subscribed (m_nc (cl_session c)) rec sub evs))"
  using assms
proof (induction recs arbitrary: created joined c w)
  case Nil
  then show ?case by (intro conjI exI [of _ "[]"]) simp_all
next
  case (Cons rec recs)
  define w1 where "w1 = (if ar_active rec then cleanup_subscription X c (ar_active_sub rec)
      ''failed to unsubscribe stale subscription before restore'' w else w)"
  obtain e1 where e1: "adds w w1 e1"
  proof (cases "ar_active rec")
    case True
    show thesis
      by (rule cleanup_adds [of w X c "ar_active_sub rec" "''failed to unsubscribe stale subscription before restore''"])
        (use that True in \<open>simp add: w1_def\<close>)
  next
    case False
    then show thesis by (intro that [of "[]"]) (simp add: w1_def)
  qed
  obtain x w2 where x: "create_subscription X c rec ''restore_subscriptions'' False w1 = (x, w2)" by fastforce
  from x show ?case
  proof (cases rule: create_subscription_cases)
    case (failed err evs)
    let ?c1 = "with_subs (mark_inactive (ar_id rec) (Some err) (cl_subs c)) c"
    let ?w3 = "count_subscribe ?c1 (ar_kind rec) (ar_subject rec) ''failure''
        (log_client ?c1 LogError ''subscription restore failed to create NATS subscription'' w2)"
    have "restore_create X recs created (errors_join [joined, Some err]) ?c1 ?w3 = (created', None, c', w')"
      using Cons.prems x failed(1) by (simp add: w1_def Let_def)
    from Cons.IH [OF this] show ?thesis by simp
  next
    case (made sub nc q evs)
    have rest: "restore_create X recs (created @ [(rec, sub)]) joined c w2 = (created', None, c', w')"
      using Cons.prems x made(1) by (simp add: w1_def Let_def)
    from Cons.IH [OF rest] obtain new e2 where new: "joined = None" "created' = (created @ [(rec, sub)]) @ new"
      "map fst new = recs" "adds w2 w' e2" "\<forall>(rec, sub) \<in> set new. subscribed (m_nc (cl_session c)) rec sub e2"
      by (elim conjE exE) (rule that)
    have "adds w w' (e1 @ evs @ e2)" by (rule adds_trans [OF e1 adds_trans [OF made(2) new(4)]])
    moreover have "\<forall>(x, s) \<in> set ((rec, sub) # new). subscribed (m_nc (cl_session c)) x s (e1 @ evs @ e2)"
      using new(5) made(5,6,8) by (auto intro!: subscribed_append simp: subscribed_def split: if_splits)
    ultimately show ?thesis using new(1-3)
      by (intro conjI exI [of _ "(rec, sub) # new"] exI [of _ "e1 @ evs @ e2"]) simp_all
  qed
qed

lemma restore_create_client:
  assumes "restore_create X recs created joined c w = (created', None, c', w')"
  shows "c' = c"
  using assms
proof (induction recs arbitrary: created joined c w)
  case (Cons rec recs)
  show ?case
  proof (rule ccontr)
    assume "c' \<noteq> c"
    with Cons show False
      by (auto simp: Let_def split: prod.splits sum.splits dest: restore_create_complete)
  qed
qed simp

lemma restore_enter_held:
  assumes "restore_enter X ts c w = (c', w')" and "distinct (map (\<lambda>t. ar_id (fst t)) ts)"
    and "\<forall>t \<in> set ts. registered (cl_subs c) (ar_id (fst t))"
  shows "\<forall>(rec, sub) \<in> set ts. held_by (cl_subs c') (ar_id rec) = Some sub"
  using assms
proof (induction ts arbitrary: c w)
  case (Cons t ts)
  obtain rec sub where t: "t = (rec, sub)" by fastforce
  have known: "registered (cl_subs c) (ar_id rec)" using Cons.prems(3) by (simp add: t)
  then obtain a where a: "get_activation_record (cl_subs c) (ar_id rec) = Some a"
    using activation_record_iff [of "cl_subs c" "ar_id rec"] by auto
  obtain stale reg where m: "mark_active (ar_id rec) (Some sub) (cl_subs c) = (stale, reg)" by fastforce
  obtain w2 where rest: "restore_enter X ts (with_subs reg c) w2 = (c', w')"
    using Cons.prems(1) a m by (simp add: t Let_def)
  note held = subs.activate_held [OF m known]
  from Cons.prems(2,3) held have "distinct (map (\<lambda>t. ar_id (fst t)) ts)"
    "\<forall>t \<in> set ts. registered (cl_subs (with_subs reg c)) (ar_id (fst t))" by simp_all
  from Cons.IH [OF rest this] have "\<forall>(rec, sub) \<in> set ts. held_by (cl_subs c') (ar_id rec) = Some sub" .
  moreover from restore_enter_adds [OF rest] have "touches (ar_id ` fst ` set ts) (with_subs reg c) c'" by blast
  moreover have "ar_id rec \<notin> ar_id ` fst ` set ts" using Cons.prems(2) by (simp add: t image_image image_comp)
  ultimately show ?case using held by (simp add: t touches_def)
qed simp

lemma restore_all_complete:
  assumes ok: "client_ok c" and ord: "order_ok ord" and res: "restore_all X ord c w = (None, c', w')"
    and rec: "get_activation_record (cl_subs c) i = Some rec" and evs: "adds w w' evs"
  shows "\<exists>sub. held_by (cl_subs c') i = Some sub \<and> subscribed (m_nc (cl_session c)) rec sub evs"
proof -
  have rok: "reg_ok (cl_subs c)" using ok by (simp add: client_ok_def)
  let ?recs = "restore_records ord (cl_subs c)"
  have cur: "stale_free (cl_subs c) ?recs"
    using list_activations_current [OF rok ord] by (simp add: restore_records_def)
  have listed: "rec \<in> set ?recs" "ar_id rec = i"
    using listed_record [OF rok ord rec] by (simp_all add: restore_records_def)
  then have some: "?recs \<noteq> []" by auto
  obtain created joined c1 w1 where cr: "restore_create X ?recs [] None c w = (created, joined, c1, w1)"
    by (metis prod_cases4)
  have joined: "joined = None"
    using res some cr by (auto simp: restore_all_def Let_def split: if_splits prod.splits sum.splits option.splits)
  note cr = cr [unfolded joined]
  note c1 = restore_create_client [OF cr]
  from restore_create_complete [OF cr] obtain e1 where created: "map fst created = ?recs" "adds w w1 e1"
    "\<forall>(rec, sub) \<in> set created. subscribed (m_nc (cl_session c)) rec sub e1" by auto
  then have "created \<noteq> []" using some by auto
  then obtain nc w3 c2 where "connection X (cl_session c) w1 = (Inr nc, snd (connection X (cl_session c) w1))"
    and f: "perform (EvFlushTimeout nc (subscribe_timeout (cl_session c)))
        (x_flush_timeout X nc (subscribe_timeout (cl_session c))) (snd (connection X (cl_session c) w1)) = (None, w3)"
    and en: "restore_enter X created c w3 = (c2, w')" and c': "c' = sync_subscription_health c2"
    using res some cr c1
    by (auto simp: restore_all_def Let_def split: if_splits prod.splits sum.splits option.splits)
  have t: "adds w1 w3 [EvFlushTimeout nc (subscribe_timeout (cl_session c)) None]"
    using perform_trace [OF f] manager_connection.connection_trace [of X "cl_session c" w1]
    by (simp add: adds_def connection_quiet)
  from restore_enter_adds [OF en] obtain e2 where e2: "adds w3 w' e2" by blast
  have "evs = e1 @ [EvFlushTimeout nc (subscribe_timeout (cl_session c)) None] @ e2"
    by (rule adds_unique [OF evs adds_trans [OF created(2) adds_trans [OF t e2]]])
  moreover obtain sub where sub: "(rec, sub) \<in> set created" using created(1) listed(1) by (metis (no_types) imageE list.set_map prod.collapse)
  moreover have "distinct (map (\<lambda>t. ar_id (fst t)) created)"
    using cur created(1) by (simp add: stale_free_def flip: map_map [of ar_id fst, unfolded comp_def])
  moreover have "\<forall>t \<in> set created. registered (cl_subs c) (ar_id (fst t))"
  proof
    fix t
    assume "t \<in> set created"
    then have "fst t \<in> set ?recs" unfolding created(1) [symmetric] by simp
    then show "registered (cl_subs c) (ar_id (fst t))"
      using list_activations_ids [OF rok ord] by (simp add: restore_records_def)
  qed
  ultimately show ?thesis
    using restore_enter_held [OF en] created(3) listed(2) by (fastforce simp: c' intro: subscribed_append)
qed

section \<open>Properties\<close>

text \<open>C16: restoring the subscriptions after a reconnect keeps every registration and accounts for
  every handle: a subscription that was held before or made meanwhile is held afterwards or was
  unsubscribed. When it succeeds, every registration holds a subscription made during the
  restoration, on the session's connection, for the registration's own subject, queue group and
  handler; so no registration is left with a subscription of before.\<close>

theorem restore_outcome:
  assumes "client_ok c" and "order_ok ord" and "restore_all X ord c w = (r, c', w')"
  shows "client_ok c' \<and> registered (cl_subs c') = registered (cl_subs c) \<and>
    (\<exists>evs. adds w w' evs \<and> accounts (cl_subs c) evs (cl_subs c') \<and>
      (r = None \<longrightarrow> (\<forall>i rec. get_activation_record (cl_subs c) i = Some rec \<longrightarrow>
        (\<exists>sub. held_by (cl_subs c') i = Some sub \<and> subscribed (m_nc (cl_session c)) rec sub evs))))"
proof -
  from restore_all_sound(1) [OF assms] obtain evs where evs: "adds w w' evs"
    "accounts (cl_subs c) evs (cl_subs c')" "client_ok c'" by (auto simp: sound_step_def)
  have "\<exists>sub. held_by (cl_subs c') i = Some sub \<and> subscribed (m_nc (cl_session c)) rec sub evs"
    if "r = None" "get_activation_record (cl_subs c) i = Some rec" for i rec
    using restore_all_complete [OF assms(1,2) assms(3) [unfolded that(1)] that(2) evs(1)] .
  with evs restore_all_sound(3) [OF assms] show ?thesis by blast
qed

theorem restore_outcome_witness:
  "\<exists>r c' w'. restore_all sim_ext rev sample_registered_client (sim_world [''flush'']) = (r, c', w') \<and>
     registered (cl_subs c') = registered sample_registry"
proof -
  obtain r c' w' where s: "restore_all sim_ext rev sample_registered_client (sim_world [''flush'']) = (r, c', w')"
    by (metis prod_cases3)
  have "order_ok (rev :: string list \<Rightarrow> string list)" by (simp add: order_ok_def)
  from restore_outcome [OF sample_registered_client_ok this s] s show ?thesis
    by (auto simp: sample_registered_client_def)
qed

text \<open>Deactivating unsubscribes exactly the subscriptions that are held, and each of them whether or
  not another fails; afterwards no registration is active, every registration is still there for a
  later start, the counters say so, and the call fails exactly when an unsubscription failed.\<close>

theorem deactivation_outcome:
  assumes "client_ok c" and "order_ok ord" and "deactivate_all X ord op c w = (r, c', w')"
  shows "client_ok c' \<and> registered (cl_subs c') = registered (cl_subs c) \<and> (\<forall>i. held_by (cl_subs c') i = None) \<and>
    hs_registered (client_health c') = fst (registry_counts (cl_subs c)) \<and> hs_active (client_health c') = 0 \<and>
    (\<exists>evs. adds w w' evs \<and> (\<forall>ev \<in> set evs. \<exists>s x. ev = EvUnsubscribe s x) \<and>
      dropped_subs evs = held_subs (cl_subs c) \<and> (r = None \<longleftrightarrow> (\<forall>s e. EvUnsubscribe s (Some e) \<notin> set evs)))"
  using assms
proof (rule deactivate_all_effect)
  fix evs
  assume *: "adds w w' evs" "dropped_subs evs = held_subs (cl_subs c)" "\<And>i. held_by (cl_subs c') i = None"
    "registered (cl_subs c') = registered (cl_subs c)" "r = None \<longleftrightarrow> (\<forall>s e. EvUnsubscribe s (Some e) \<notin> set evs)"
    "registry_counts (cl_subs c') = (fst (registry_counts (cl_subs c)), 0)" "with_registry c c'"
    "reg_ok (cl_subs c')" "\<forall>ev \<in> set evs. \<exists>s x. ev = EvUnsubscribe s x"
  then have ok: "client_ok c'" using with_registry_ok [OF assms(1)] by blast
  then have "hs_registered (client_health c') = fst (registry_counts (cl_subs c)) \<and> hs_active (client_health c') = 0"
    using *(6) by (simp add: client_ok_def counts_ok_def)
  with ok * show ?thesis by blast
qed

theorem deactivation_outcome_witness:
  "\<exists>r c' w'. deactivate_all sim_ext rev ''close'' sample_registered_client (sim_world []) = (r, c', w') \<and>
     hs_active (client_health c') = 0"
proof -
  obtain r c' w' where s: "deactivate_all sim_ext rev ''close'' sample_registered_client (sim_world []) = (r, c', w')"
    by (metis prod_cases3)
  have "order_ok (rev :: string list \<Rightarrow> string list)" by (simp add: order_ok_def)
  from deactivation_outcome [OF sample_registered_client_ok this s] s show ?thesis by blast
qed

end
