(* ===== verification/Client_Watches.thy ===== *)
theory Client_Watches
  imports Client_Send
begin

text \<open>
  Desired-config watches of the facade (\<^verbatim>\<open>agentcore/client.go\<close>): \<^verbatim>\<open>WatchDesiredConfig\<close> and the stop
  function it returns, restoring the watches after a reconnect, stopping all of them. Each stretch
  of code under \<^verbatim>\<open>watchMu\<close> is one step; what other goroutines do to the client between two such
  stretches is the argument \<open>others\<close>. The stop function returned to the agent is named by the id of
  its intent.
\<close>

section \<open>Starting and stopping one watch\<close>

definition put_stop :: "u64 \<Rightarrow> watch_stop option \<Rightarrow> (u64, active_watch) gomap \<Rightarrow> (u64, active_watch) gomap" where
  "put_stop i st m = (case gomap_get m i of None \<Rightarrow> m | Some a \<Rightarrow> gomap_put i (a\<lparr>aw_stop := st\<rparr>) m)"

definition delete_watch :: "u64 \<Rightarrow> client \<Rightarrow> client" where
  "delete_watch i c = c\<lparr>cl_watches := gomap_del i (cl_watches c)\<rparr>"

text \<open>
  An intent is a pointer that the map holds: once it is out of the map, setting its stop function
  has no effect that any other code can see.
\<close>

definition client_watch_desired ::
  "'e ext \<Rightarrow> (client \<Rightarrow> 'e world \<Rightarrow> client \<times> 'e world) \<Rightarrow> gctx option \<Rightarrow> string \<Rightarrow> nat option \<Rightarrow>
   client \<Rightarrow> 'e world \<Rightarrow> (gerr + u64) \<times> client \<times> 'e world" where
  "client_watch_desired X others mctx target handler c w =
     (case handler of
        None \<Rightarrow> (Inl (AgError CodeValidation ''watch_desired_config'' [] [] ''watch handler is required'' False None), c, w)
      | Some h \<Rightarrow>
     (let i = cl_next_watch c + 1;
          intent = \<lparr>aw_id = i, aw_target = target, aw_handler = h, aw_stop = None, aw_ctx = mctx\<rparr>;
          c1 = c\<lparr>cl_next_watch := i, cl_watches := gomap_put i intent (cl_watches c)\<rparr>;
          (r, w1) = watch_desired_config X (client_store X c1) mctx target (Some h) w;
          (c2, w2) = others c1 w1
      in case r of
        Inl err \<Rightarrow> (Inl (public_error err), delete_watch i c2, w2)
      | Inr st \<Rightarrow> (Inr i, c2\<lparr>cl_watches := put_stop i (Some st) (cl_watches c2)\<rparr>, w2)))"

definition call_stop :: "'e ext \<Rightarrow> client \<Rightarrow> watch_stop option \<Rightarrow> 'e world \<Rightarrow> gerr option \<times> 'e world" where
  "call_stop X c st w = (case st of None \<Rightarrow> (None, w) | Some s \<Rightarrow> stop_watch X (client_store X c) s w)"

text \<open>The returned stop function; \<open>stopped\<close> is the flag of its \<^verbatim>\<open>sync.Once\<close>.\<close>

definition stop_desired_watch ::
  "'e ext \<Rightarrow> u64 \<Rightarrow> bool \<Rightarrow> client \<Rightarrow> 'e world \<Rightarrow> gerr option \<times> bool \<times> client \<times> 'e world" where
  "stop_desired_watch X i stopped c w =
     (if stopped then (None, True, c, w)
      else (let current = gomap_get (cl_watches c) i;
                c1 = delete_watch i c;
                (r, w1) = call_stop X c1 (case current of None \<Rightarrow> None | Some a \<Rightarrow> aw_stop a) w
            in (r, True, c1, w1)))"

section \<open>Restoring after a reconnect\<close>

definition nil_dereference :: string where
  "nil_dereference = ''runtime error: invalid memory address or nil pointer dereference''"

text \<open>
  First, under the mutex: intents whose context is done are stopped and dropped, the others
  collected. An intent registered with a nil context has no method to call.
\<close>

fun collect_watches ::
  "'e ext \<Rightarrow> u64 list \<Rightarrow> active_watch list \<Rightarrow> client \<Rightarrow> 'e world \<Rightarrow> active_watch list outcome \<times> client \<times> 'e world" where
  "collect_watches X [] acc c w = (Returns acc, c, w)"
| "collect_watches X (i # is) acc c w =
     (case gomap_get (cl_watches c) i of
        None \<Rightarrow> collect_watches X is acc c w
      | Some a \<Rightarrow>
     (case aw_ctx a of
        None \<Rightarrow> (Panics nil_dereference, c, w)
      | Some ctx \<Rightarrow>
     (let (ce, w1) = query (x_ctx_err X ctx) w
      in case ce of
        None \<Rightarrow> collect_watches X is (acc @ [a]) c w1
      | Some _ \<Rightarrow> collect_watches X is acc (delete_watch i c) (snd (call_stop X c (aw_stop a) w1)))))"

text \<open>Then, without it: a new watch for each.\<close>

record restore_result =
  wr_id :: u64
  wr_stop :: "watch_stop option"
  wr_err :: "gerr option"

definition rewatch :: "'e ext \<Rightarrow> client \<Rightarrow> active_watch \<Rightarrow> gctx \<Rightarrow> 'e world \<Rightarrow> restore_result \<times> 'e world" where
  "rewatch X c a ctx w =
     (let (ce, w1) = query (x_ctx_err X ctx) w
      in case ce of
        Some _ \<Rightarrow> (let (err, w2) = query (x_ctx_err X ctx) w1
                   in (\<lparr>wr_id = aw_id a, wr_stop = None, wr_err = err\<rparr>, w2))
      | None \<Rightarrow>
     (let w2 = log_client c LogInfo ''restoring KV watch'' w1;
          (r, w3) = watch_desired_config X (client_store X c) (Some ctx) (aw_target a) (Some (aw_handler a)) w2
      in (case r of
            Inl err \<Rightarrow> \<lparr>wr_id = aw_id a, wr_stop = None, wr_err = Some err\<rparr>
          | Inr st \<Rightarrow> \<lparr>wr_id = aw_id a, wr_stop = Some st, wr_err = None\<rparr>, w3)))"

fun rewatch_all ::
  "'e ext \<Rightarrow> client \<Rightarrow> active_watch list \<Rightarrow> 'e world \<Rightarrow> restore_result list outcome \<times> 'e world" where
  "rewatch_all X c [] w = (Returns [], w)"
| "rewatch_all X c (a # as) w =
     (case aw_ctx a of
        None \<Rightarrow> (Panics nil_dereference, w)
      | Some ctx \<Rightarrow>
     (let (r, w1) = rewatch X c a ctx w;
          (rs, w2) = rewatch_all X c as w1
      in (case rs of Panics v \<Rightarrow> Panics v | Returns xs \<Rightarrow> Returns (r # xs), w2)))"

text \<open>
  Last, under the mutex again: a watch whose intent is gone is stopped, the others replace what
  their intents had.
\<close>

fun adopt_watches ::
  "'e ext \<Rightarrow> restore_result list \<Rightarrow> gerr option \<Rightarrow> client \<Rightarrow> 'e world \<Rightarrow> gerr option outcome \<times> client \<times> 'e world" where
  "adopt_watches X [] joined c w = (Returns joined, c, w)"
| "adopt_watches X (r # rs) joined c w =
     (case gomap_get (cl_watches c) (wr_id r) of
        None \<Rightarrow> adopt_watches X rs joined c (snd (call_stop X c (wr_stop r) w))
      | Some a \<Rightarrow>
     (case wr_err r of
        None \<Rightarrow> adopt_watches X rs joined
          (c\<lparr>cl_watches := put_stop (wr_id r) (wr_stop r) (cl_watches c)\<rparr>) (snd (call_stop X c (aw_stop a) w))
      | Some err \<Rightarrow>
     (let w1 = report_client c err (log_client c LogError ''failed to restore KV watch'' w);
          joined' = errors_join [joined, Some err]
      in case aw_ctx a of
        None \<Rightarrow> (Panics nil_dereference, c, w1)
      | Some ctx \<Rightarrow>
     (let (ce, w2) = query (x_ctx_err X ctx) w1
      in case ce of
        None \<Rightarrow> adopt_watches X rs joined' c w2
      | Some _ \<Rightarrow> adopt_watches X rs joined' (delete_watch (wr_id r) c) (snd (call_stop X c (aw_stop a) w2))))))"

definition restore_all_watches ::
  "'e ext \<Rightarrow> (u64 list \<Rightarrow> u64 list) \<Rightarrow> (client \<Rightarrow> 'e world \<Rightarrow> client \<times> 'e world) \<Rightarrow> client \<Rightarrow> 'e world \<Rightarrow>
   gerr option outcome \<times> client \<times> 'e world" where
  "restore_all_watches X ord others c w =
     (let (as, c1, w1) = collect_watches X (ord (map fst (cl_watches c))) [] c w
      in case as of
        Panics v \<Rightarrow> (Panics v, c1, w1)
      | Returns xs \<Rightarrow>
     (let (rs, w2) = rewatch_all X c1 xs w1
      in case rs of
        Panics v \<Rightarrow> (Panics v, c1, w2)
      | Returns results \<Rightarrow>
     (let (c2, w3) = others c1 w2 in adopt_watches X results None c2 w3)))"

section \<open>Stopping all\<close>

text \<open>The first error stands alone, later ones are joined to it.\<close>

fun stop_watches :: "'e ext \<Rightarrow> client \<Rightarrow> watch_stop list \<Rightarrow> gerr option \<Rightarrow> 'e world \<Rightarrow> gerr option \<times> 'e world" where
  "stop_watches X c [] joined w = (joined, w)"
| "stop_watches X c (s # ss) joined w =
     (let (r, w1) = stop_watch X (client_store X c) s w
      in stop_watches X c ss
           (case r of None \<Rightarrow> joined
            | Some err \<Rightarrow> if joined = None then Some err else errors_join [joined, Some err]) w1)"

definition watch_stops :: "(u64 list \<Rightarrow> u64 list) \<Rightarrow> client \<Rightarrow> watch_stop list" where
  "watch_stops ord c = List.map_filter
     (\<lambda>i. case gomap_get (cl_watches c) i of None \<Rightarrow> None | Some a \<Rightarrow> aw_stop a) (ord (map fst (cl_watches c)))"

definition stop_all_watches ::
  "'e ext \<Rightarrow> (u64 list \<Rightarrow> u64 list) \<Rightarrow> client \<Rightarrow> 'e world \<Rightarrow> gerr option \<times> client \<times> 'e world" where
  "stop_all_watches X ord c w =
     (let stops = watch_stops ord c;
          c1 = c\<lparr>cl_watches := []\<rparr>;
          (r, w1) = stop_watches X c1 stops None w
      in (r, c1, w1))"

section \<open>Accounting for watchers\<close>

text \<open>
  As for subscriptions: the watchers a trace shows started and stopped, those the intents hold, and
  the contract that a watcher started or held before is held or stopped afterwards.
\<close>

definition started :: "event list \<Rightarrow> watcher set" where
  "started evs = {wt. \<exists>kv key. EvKVWatch kv key (Inr wt) \<in> set evs}"

definition stopped :: "event list \<Rightarrow> watcher set" where
  "stopped evs = {wt. EvStopWatcher wt \<in> set evs}"

definition watcher_of :: "(u64, active_watch) gomap \<Rightarrow> u64 \<Rightarrow> watcher option" where
  "watcher_of m i = (case gomap_get m i of None \<Rightarrow> None | Some a \<Rightarrow> map_option wt_watcher (aw_stop a))"

definition watched :: "(u64, active_watch) gomap \<Rightarrow> watcher set" where
  "watched m = {wt. \<exists>i. watcher_of m i = Some wt}"

definition watch_accounts ::
  "(u64, active_watch) gomap \<Rightarrow> event list \<Rightarrow> (u64, active_watch) gomap \<Rightarrow> bool" where
  "watch_accounts m evs m' \<longleftrightarrow> watched m \<union> started evs \<subseteq> watched m' \<union> stopped evs"

lemma started_simps [simp]:
  "started [] = {}" "stopped [] = {}"
  "started (xs @ ys) = started xs \<union> started ys" "stopped (xs @ ys) = stopped xs \<union> stopped ys"
  "started (EvKVWatch kv key (Inr wt) # evs) = insert wt (started evs)"
  "started (EvKVWatch kv key (Inl e) # evs) = started evs"
  "stopped (EvKVWatch kv key x # evs) = stopped evs"
  "started (EvStopWatcher wt # evs) = started evs" "stopped (EvStopWatcher wt # evs) = insert wt (stopped evs)"
  "started (EvCancel ctx # evs) = started evs" "stopped (EvCancel ctx # evs) = stopped evs"
  "started (EvErrorSink e # evs) = started evs" "stopped (EvErrorSink e # evs) = stopped evs"
  "started (EvLog level msg # evs) = started evs" "stopped (EvLog level msg # evs) = stopped evs"
  by (auto simp: started_def stopped_def)

lemma quiet_reports:
  "\<forall>ev \<in> set evs. \<exists>e. ev = EvErrorSink e \<Longrightarrow> started evs = {} \<and> stopped evs = {}"
  by (auto simp: started_def stopped_def)

lemma watch_accounts_trans:
  "watch_accounts m xs m1 \<Longrightarrow> watch_accounts m1 ys m2 \<Longrightarrow> watch_accounts m (xs @ ys) m2"
  by (auto simp: watch_accounts_def)

lemma watch_accounts_quiet: "started evs \<subseteq> stopped evs \<Longrightarrow> watch_accounts m evs m"
  by (auto simp: watch_accounts_def)

lemma watcher_of_del [simp]: "watcher_of (gomap_del i m) = (watcher_of m)(i := None)"
  by (rule ext) (simp add: watcher_of_def)

lemma watcher_of_put:
  "gomap_get m i = Some a \<Longrightarrow> watcher_of (put_stop i st m) = (watcher_of m)(i := map_option wt_watcher st)"
  by (rule ext) (simp add: watcher_of_def put_stop_def del: map_of_eq_Some_iff)

lemma watcher_of_empty [simp]: "watcher_of [] i = None"
  by (simp add: watcher_of_def)

lemma watched_empty [simp]: "watched [] = {}"
  by (simp add: watched_def)

lemma watched_del: "watched m \<subseteq> watched (gomap_del i m) \<union> set_option (watcher_of m i)"
  by (auto simp: watched_def fun_upd_def)

lemma watched_put:
  "gomap_get m i = Some a \<Longrightarrow>
   watched m \<union> wt_watcher ` set_option st \<subseteq> watched (put_stop i st m) \<union> set_option (watcher_of m i)"
  by (cases st) (auto simp: watched_def watcher_of_put fun_upd_def simp del: map_of_eq_Some_iff)

lemma stop_watch_adds:
  assumes "stop_watch X s st w = (r, w')"
  obtains evs where "adds w w' evs" "started evs = {}" "stopped evs = {wt_watcher st}"
    "r = Some err \<Longrightarrow> err = kv_read_error ''watch_desired_config_stop_timeout''
       ''desired-config watch stop timed out waiting for handler cleanup'' None"
proof -
  obtain f w1 where f: "query (x_watch_done X (wt_watcher st) (effective_shutdown s)) (cancel_and_stop st w) = (f, w1)"
    by fastforce
  let ?e = "kv_read_error ''watch_desired_config_stop_timeout''
       ''desired-config watch stop timed out waiting for handler cleanup'' None"
  let ?evs = "[EvCancel (wt_ctx st), EvStopWatcher (wt_watcher st)] @
    (if f then [] else (case ks_error_sink s of None \<Rightarrow> [] | Some g \<Rightarrow> [EvErrorSink (g ?e)]))"
  have "adds w w' ?evs"
    using assms f query_trace [OF f]
    by (auto simp: stop_watch_def adds_def cancel_and_stop_def kv_report_def Let_def split: if_splits)
  moreover have "started ?evs = {}" "stopped ?evs = {wt_watcher st}" by (auto split: option.split)
  moreover have "r = Some err \<Longrightarrow> err = ?e"
    using assms f by (auto simp: stop_watch_def Let_def split: if_splits)
  ultimately show thesis by (rule that)
qed

lemma call_stop_adds:
  obtains evs where "adds w (snd (call_stop X c st w)) evs" "started evs = {}"
    "stopped evs = wt_watcher ` set_option st"
proof (cases st)
  case None
  then show thesis by (intro that [of "[]"]) (simp_all add: call_stop_def)
next
  case (Some s)
  obtain r w' where s: "stop_watch X (client_store X c) s w = (r, w')" by fastforce
  then obtain evs where "adds w w' evs" "started evs = {}" "stopped evs = {wt_watcher s}"
    by (rule stop_watch_adds)
  then show thesis using Some s by (intro that [of evs]) (simp_all add: call_stop_def)
qed

lemma start_watch_adds:
  assumes "watch_desired_config X (client_store X c) mctx target (Some h) w = (r, w')"
  obtains evs where "adds w w' evs" "case r of Inl _ \<Rightarrow> started evs \<subseteq> stopped evs
    | Inr st \<Rightarrow> started evs = {wt_watcher st} \<and> stopped evs = {}"
proof -
  have "watch_desired_config X (manager_store X (cl_session c)) mctx target (Some h) w = (r, w')"
    using assms by (simp add: client_store_def)
  then show thesis
  proof (cases rule: manager_runtime.watch_cases)
    case (refused err)
    then show thesis by (intro that [of "[]"]) simp_all
  next
    case (failed kv key ctx err)
    then show thesis by (intro that [of "[EvKVWatch kv key (Inl err), EvCancel ctx]"]) simp_all
  next
    case (abandoned kv key ctx watcher err reports)
    with quiet_reports [OF abandoned(3)] show thesis
      by (intro that [of "EvKVWatch kv key (Inr watcher) # EvCancel ctx # EvStopWatcher watcher # reports"]) auto
  next
    case (running kv key st)
    then show thesis by (intro that [of "[EvKVWatch kv key (Inr (wt_watcher st))]"]) simp_all
  qed
qed

section \<open>One watch\<close>

text \<open>The invariant of the map of intents: each sits under its own id, handed out before.\<close>

definition watches_ok :: "client \<Rightarrow> bool" where
  "watches_ok c \<longleftrightarrow> gomap_wf (cl_watches c) \<and>
     (\<forall>i a. gomap_get (cl_watches c) i = Some a \<longrightarrow> aw_id a = i \<and> unat i \<le> unat (cl_next_watch c))"

definition watch_ids_left :: "client \<Rightarrow> bool" where
  "watch_ids_left c \<longleftrightarrow> unat (cl_next_watch c) + 1 < 2 ^ 64"

lemma next_watch: "watch_ids_left c \<Longrightarrow> unat (cl_next_watch c + 1) = Suc (unat (cl_next_watch c))"
  by (simp add: watch_ids_left_def unat_word_ariths)

lemma fresh_watch: "watches_ok c \<Longrightarrow> watch_ids_left c \<Longrightarrow> gomap_get (cl_watches c) (cl_next_watch c + 1) = None"
  using next_watch [of c] unfolding watches_ok_def
  by (metis Suc_n_not_le_n not_None_eq)

text \<open>Other goroutines that leave the intent \<open>i\<close> alone and account for the watchers they touch.\<close>

definition calm :: "u64 set \<Rightarrow> (client \<Rightarrow> 'e world \<Rightarrow> client \<times> 'e world) \<Rightarrow> bool" where
  "calm I others \<longleftrightarrow> (\<forall>c w c' w'. others c w = (c', w') \<longrightarrow>
     (\<forall>i \<in> I. gomap_get (cl_watches c') i = gomap_get (cl_watches c) i) \<and>
     (\<exists>evs. adds w w' evs \<and> watch_accounts (cl_watches c) evs (cl_watches c')))"

lemma calm_nobody [simp]: "calm I Pair"
  by (auto simp: calm_def watch_accounts_def intro: exI [of _ "[]"])

lemma client_watch_steps:
  assumes "client_watch_desired X others mctx target (Some h) c w = (r, c', w')"
  obtains e1 c2 w1 st where "adds w w1 e1"
    "others (c\<lparr>cl_next_watch := cl_next_watch c + 1, cl_watches := gomap_put (cl_next_watch c + 1)
       \<lparr>aw_id = cl_next_watch c + 1, aw_target = target, aw_handler = h, aw_stop = None, aw_ctx = mctx\<rparr>
       (cl_watches c)\<rparr>) w1 = (c2, w')"
    "(\<exists>err. r = Inl (public_error err)) \<and> c' = delete_watch (cl_next_watch c + 1) c2 \<and> started e1 \<subseteq> stopped e1 \<or>
     r = Inr (cl_next_watch c + 1) \<and> started e1 = {wt_watcher st} \<and> stopped e1 = {} \<and>
       c' = c2\<lparr>cl_watches := put_stop (cl_next_watch c + 1) (Some st) (cl_watches c2)\<rparr>"
proof -
  let ?i = "cl_next_watch c + 1"
  let ?c1 = "c\<lparr>cl_next_watch := ?i, cl_watches := gomap_put ?i
       \<lparr>aw_id = ?i, aw_target = target, aw_handler = h, aw_stop = None, aw_ctx = mctx\<rparr> (cl_watches c)\<rparr>"
  obtain x w1 where x: "watch_desired_config X (client_store X ?c1) mctx target (Some h) w = (x, w1)" by fastforce
  obtain c2 w2 where o: "others ?c1 w1 = (c2, w2)" by fastforce
  have res: "(case x of Inl err \<Rightarrow> (Inl (public_error err), delete_watch ?i c2, w2)
      | Inr st \<Rightarrow> (Inr ?i, c2\<lparr>cl_watches := put_stop ?i (Some st) (cl_watches c2)\<rparr>, w2)) = (r, c', w')"
    using assms x o by (simp add: client_watch_desired_def Let_def)
  from x obtain e1 where e1: "adds w w1 e1" "case x of Inl _ \<Rightarrow> started e1 \<subseteq> stopped e1
    | Inr st \<Rightarrow> started e1 = {wt_watcher st} \<and> stopped e1 = {}"
    by (rule start_watch_adds)
  show thesis
  proof (cases x)
    case (Inl err)
    with res e1 o show thesis by (intro that [of w1 e1 c2]) auto
  next
    case (Inr st)
    with res e1 o show thesis by (intro that [of w1 e1 c2 st]) auto
  qed
qed

lemma client_watch_outcome:
  assumes start: "client_watch_desired X others mctx target h c w = (r, c', w')"
    and calm: "calm {cl_next_watch c + 1} others" and ok: "watches_ok c" "watch_ids_left c"
  shows "\<exists>evs. adds w w' evs \<and> watch_accounts (cl_watches c) evs (cl_watches c') \<and>
    (case r of
       Inl err \<Rightarrow> public_err err \<and> gomap_get (cl_watches c') (cl_next_watch c + 1) = None
     | Inr i \<Rightarrow> gomap_get (cl_watches c) i = None \<and> (\<exists>hnd st. h = Some hnd \<and> gomap_get (cl_watches c') i =
           Some \<lparr>aw_id = i, aw_target = target, aw_handler = hnd, aw_stop = Some st, aw_ctx = mctx\<rparr> \<and>
         wt_watcher st \<in> started evs))"
proof (cases h)
  case None
  with start fresh_watch [OF ok] show ?thesis
    by (intro exI [of _ "[]"]) (auto simp: client_watch_desired_def watch_accounts_def)
next
  case (Some hnd)
  let ?i = "cl_next_watch c + 1"
  let ?a = "\<lparr>aw_id = ?i, aw_target = target, aw_handler = hnd, aw_stop = None, aw_ctx = mctx\<rparr>"
  let ?m1 = "gomap_put ?i ?a (cl_watches c)"
  note fresh = fresh_watch [OF ok]
  have grow: "watched (cl_watches c) \<subseteq> watched ?m1"
  proof -
    have "watcher_of ?m1 = watcher_of (cl_watches c)"
      by (rule ext) (simp add: watcher_of_def fresh)
    then show ?thesis by (simp add: watched_def)
  qed
  obtain e1 c2 w1 st where s: "adds w w1 e1"
    "others (c\<lparr>cl_next_watch := ?i, cl_watches := ?m1\<rparr>) w1 = (c2, w')"
    "(\<exists>err. r = Inl (public_error err)) \<and> c' = delete_watch ?i c2 \<and> started e1 \<subseteq> stopped e1 \<or>
     r = Inr ?i \<and> started e1 = {wt_watcher st} \<and> stopped e1 = {} \<and>
       c' = c2\<lparr>cl_watches := put_stop ?i (Some st) (cl_watches c2)\<rparr>"
    using start unfolding Some by (rule client_watch_steps)
  from calm s(2) have intent: "gomap_get (cl_watches c2) ?i = Some ?a"
    and "\<exists>evs. adds w1 w' evs \<and> watch_accounts ?m1 evs (cl_watches c2)"
    by (fastforce simp: calm_def)+
  then obtain e2 where e2: "adds w1 w' e2" "watch_accounts ?m1 e2 (cl_watches c2)" by blast
  note evs = adds_trans [OF s(1) e2(1)]
  have none: "watcher_of (cl_watches c2) ?i = None" by (simp add: watcher_of_def intent)
  from s(3) show ?thesis
  proof (elim disjE conjE exE)
    fix err
    assume r: "r = Inl (public_error err)" "c' = delete_watch ?i c2" "started e1 \<subseteq> stopped e1"
    have "watched (cl_watches c2) \<subseteq> watched (cl_watches c')"
      using watched_del [of "cl_watches c2" ?i] none by (simp add: r(2) delete_watch_def)
    then have "watch_accounts (cl_watches c) (e1 @ e2) (cl_watches c')"
      using grow e2(2) r(3) by (auto simp: watch_accounts_def)
    with evs r show ?thesis by (intro exI [of _ "e1 @ e2"]) (simp add: delete_watch_def)
  next
    assume r: "r = Inr ?i" "started e1 = {wt_watcher st}" "stopped e1 = {}"
      "c' = c2\<lparr>cl_watches := put_stop ?i (Some st) (cl_watches c2)\<rparr>"
    have "watched (cl_watches c2) \<union> {wt_watcher st} \<subseteq> watched (cl_watches c')"
      using watched_put [OF intent, of "Some st"] none by (simp add: r(4))
    then have "watch_accounts (cl_watches c) (e1 @ e2) (cl_watches c')"
      using grow e2(2) r(2) by (auto simp: watch_accounts_def)
    moreover have "gomap_get (cl_watches c') ?i = Some (?a\<lparr>aw_stop := Some st\<rparr>)"
      by (simp add: r(4) put_stop_def intent)
    ultimately show ?thesis using evs r(1,2) fresh Some
      by (intro exI [of _ "e1 @ e2"]) simp
  qed
qed

text \<open>The stop function stops what the intent holds, once.\<close>

lemma stop_desired_adds:
  assumes "stop_desired_watch X i False c w = (r, b, c', w')"
  shows "b \<and> c' = delete_watch i c \<and> (\<exists>evs. adds w w' evs \<and> started evs = {} \<and>
    stopped evs = set_option (watcher_of (cl_watches c) i))"
proof -
  let ?st = "case gomap_get (cl_watches c) i of None \<Rightarrow> None | Some a \<Rightarrow> aw_stop a"
  obtain evs where "adds w (snd (call_stop X (delete_watch i c) ?st w)) evs" "started evs = {}"
    "stopped evs = wt_watcher ` set_option ?st" by (rule call_stop_adds)
  moreover have "wt_watcher ` set_option ?st = set_option (watcher_of (cl_watches c) i)"
    by (simp add: watcher_of_def option.set_map split: option.split)
  ultimately show ?thesis using assms
    by (auto simp: stop_desired_watch_def Let_def split: prod.splits)
qed

end
