(* ===== verification/Watch_Restore.thy ===== *)
theory Watch_Restore
  imports Client_Watches
begin

text \<open>
  Restoring the watches after a reconnect, and stopping them: what each of the three parts of the
  restoration does, and the properties of watches.
\<close>

section \<open>Restoring\<close>

lemma get_delete_watch [simp]:
  "gomap_get (cl_watches (delete_watch i c)) j = (if j = i then None else gomap_get (cl_watches c) j)"
  by (simp add: delete_watch_def)

lemma collect_step:
  assumes "collect_watches X (i # is) acc c w = (x, c', w')"
  obtains (gone) "gomap_get (cl_watches c) i = None" "collect_watches X is acc c w = (x, c', w')"
  | (nil) a where "gomap_get (cl_watches c) i = Some a" "aw_ctx a = None"
      "x = Panics nil_dereference" "c' = c" "w' = w"
  | (live) a w1 where "gomap_get (cl_watches c) i = Some a" "aw_ctx a \<noteq> None" "adds w w1 []"
      "collect_watches X is (acc @ [a]) c w1 = (x, c', w')"
  | (over) a e1 w1 where "gomap_get (cl_watches c) i = Some a" "aw_ctx a \<noteq> None" "adds w w1 e1" "started e1 = {}" "stopped e1 = set_option (watcher_of (cl_watches c) i)"
      "collect_watches X is acc (delete_watch i c) w1 = (x, c', w')"
proof (cases "gomap_get (cl_watches c) i")
  case None
  with assms show thesis by (intro gone) simp_all
next
  case a: (Some a)
  show thesis
  proof (cases "aw_ctx a")
    case None
    with assms a show thesis by (intro nil) auto
  next
    case ctx: (Some ctx)
    obtain ce w1 where ce: "query (x_ctx_err X ctx) w = (ce, w1)" by fastforce
    have t1: "adds w w1 []" using query_trace [OF ce] by (simp add: adds_def)
    show thesis
    proof (cases ce)
      case None
      with assms a ctx ce t1 show thesis by (intro live) simp_all
    next
      case (Some err)
      obtain e1 where e1: "adds w1 (snd (call_stop X c (aw_stop a) w1)) e1" "started e1 = {}"
        "stopped e1 = wt_watcher ` set_option (aw_stop a)" by (rule call_stop_adds)
      have "stopped e1 = set_option (watcher_of (cl_watches c) i)"
        using e1(3) by (simp add: watcher_of_def a option.set_map)
      with assms a ctx ce Some e1(2) adds_trans [OF t1 e1(1)] show thesis
        by (intro over [of a "snd (call_stop X c (aw_stop a) w1)" e1]) simp_all
    qed
  qed
qed

lemma delete_watch_ok: "watches_ok c \<Longrightarrow> watches_ok (delete_watch i c)"
  by (auto simp: watches_ok_def delete_watch_def simp del: map_of_eq_Some_iff split: if_splits)

lemma collect_keeps:
  assumes "collect_watches X is acc c w = (x, c', w')" and "watches_ok c"
  shows "watches_ok c' \<and> (\<forall>i a. gomap_get (cl_watches c') i = Some a \<longrightarrow> gomap_get (cl_watches c) i = Some a)"
  using assms
proof (induction "is" arbitrary: acc c w)
  case (Cons i "is")
  from Cons.prems(1) show ?case
  proof (cases rule: collect_step)
    case (over b e1 w1)
    from Cons.IH [OF over(6) delete_watch_ok [OF Cons.prems(2)]] show ?thesis
      by (simp del: map_of_eq_Some_iff) (metis option.distinct(1))
  qed (use Cons in auto)
qed simp

lemma collect_adds:
  assumes "collect_watches X is acc c w = (x, c', w')"
  shows "\<exists>evs. adds w w' evs \<and> started evs = {} \<and> watched (cl_watches c) \<subseteq> watched (cl_watches c') \<union> stopped evs"
  using assms
proof (induction "is" arbitrary: acc c w)
  case Nil
  then show ?case by (intro exI [of _ "[]"]) simp
next
  case (Cons i "is")
  from Cons.prems(1) show ?case
  proof (cases rule: collect_step)
    case gone
    from Cons.IH [OF gone(2)] show ?thesis .
  next
    case (nil a)
    then show ?thesis by (intro exI [of _ "[]"]) simp
  next
    case (live a w1)
    from Cons.IH [OF live(4)] adds_trans [OF live(3)] show ?thesis by fastforce
  next
    case (over b e1 w1)
    from Cons.IH [OF over(6)] obtain e2 where e2: "adds w1 w' e2" "started e2 = {}"
      "watched (gomap_del i (cl_watches c)) \<subseteq> watched (cl_watches c') \<union> stopped e2"
      by (auto simp: delete_watch_def)
    then show ?thesis using adds_trans [OF over(3) e2(1)] over(4,5) watched_del [of "cl_watches c" i]
      by (intro exI [of _ "e1 @ e2"]) auto
  qed
qed

text \<open>What is collected: the intents that stay, unless one of them has no context.\<close>

definition collected :: "u64 list \<Rightarrow> active_watch list \<Rightarrow> client \<Rightarrow> client \<Rightarrow> bool" where
  "collected is new c c' \<longleftrightarrow>
     (\<forall>i \<in> set is. \<forall>a. gomap_get (cl_watches c') i = Some a \<longrightarrow> a \<in> set new) \<and>
     (\<forall>a \<in> set new. aw_ctx a \<noteq> None \<and> aw_id a \<in> set is \<and> gomap_get (cl_watches c) (aw_id a) = Some a) \<and>
     (distinct is \<longrightarrow> distinct (map aw_id new))"

lemma collectedI:
  assumes "\<And>i a. i \<in> set is \<Longrightarrow> gomap_get (cl_watches c') i = Some a \<Longrightarrow> a \<in> set new"
    and "\<And>a. a \<in> set new \<Longrightarrow> aw_ctx a \<noteq> None \<and> aw_id a \<in> set is \<and> gomap_get (cl_watches c) (aw_id a) = Some a"
    and "distinct is \<Longrightarrow> distinct (map aw_id new)"
  shows "collected is new c c'"
  using assms unfolding collected_def by blast

lemma collectedD:
  assumes "collected is new c c'"
  shows "i \<in> set is \<Longrightarrow> gomap_get (cl_watches c') i = Some a \<Longrightarrow> a \<in> set new"
    and "a \<in> set new \<Longrightarrow> aw_ctx a \<noteq> None \<and> aw_id a \<in> set is \<and> gomap_get (cl_watches c) (aw_id a) = Some a"
    and "distinct is \<Longrightarrow> distinct (map aw_id new)"
  using assms unfolding collected_def by blast+

lemma collect_returns:
  assumes "collect_watches X is acc c w = (Returns as, c', w')" and "watches_ok c"
  shows "\<exists>new. as = acc @ new \<and> collected is new c c'"
  using assms
proof (induction "is" arbitrary: acc c w)
  case Nil
  then show ?case by (intro exI [of _ "[]"]) (simp add: collected_def)
next
  case (Cons i "is")
  from Cons.prems(1) show ?case
  proof (cases rule: collect_step)
    case gone
    from Cons.IH [OF gone(2) Cons.prems(2)] obtain new where "as = acc @ new" "collected is new c c'" by blast
    moreover have "gomap_get (cl_watches c') i = None"
      using collect_keeps [OF gone(2) Cons.prems(2)] gone(1) by (cases "gomap_get (cl_watches c') i") auto
    ultimately show ?thesis by (intro exI [of _ new]) (simp add: collected_def)
  next
    case (live a w1)
    from Cons.IH [OF live(4) Cons.prems(2)] obtain new where
      new: "as = (acc @ [a]) @ new" "collected is new c c'" by blast
    have id: "aw_id a = i" using Cons.prems(2) live(1) by (simp add: watches_ok_def)
    have "\<forall>b. gomap_get (cl_watches c') i = Some b \<longrightarrow> b = a"
      using collect_keeps [OF live(4) Cons.prems(2)] live(1) by fastforce
    then have "collected (i # is) (a # new) c c'"
    proof (intro collectedI)
      fix j b
      assume b: "\<forall>b. gomap_get (cl_watches c') i = Some b \<longrightarrow> b = a" "j \<in> set (i # is)" "gomap_get (cl_watches c') j = Some b"
      then show "b \<in> set (a # new)" using collectedD(1) [OF new(2)] by (cases "j = i") auto
    next
      fix b
      assume "b \<in> set (a # new)"
      then consider "b = a" | "b \<in> set new" by auto
      then show "aw_ctx b \<noteq> None \<and> aw_id b \<in> set (i # is) \<and> gomap_get (cl_watches c) (aw_id b) = Some b"
        using live(1,2) id collectedD(2) [OF new(2)] by cases simp_all
    next
      assume "distinct (i # is)"
      moreover have "aw_id ` set new \<subseteq> set is" using collectedD(2) [OF new(2)] by blast
      ultimately show "distinct (map aw_id (a # new))" using collectedD(3) [OF new(2)] id by auto
    qed
    with new(1) show ?thesis by (intro exI [of _ "a # new"]) simp
  next
    case (over b e1 w1)
    note ok = delete_watch_ok [OF Cons.prems(2)]
    from Cons.IH [OF over(6) ok] obtain new where
      new: "as = acc @ new" "collected is new (delete_watch i c) c'" by blast
    have "gomap_get (cl_watches c') i = None"
      using collect_keeps [OF over(6) ok] by (metis get_delete_watch option.collapse option.distinct(1))
    moreover have "\<forall>a. gomap_get (cl_watches (delete_watch i c)) (aw_id a) = Some a \<longrightarrow>
        gomap_get (cl_watches c) (aw_id a) = Some a" by (simp del: map_of_eq_Some_iff)
    ultimately show ?thesis using new
      by (intro exI [of _ new]) (simp add: collected_def del: map_of_eq_Some_iff get_delete_watch)
  qed simp
qed

lemma collect_none:
  assumes "collect_watches X is acc c w = (Panics v, c', w')" and "watches_ok c"
  shows "\<exists>i a. gomap_get (cl_watches c) i = Some a \<and> aw_ctx a = None"
  using assms
proof (induction "is" arbitrary: acc c w)
  case (Cons j "is")
  from Cons.prems(1) show ?case
  proof (cases rule: collect_step)
    case (over b e1 w1)
    from Cons.IH [OF over(6) delete_watch_ok [OF Cons.prems(2)]] show ?thesis
      by (metis get_delete_watch option.distinct(1))
  qed (use Cons in blast)+
qed simp

lemma collect_panics:
  assumes "collect_watches X is acc c w = (x, c', w')" and "i \<in> set is"
    and "gomap_get (cl_watches c) i = Some a" and "aw_ctx a = None"
  shows "x = Panics nil_dereference"
  using assms
proof (induction "is" arbitrary: acc c w)
  case (Cons j "is")
  from Cons.prems(1) show ?case
  proof (cases rule: collect_step)
    case (over b e1 w1)
    then have "i \<noteq> j" using Cons.prems(3,4) by auto
    with Cons over(6) show ?thesis by simp
  qed (use Cons in auto)
qed simp

text \<open>The watchers the results of the second part carry.\<close>

definition new_watchers :: "restore_result list \<Rightarrow> watcher set" where
  "new_watchers rs = {wt. \<exists>r \<in> set rs. map_option wt_watcher (wr_stop r) = Some wt}"

definition result_ok :: "restore_result \<Rightarrow> bool" where
  "result_ok r \<longleftrightarrow> (wr_err r \<noteq> None \<longrightarrow> wr_stop r = None)"

text \<open>Once a context is done it stays done (documented for \<^verbatim>\<open>Context.Err\<close>).\<close>

definition ctx_stable :: "'e ext \<Rightarrow> bool" where
  "ctx_stable X \<longleftrightarrow> (\<forall>ctx e err e'. x_ctx_err X ctx e = (Some err, e') \<longrightarrow> fst (x_ctx_err X ctx e') \<noteq> None)"

lemma new_watchers_simps [simp]:
  "new_watchers [] = {}"
  "new_watchers (r # rs) = set_option (map_option wt_watcher (wr_stop r)) \<union> new_watchers rs"
  by (auto simp: new_watchers_def)

lemma rewatch_adds:
  assumes "rewatch X c a ctx w = (r, w')"
  shows "wr_id r = aw_id a \<and> result_ok r \<and> (ctx_stable X \<and> wr_err r = None \<longrightarrow> wr_stop r \<noteq> None) \<and>
    (\<exists>evs. adds w w' evs \<and> started evs \<subseteq> stopped evs \<union> new_watchers [r] \<and> new_watchers [r] \<subseteq> started evs)"
proof -
  obtain ce w1 where ce: "query (x_ctx_err X ctx) w = (ce, w1)" by fastforce
  note t1 = query_trace [OF ce]
  show ?thesis
  proof (cases ce)
    case (Some e)
    obtain err w2 where e: "query (x_ctx_err X ctx) w1 = (err, w2)" by fastforce
    note t2 = query_trace [OF e]
    have r: "r = \<lparr>wr_id = aw_id a, wr_stop = None, wr_err = err\<rparr>" "w' = w2"
      using assms ce Some e by (simp_all add: rewatch_def)
    have "ctx_stable X \<Longrightarrow> err \<noteq> None"
      using ce e Some by (auto simp: ctx_stable_def query_def split: prod.splits) (metis fst_conv option.distinct(1))
    with r t1 t2 show ?thesis by (auto simp: result_ok_def adds_def intro!: exI [of _ "[]"])
  next
    case None
    let ?w2 = "log_client c LogInfo ''restoring KV watch'' w1"
    obtain x w3 where x: "watch_desired_config X (client_store X c) (Some ctx) (aw_target a) (Some (aw_handler a)) ?w2 = (x, w3)"
      by fastforce
    have r: "r = (case x of Inl err \<Rightarrow> \<lparr>wr_id = aw_id a, wr_stop = None, wr_err = Some err\<rparr>
        | Inr st \<Rightarrow> \<lparr>wr_id = aw_id a, wr_stop = Some st, wr_err = None\<rparr>)" "w' = w3"
      using assms ce None x by (simp_all add: rewatch_def Let_def)
    from x obtain evs where evs: "adds ?w2 w3 evs" "case x of Inl _ \<Rightarrow> started evs \<subseteq> stopped evs
      | Inr st \<Rightarrow> started evs = {wt_watcher st} \<and> stopped evs = {}" by (rule start_watch_adds)
    let ?log = "if co_logger (cl_options c) then [EvLog LogInfo ''restoring KV watch''] else []"
    have "adds w ?w2 ?log" using t1 by (simp add: adds_def log_client_def)
    note a = adds_trans [OF this evs(1)]
    show ?thesis
      by (intro conjI exI [of _ "?log @ evs"]) (use r a evs(2) in \<open>auto simp: result_ok_def split: sum.splits\<close>)
  qed
qed

lemma rewatch_all_adds:
  assumes "rewatch_all X c as w = (Returns rs, w')"
  shows "map wr_id rs = map aw_id as \<and> (\<forall>r \<in> set rs. result_ok r) \<and>
    (ctx_stable X \<longrightarrow> (\<forall>r \<in> set rs. wr_err r = None \<longrightarrow> wr_stop r \<noteq> None)) \<and>
    (\<exists>evs. adds w w' evs \<and> started evs \<subseteq> stopped evs \<union> new_watchers rs \<and> new_watchers rs \<subseteq> started evs)"
  using assms
proof (induction as arbitrary: w rs w')
  case Nil
  then show ?case by (auto intro!: exI [of _ "[]"])
next
  case (Cons a as)
  then obtain ctx where ctx: "aw_ctx a = Some ctx" by (cases "aw_ctx a") auto
  obtain r w1 where r: "rewatch X c a ctx w = (r, w1)" by fastforce
  obtain x w2 where x: "rewatch_all X c as w1 = (x, w2)" by fastforce
  from Cons.prems ctx r x obtain rs1 where rs: "x = Returns rs1" "rs = r # rs1" "w' = w2"
    by (cases x) auto
  from rewatch_adds [OF r] obtain e1 where e1: "wr_id r = aw_id a" "result_ok r"
    "ctx_stable X \<and> wr_err r = None \<longrightarrow> wr_stop r \<noteq> None" "adds w w1 e1"
    "started e1 \<subseteq> stopped e1 \<union> new_watchers [r]" "new_watchers [r] \<subseteq> started e1" by blast
  from Cons.IH [OF x [unfolded rs(1)]] obtain e2 where e2: "map wr_id rs1 = map aw_id as" "\<forall>r \<in> set rs1. result_ok r"
    "ctx_stable X \<longrightarrow> (\<forall>r \<in> set rs1. wr_err r = None \<longrightarrow> wr_stop r \<noteq> None)" "adds w1 w2 e2"
    "started e2 \<subseteq> stopped e2 \<union> new_watchers rs1" "new_watchers rs1 \<subseteq> started e2" by blast
  have "started (e1 @ e2) \<subseteq> stopped (e1 @ e2) \<union> new_watchers rs" "new_watchers rs \<subseteq> started (e1 @ e2)"
    using e1(5,6) e2(5,6) by (auto simp: rs(2))
  moreover have "adds w w' (e1 @ e2)" unfolding rs(3) by (rule adds_trans [OF e1(4) e2(4)])
  ultimately have "\<exists>evs. adds w w' evs \<and> started evs \<subseteq> stopped evs \<union> new_watchers rs \<and> new_watchers rs \<subseteq> started evs"
    by blast
  with e1(1-3) e2(1-3) show ?case by (simp add: rs(2))
qed

lemma rewatch_all_returns:
  "\<forall>a \<in> set as. aw_ctx a \<noteq> None \<Longrightarrow> \<exists>rs. fst (rewatch_all X c as w) = Returns rs"
proof (induction as arbitrary: w)
  case (Cons a as)
  then obtain ctx where ctx: "aw_ctx a = Some ctx" by auto
  obtain r w1 where r: "rewatch X c a ctx w = (r, w1)" by fastforce
  obtain x w2 where x: "rewatch_all X c as w1 = (x, w2)" by fastforce
  from Cons.IH [of w1] Cons.prems x obtain rs where "x = Returns rs" by auto
  with ctx r x show ?case by simp
qed simp

text \<open>Adopting, one result at a time.\<close>

lemma adopt_step:
  assumes "adopt_watches X (r # rs) joined c w = (x, c', w')"
  obtains (gone) e w1 where "gomap_get (cl_watches c) (wr_id r) = None" "adds w w1 e" "started e = {}"
      "stopped e = new_watchers [r]" "adopt_watches X rs joined c w1 = (x, c', w')"
  | (adopted) a e w1 where "gomap_get (cl_watches c) (wr_id r) = Some a" "wr_err r = None" "adds w w1 e" "started e = {}"
      "stopped e = set_option (watcher_of (cl_watches c) (wr_id r))"
      "adopt_watches X rs joined (c\<lparr>cl_watches := put_stop (wr_id r) (wr_stop r) (cl_watches c)\<rparr>) w1 = (x, c', w')"
  | (nil) a e where "gomap_get (cl_watches c) (wr_id r) = Some a" "aw_ctx a = None" "wr_err r \<noteq> None"
      "x = Panics nil_dereference" "c' = c" "adds w w' e" "started e = {}"
  | (failed) a j e w1 where "gomap_get (cl_watches c) (wr_id r) = Some a" "wr_err r \<noteq> None" "adds w w1 e" "started e = {}"
      "j \<noteq> None" "adopt_watches X rs j c w1 = (x, c', w')"
  | (dropped) a j e w1 where "gomap_get (cl_watches c) (wr_id r) = Some a" "wr_err r \<noteq> None" "adds w w1 e" "started e = {}"
      "stopped e = set_option (watcher_of (cl_watches c) (wr_id r))" "j \<noteq> None"
      "adopt_watches X rs j (delete_watch (wr_id r) c) w1 = (x, c', w')"
proof (cases "gomap_get (cl_watches c) (wr_id r)")
  case None
  obtain e where "adds w (snd (call_stop X c (wr_stop r) w)) e" "started e = {}" "stopped e = wt_watcher ` set_option (wr_stop r)"
    by (rule call_stop_adds)
  with assms None show thesis by (intro gone) (auto simp: option.set_map)
next
  case a: (Some a)
  have held: "wt_watcher ` set_option (aw_stop a) = set_option (watcher_of (cl_watches c) (wr_id r))"
    by (simp add: watcher_of_def a option.set_map)
  show thesis
  proof (cases "wr_err r")
    case None
    obtain e where "adds w (snd (call_stop X c (aw_stop a) w)) e" "started e = {}" "stopped e = wt_watcher ` set_option (aw_stop a)"
      by (rule call_stop_adds)
    with assms a None held show thesis by (intro adopted [of a]) simp_all
  next
    case (Some err)
    let ?w1 = "report_client c err (log_client c LogError ''failed to restore KV watch'' w)"
    let ?e1 = "(if co_logger (cl_options c) then [EvLog LogError ''failed to restore KV watch''] else []) @
        (case client_sink (cl_options c) of None \<Rightarrow> [] | Some f \<Rightarrow> [EvErrorSink (f err)])"
    have e1: "adds w ?w1 ?e1" "started ?e1 = {}" "stopped ?e1 = {}"
      by (auto simp: adds_def log_client_def report_client_def split: option.split)
    show thesis
    proof (cases "aw_ctx a")
      case None
      with assms a Some e1 show thesis by (intro nil [of a ?e1]) (auto simp: Let_def)
    next
      case ctx: (Some ctx)
      obtain ce w2 where ce: "query (x_ctx_err X ctx) ?w1 = (ce, w2)" by fastforce
      have t: "adds w w2 ?e1" using e1(1) query_trace [OF ce] by (simp add: adds_def)
      let ?j = "errors_join [joined, Some err]"
      show thesis
      proof (cases ce)
        case None
        with assms a Some ctx ce t e1(2) show thesis by (intro failed [of a w2 ?e1 ?j]) (simp_all add: Let_def)
      next
        case over: (Some e)
        obtain e2 where e2: "adds w2 (snd (call_stop X c (aw_stop a) w2)) e2" "started e2 = {}"
          "stopped e2 = wt_watcher ` set_option (aw_stop a)" by (rule call_stop_adds)
        from assms a Some ctx ce over adds_trans [OF t e2(1)] e1(2,3) e2(2,3) held show thesis
          by (intro dropped [of a "snd (call_stop X c (aw_stop a) w2)" "?e1 @ e2" ?j]) (simp_all add: Let_def)
      qed
    qed
  qed
qed

lemma adopt_adds:
  assumes "adopt_watches X rs joined c w = (x, c', w')" and "\<forall>r \<in> set rs. result_ok r"
  shows "\<exists>evs. adds w w' evs \<and> started evs = {} \<and>
    (x \<noteq> Panics nil_dereference \<longrightarrow> watched (cl_watches c) \<union> new_watchers rs \<subseteq> watched (cl_watches c') \<union> stopped evs)"
  using assms
proof (induction rs arbitrary: joined c w)
  case Nil
  then show ?case by (intro exI [of _ "[]"]) simp
next
  case (Cons r rs)
  have next_result: ?case
    if a: "adds w w1 e" "started e = {}" and rest: "adopt_watches X rs j c1 w1 = (x, c', w')"
      and keep: "watched (cl_watches c) \<union> new_watchers [r] \<subseteq> watched (cl_watches c1) \<union> stopped e" for w1 e j c1
  proof -
    from Cons.IH [OF rest] Cons.prems(2) obtain e2 where e2: "adds w1 w' e2" "started e2 = {}"
      "x \<noteq> Panics nil_dereference \<longrightarrow> watched (cl_watches c1) \<union> new_watchers rs \<subseteq> watched (cl_watches c') \<union> stopped e2"
      by auto
    with adds_trans [OF a(1) e2(1)] a(2) keep show ?thesis
      by (intro exI [of _ "e @ e2"]) auto
  qed
  have none: "new_watchers [r] = {}" "wr_stop r = None" if "wr_err r \<noteq> None"
    using Cons.prems(2) that by (simp_all add: result_ok_def)
  from Cons.prems(1) show ?case
  proof (cases rule: adopt_step)
    case (gone e w1)
    then show ?thesis by (intro next_result [OF gone(2,3,5)]) auto
  next
    case (adopted a e w1)
    then show ?thesis
      by (intro next_result [OF adopted(3,4,6)]) (use watched_put [OF adopted(1), of "wr_stop r"] in \<open>auto simp: option.set_map\<close>)
  next
    case (nil a e)
    then show ?thesis by blast
  next
    case (failed a j e w1)
    then show ?thesis by (intro next_result [OF failed(3,4,6)]) (use none(2) [OF failed(2)] in simp)
  next
    case (dropped a j e w1)
    then show ?thesis
      by (intro next_result [OF dropped(3,4,7)])
        (use watched_del [of "cl_watches c" "wr_id r"] none(2) [OF dropped(2)] dropped(5) in \<open>simp add: delete_watch_def\<close>)
  qed
qed

lemma adopt_joined: "adopt_watches X rs joined c w = (Returns None, c', w') \<Longrightarrow> joined = None"
proof (induction rs arbitrary: joined c w)
  case (Cons r rs)
  from Cons.prems show ?case by (cases rule: adopt_step) (use Cons.IH in blast)+
qed simp

lemma adopt_frame:
  assumes "adopt_watches X rs joined c w = (x, c', w')" and "i \<notin> wr_id ` set rs"
  shows "gomap_get (cl_watches c') i = gomap_get (cl_watches c) i"
  using assms
proof (induction rs arbitrary: joined c w)
  case (Cons r rs)
  from Cons.prems(1) show ?case
  proof (cases rule: adopt_step)
    case (adopted a e w1)
    with Cons show ?thesis by (simp add: put_stop_def)
  qed (use Cons in auto)
qed simp

lemma adopt_success:
  assumes "adopt_watches X rs joined c w = (Returns None, c', w')" and "distinct (map wr_id rs)"
    and "r \<in> set rs" and "gomap_get (cl_watches c') (wr_id r) = Some a"
  shows "wr_err r = None \<and> aw_stop a = wr_stop r"
  using assms
proof (induction rs arbitrary: joined c w)
  case (Cons r' rs)
  from Cons.prems(1) show ?case
  proof (cases rule: adopt_step)
    case (gone e w1)
    show ?thesis
    proof (cases "r = r'")
      case True
      with Cons.prems adopt_frame [OF gone(5), of "wr_id r"] gone(1) show ?thesis by simp
    next
      case False
      with Cons.prems Cons.IH [OF gone(5)] show ?thesis by simp
    qed
  next
    case (adopted b e w1)
    show ?thesis
    proof (cases "r = r'")
      case True
      with Cons.prems adopt_frame [OF adopted(6), of "wr_id r"] adopted(1,2) show ?thesis
        by (auto simp: put_stop_def)
    next
      case False
      with Cons.prems Cons.IH [OF adopted(6)] show ?thesis by simp
    qed
  next
    case (failed b j e w1)
    with adopt_joined [OF failed(6)] show ?thesis by simp
  next
    case (dropped b j e w1)
    with adopt_joined [OF dropped(7)] show ?thesis by simp
  qed simp
qed simp

lemma adopt_returns:
  assumes "adopt_watches X rs joined c w = (x, c', w')"
    and "\<forall>r \<in> set rs. \<forall>a. gomap_get (cl_watches c) (wr_id r) = Some a \<longrightarrow> aw_ctx a \<noteq> None"
  shows "\<exists>j. x = Returns j"
  using assms
proof (induction rs arbitrary: joined c w)
  case (Cons r rs)
  from Cons.prems(1) show ?case
  proof (cases rule: adopt_step)
    case (adopted a e w1)
    have "\<forall>s \<in> set rs. \<forall>b. gomap_get (put_stop (wr_id r) (wr_stop r) (cl_watches c)) (wr_id s) = Some b \<longrightarrow> aw_ctx b \<noteq> None"
      using Cons.prems(2) adopted(1) by (auto simp: put_stop_def)
    with Cons.IH [OF adopted(6)] show ?thesis by simp
  qed (use Cons in auto)
qed auto

section \<open>Stopping all\<close>

lemma stop_watches_adds:
  assumes "stop_watches X c ss joined w = (r, w')"
  shows "\<exists>evs. adds w w' evs \<and> started evs = {} \<and> stopped evs = wt_watcher ` set ss"
  using assms
proof (induction ss arbitrary: joined w)
  case Nil
  then show ?case by (intro exI [of _ "[]"]) simp
next
  case (Cons s ss)
  obtain e w1 where s: "stop_watch X (client_store X c) s w = (e, w1)" by fastforce
  then obtain e1 where e1: "adds w w1 e1" "started e1 = {}" "stopped e1 = {wt_watcher s}"
    by (rule stop_watch_adds)
  from Cons.prems s have "stop_watches X c ss (case e of None \<Rightarrow> joined
      | Some err \<Rightarrow> if joined = None then Some err else errors_join [joined, Some err]) w1 = (r, w')" by simp
  from Cons.IH [OF this] obtain e2 where e2: "adds w1 w' e2" "started e2 = {}" "stopped e2 = wt_watcher ` set ss" by blast
  with adds_trans [OF e1(1) e2(1)] e1(2,3) show ?case by (intro exI [of _ "e1 @ e2"]) simp
qed

lemma watch_stops_watched:
  assumes "order_ok ord"
  shows "wt_watcher ` set (watch_stops ord c) = watched (cl_watches c)"
proof -
  let ?f = "\<lambda>i. case gomap_get (cl_watches c) i of None \<Rightarrow> None | Some a \<Rightarrow> aw_stop a"
  have "set (List.map_filter f xs) = {y. \<exists>x \<in> set xs. f x = Some y}" for f :: "u64 \<Rightarrow> watch_stop option" and xs
    by (induction xs) (auto simp: List.map_filter_def)
  then have mem: "set (watch_stops ord c) = {st. \<exists>i \<in> fst ` set (cl_watches c). ?f i = Some st}"
    by (simp add: watch_stops_def order_set [OF assms])
  have dom: "i \<in> fst ` set (cl_watches c)" if "?f i = Some st" for i st
    using that map_of_eq_None_iff [of "cl_watches c" i] by (cases "gomap_get (cl_watches c) i") auto
  have eq: "watcher_of (cl_watches c) i = map_option wt_watcher (?f i)" for i
    by (simp add: watcher_of_def split: option.split)
  have "wt_watcher ` {st. \<exists>i \<in> D. f i = Some st} = {wt. \<exists>i. map_option wt_watcher (f i) = Some wt}"
    if "\<And>i st. f i = Some st \<Longrightarrow> i \<in> D" for f and D :: "u64 set"
    using that by auto
  from this [of ?f "fst ` set (cl_watches c)", OF dom] show ?thesis by (simp only: mem watched_def eq)
qed

lemma stop_all_adds:
  assumes "order_ok ord" and "stop_all_watches X ord c w = (r, c', w')"
  shows "c' = c\<lparr>cl_watches := []\<rparr> \<and>
    (\<exists>evs. adds w w' evs \<and> started evs = {} \<and> stopped evs = watched (cl_watches c))"
proof -
  have "stop_watches X (c\<lparr>cl_watches := []\<rparr>) (watch_stops ord c) None w = (r, w')" and c': "c' = c\<lparr>cl_watches := []\<rparr>"
    using assms(2) by (auto simp: stop_all_watches_def Let_def split: prod.splits)
  from stop_watches_adds [OF this(1)] c' show ?thesis by (simp add: watch_stops_watched [OF assms(1)])
qed

section \<open>The whole restoration\<close>

lemma restore_watches_parts:
  assumes res: "restore_all_watches X ord others c w = (x, c', w')" and ok: "watches_ok c" and ord: "order_ok ord"
  obtains (nil) i a where "x = Panics nil_dereference" "gomap_get (cl_watches c) i = Some a" "aw_ctx a = None"
  | (parts) new c1 w1 rs w2 c2 w3 where "collect_watches X (ord (map fst (cl_watches c))) [] c w = (Returns new, c1, w1)"
      "collected (ord (map fst (cl_watches c))) new c c1" "\<forall>i a. gomap_get (cl_watches c) i = Some a \<longrightarrow> aw_ctx a \<noteq> None"
      "rewatch_all X c1 new w1 = (Returns rs, w2)" "others c1 w2 = (c2, w3)" "adopt_watches X rs None c2 w3 = (x, c', w')"
proof -
  let ?ids = "ord (map fst (cl_watches c))"
  obtain y c1 w1 where col: "collect_watches X ?ids [] c w = (y, c1, w1)" by (metis prod_cases3)
  show thesis
  proof (cases "\<exists>i a. gomap_get (cl_watches c) i = Some a \<and> aw_ctx a = None")
    case True
    then obtain i a where a: "gomap_get (cl_watches c) i = Some a" "aw_ctx a = None" by blast
    then have "i \<in> set ?ids" using order_set [OF ord] map_of_eq_None_iff [of "cl_watches c" i] by simp
    from collect_panics [OF col this a] have "x = Panics nil_dereference" using res col by (simp add: restore_all_watches_def)
    then show thesis using a by (rule nil)
  next
    case False
    obtain new where y: "y = Returns new"
    proof (cases y)
      case (Panics v)
      have "\<exists>i a. gomap_get (cl_watches c) i = Some a \<and> aw_ctx a = None"
        using collect_none [OF col [unfolded Panics] ok] .
      with False show thesis by blast
    qed
    from collect_returns [OF col [unfolded y] ok] have new: "collected ?ids new c c1" by simp
    then have "\<forall>a \<in> set new. aw_ctx a \<noteq> None" using collectedD(2) by blast
    from rewatch_all_returns [OF this] obtain rs w2 where rs: "rewatch_all X c1 new w1 = (Returns rs, w2)"
      by (metis prod.collapse)
    obtain c2 w3 where o: "others c1 w2 = (c2, w3)" by fastforce
    have "adopt_watches X rs None c2 w3 = (x, c', w')"
      using res col y rs o by (simp add: restore_all_watches_def)
    with col y new False rs o show thesis by (intro parts) auto
  qed
qed

lemma restore_watches_accounts:
  assumes res: "restore_all_watches X ord others c w = (Returns r, c', w')" and ok: "watches_ok c"
    and ord: "order_ok ord" and calm: "calm (dom (gomap_get (cl_watches c))) others"
  shows "\<exists>evs. adds w w' evs \<and> watch_accounts (cl_watches c) evs (cl_watches c') \<and>
    (r = None \<and> ctx_stable X \<longrightarrow> (\<forall>i a. gomap_get (cl_watches c) i \<noteq> None \<and> gomap_get (cl_watches c') i = Some a \<longrightarrow>
      (\<exists>st. aw_stop a = Some st \<and> wt_watcher st \<in> started evs)))"
  using res ok ord
proof (cases rule: restore_watches_parts)
  case (parts new c1 w1 rs w2 c2 w3)
  let ?ids = "ord (map fst (cl_watches c))"
  have ids: "distinct ?ids" "set ?ids = dom (gomap_get (cl_watches c))"
    using ok ord by (auto simp: watches_ok_def order_set [OF ord] dom_map_of_conv_image_fst)
      (metis mset_eq_imp_distinct_iff order_ok_def)
  from collect_adds [OF parts(1)] obtain e1 where e1: "adds w w1 e1" "started e1 = {}"
    "watched (cl_watches c) \<subseteq> watched (cl_watches c1) \<union> stopped e1" by blast
  from rewatch_all_adds [OF parts(4)] obtain e2 where rs: "map wr_id rs = map aw_id new" "\<forall>r \<in> set rs. result_ok r"
    "ctx_stable X \<longrightarrow> (\<forall>r \<in> set rs. wr_err r = None \<longrightarrow> wr_stop r \<noteq> None)"
    and e2: "adds w1 w2 e2" "started e2 \<subseteq> stopped e2 \<union> new_watchers rs" "new_watchers rs \<subseteq> started e2" by blast
  from calm parts(5) have same: "\<forall>i \<in> set ?ids. gomap_get (cl_watches c2) i = gomap_get (cl_watches c1) i"
    and "\<exists>evs. adds w2 w3 evs \<and> watch_accounts (cl_watches c1) evs (cl_watches c2)"
    unfolding calm_def ids(2) by blast+
  then obtain e3 where e3: "adds w2 w3 e3" "watch_accounts (cl_watches c1) e3 (cl_watches c2)" by blast
  from adopt_adds [OF parts(6) rs(2)] obtain e4 where e4: "adds w3 w' e4" "started e4 = {}"
    "watched (cl_watches c2) \<union> new_watchers rs \<subseteq> watched (cl_watches c') \<union> stopped e4" by auto
  let ?evs = "e1 @ e2 @ e3 @ e4"
  have "adds w w' ?evs"
    by (rule adds_trans [OF e1(1) adds_trans [OF e2(1) adds_trans [OF e3(1) e4(1)]]])
  moreover have "watch_accounts (cl_watches c) ?evs (cl_watches c')"
    using e1(2,3) e2(2) e3(2) e4(2,3) unfolding watch_accounts_def by auto
  moreover have "\<exists>st. aw_stop a = Some st \<and> wt_watcher st \<in> started ?evs"
    if "r = None" "ctx_stable X" "gomap_get (cl_watches c) i \<noteq> None" "gomap_get (cl_watches c') i = Some a" for i a
  proof -
    have i: "i \<in> set ?ids" using that(3) ids(2) by blast
    have "i \<in> wr_id ` set rs"
    proof (rule ccontr)
      assume n: "i \<notin> wr_id ` set rs"
      with adopt_frame [OF parts(6)] that(4) same i have "gomap_get (cl_watches c1) i = Some a" by simp
      with collectedD(1) [OF parts(2) i] have "a \<in> set new" by simp
      moreover have "aw_id a = i"
        using \<open>gomap_get (cl_watches c1) i = Some a\<close> collect_keeps [OF parts(1) ok] by (simp add: watches_ok_def)
      ultimately have "i \<in> set (map aw_id new)" by auto
      with n show False unfolding rs(1) [symmetric] by auto
    qed
    then obtain s where s: "s \<in> set rs" "wr_id s = i" by auto
    have "distinct (map wr_id rs)" using collectedD(3) [OF parts(2) ids(1)] by (simp add: rs(1))
    from adopt_success [OF parts(6) [unfolded that(1)] this s(1)] s(2) that(4)
    have "wr_err s = None" "aw_stop a = wr_stop s" by simp_all
    moreover from this rs(3) that(2) s(1) obtain st where "wr_stop s = Some st" by blast
    moreover from this s(1) have "wt_watcher st \<in> new_watchers rs" by (auto simp: new_watchers_def)
    ultimately show ?thesis using e2(3) by auto
  qed
  ultimately show ?thesis by blast
qed simp

lemma restore_watches_panics_iff:
  assumes res: "restore_all_watches X ord others c w = (x, c', w')" and ok: "watches_ok c"
    and ord: "order_ok ord" and calm: "calm (dom (gomap_get (cl_watches c))) others"
  shows "x = Panics nil_dereference \<and> (\<exists>i a. gomap_get (cl_watches c) i = Some a \<and> aw_ctx a = None) \<or>
    (\<exists>r. x = Returns r) \<and> (\<forall>i a. gomap_get (cl_watches c) i = Some a \<longrightarrow> aw_ctx a \<noteq> None)"
  using res ok ord
proof (cases rule: restore_watches_parts)
  case (nil i a)
  then show ?thesis by blast
next
  case (parts new c1 w1 rs w2 c2 w3)
  have "\<forall>r \<in> set rs. \<forall>a. gomap_get (cl_watches c2) (wr_id r) = Some a \<longrightarrow> aw_ctx a \<noteq> None"
  proof (intro ballI allI impI)
    fix r a
    assume r: "r \<in> set rs" "gomap_get (cl_watches c2) (wr_id r) = Some a"
    from rewatch_all_adds [OF parts(4)] have "map wr_id rs = map aw_id new" by blast
    with r(1) have "wr_id r \<in> aw_id ` set new" by (metis list.set_map imageI)
    then obtain b where b: "b \<in> set new" "wr_id r = aw_id b" by auto
    from collectedD(2) [OF parts(2) b(1)] have "wr_id r \<in> dom (gomap_get (cl_watches c))" by (auto simp: b(2))
    with calm parts(5) have "gomap_get (cl_watches c2) (wr_id r) = gomap_get (cl_watches c1) (wr_id r)"
      by (auto simp: calm_def)
    with r(2) collect_keeps [OF parts(1) ok] have "gomap_get (cl_watches c) (wr_id r) = Some a" by simp
    with parts(3) show "aw_ctx a \<noteq> None" by blast
  qed
  from adopt_returns [OF parts(6) this] parts(3) show ?thesis by blast
qed

section \<open>Properties\<close>

text \<open>C18: watching a target. On success there is one new intent, for this target, handler and
  context, and it holds the stop function of a watcher that the call has started; on an error no
  intent remains and the error is a public error. In both cases every watcher started meanwhile is
  held by an intent or was stopped, whatever other goroutines do in between, as long as they leave
  this intent alone.\<close>

theorem watch_outcome:
  assumes "client_watch_desired X others mctx target h c w = (r, c', w')"
    and "calm {cl_next_watch c + 1} others" and "watches_ok c" and "watch_ids_left c"
  shows "\<exists>evs. adds w w' evs \<and> watch_accounts (cl_watches c) evs (cl_watches c') \<and>
    (case r of
       Inl err \<Rightarrow> public_err err \<and> gomap_get (cl_watches c') (cl_next_watch c + 1) = None
     | Inr i \<Rightarrow> gomap_get (cl_watches c) i = None \<and> (\<exists>hnd st. h = Some hnd \<and> gomap_get (cl_watches c') i =
           Some \<lparr>aw_id = i, aw_target = target, aw_handler = hnd, aw_stop = Some st, aw_ctx = mctx\<rparr> \<and>
         wt_watcher st \<in> started evs))"
  by (rule client_watch_outcome [OF assms])

lemma sample_watches: "watches_ok sample_client" "watch_ids_left sample_client"
  by (simp_all add: watches_ok_def watch_ids_left_def sample_client_def)

theorem watch_outcome_witness:
  "\<exists>r c' w' evs. client_watch_desired sim_ext Pair (Some CtxBackground) ''dev'' (Some 2) sample_client (sim_world [''ready'']) =
     (r, c', w') \<and> adds (sim_world [''ready'']) w' evs \<and> started evs \<subseteq> watched (cl_watches c') \<union> stopped evs"
proof -
  obtain r c' w' where s: "client_watch_desired sim_ext Pair (Some CtxBackground) ''dev'' (Some 2) sample_client
      (sim_world [''ready'']) = (r, c', w')" by (metis prod_cases3)
  from watch_outcome [OF s calm_nobody sample_watches] s show ?thesis by (auto simp: watch_accounts_def)
qed

text \<open>C19: the stop function that the agent gets removes the intent and stops the watcher the intent
  holds at that moment (the one a reconnect has put there, too); called again it does nothing. Its
  error, unlike every other error of the client, is the store's own, not converted to a public one.\<close>

theorem stop_outcome:
  assumes "stop_desired_watch X i False c w = (r, b, c', w')"
  shows "c' = delete_watch i c \<and> (\<exists>evs. adds w w' evs \<and> started evs = {} \<and>
      stopped evs = set_option (watcher_of (cl_watches c) i)) \<and>
    stop_desired_watch X i b c' w' = (None, True, c', w') \<and> (r \<noteq> None \<longrightarrow> \<not> public_err (the r))"
proof -
  have "\<not> public_err err" if "r = Some err" for err
  proof -
    from assms that obtain st where "call_stop X (delete_watch i c) st w = (Some err, w')"
      by (auto simp: stop_desired_watch_def Let_def split: prod.splits)
    then obtain s where "stop_watch X (client_store X (delete_watch i c)) s w = (Some err, w')"
      by (auto simp: call_stop_def split: option.splits)
    then obtain msg where "err = kv_read_error ''watch_desired_config_stop_timeout'' msg None"
      by (rule stop_watch_adds) blast
    then show ?thesis unfolding kv_read_error_def public_err_def by blast
  qed
  with stop_desired_adds [OF assms] show ?thesis by (auto simp: stop_desired_watch_def)
qed

definition sample_watching :: client where
  "sample_watching = sample_client\<lparr>cl_next_watch := 1, cl_watches := [(1, \<lparr>aw_id = 1, aw_target = ''dev'',
     aw_handler = 2, aw_stop = Some \<lparr>wt_ctx = CtxCancel CtxBackground 3, wt_watcher = 4\<rparr>,
     aw_ctx = Some CtxBackground\<rparr>)]\<rparr>"

theorem stop_outcome_witness:
  "\<exists>r c' w' evs. stop_desired_watch sim_ext 1 False sample_watching (sim_world []) = (r, True, c', w') \<and>
     cl_watches c' = [] \<and> adds (sim_world []) w' evs \<and> stopped evs = {4}"
proof -
  obtain r b c' w' where s: "stop_desired_watch sim_ext 1 False sample_watching (sim_world []) = (r, b, c', w')"
    by (metis prod_cases4)
  have "b" using stop_desired_adds [OF s] by blast
  have "watcher_of (cl_watches sample_watching) 1 = Some 4" by (simp add: watcher_of_def sample_watching_def)
  with stop_outcome [OF s] s \<open>b\<close> show ?thesis by (auto simp: delete_watch_def sample_watching_def)
qed

text \<open>C20: restoring the watches after a reconnect, whatever order the map is read in and whatever other
  goroutines do that leaves these intents alone: every watcher held before or started meanwhile is
  held afterwards or was stopped; and when no error is returned, every intent that remains holds a
  watcher started by this restoration.\<close>

theorem restore_watches_outcome:
  assumes "restore_all_watches X ord others c w = (Returns r, c', w')" and "watches_ok c" and "order_ok ord"
    and "calm (dom (gomap_get (cl_watches c))) others" and "ctx_stable X"
  shows "\<exists>evs. adds w w' evs \<and> watch_accounts (cl_watches c) evs (cl_watches c') \<and>
    (r = None \<longrightarrow> (\<forall>i a. gomap_get (cl_watches c) i \<noteq> None \<and> gomap_get (cl_watches c') i = Some a \<longrightarrow>
      (\<exists>st. aw_stop a = Some st \<and> wt_watcher st \<in> started evs)))"
  using restore_watches_accounts [OF assms(1-4)] assms(5) by blast

lemma sim_ctx_stable: "ctx_stable sim_ext"
  by (simp add: ctx_stable_def sim_ext_simps sim_call_def)

lemma sample_watching_ok: "watches_ok sample_watching"
  by (simp add: watches_ok_def sample_watching_def)

lemma sample_restores: "\<exists>r c' w'. restore_all_watches sim_ext rev Pair sample_watching w = (Returns r, c', w')"
proof -
  obtain x c' w' where s: "restore_all_watches sim_ext rev Pair sample_watching w = (x, c', w')" by (metis prod_cases3)
  have ord: "order_ok (rev :: u64 list \<Rightarrow> u64 list)" by (simp add: order_ok_def)
  from restore_watches_panics_iff [OF s sample_watching_ok ord calm_nobody] s show ?thesis
    by (auto simp: sample_watching_def split: if_splits)
qed

theorem restore_watches_outcome_witness:
  "\<exists>r c' w' evs. restore_all_watches sim_ext rev Pair sample_watching (sim_world []) = (Returns r, c', w') \<and>
     adds (sim_world []) w' evs \<and> 4 \<in> watched (cl_watches c') \<union> stopped evs"
proof -
  obtain r c' w' where s: "restore_all_watches sim_ext rev Pair sample_watching (sim_world []) = (Returns r, c', w')"
    using sample_restores by blast
  have ord: "order_ok (rev :: u64 list \<Rightarrow> u64 list)" by (simp add: order_ok_def)
  have held: "4 \<in> watched (cl_watches sample_watching)"
    unfolding watched_def by (simp add: watcher_of_def sample_watching_def)
  from restore_watches_outcome [OF s sample_watching_ok ord calm_nobody sim_ctx_stable] obtain evs where
    "adds (sim_world []) w' evs" "watch_accounts (cl_watches sample_watching) evs (cl_watches c')"
    by (elim exE conjE) (rule that)
  with s held show ?thesis by (auto simp: watch_accounts_def)
qed

lemma sample_watch_ready:
  "\<exists>x w1. watch_desired_config sim_ext (manager_store sim_ext sample_live) mctx ''dev'' (Some 2) (sim_world []) = (Inr x, w1)"
proof -
  have kv: "ks_key_value (manager_store sim_ext sample_live) = key_value sim_ext sample_live"
    by (simp add: manager_store_def)
  show ?thesis
    by (simp add: watch_desired_config_def sample_key kv sample_key_value query_def perform_def sim_defs emit_def)
qed

lemma sample_watch_starts:
  "\<exists>i c' w'. client_watch_desired sim_ext others mctx ''dev'' (Some 2) sample_client (sim_world []) = (Inr i, c', w')"
proof -
  let ?c1 = "sample_client\<lparr>cl_next_watch := 1, cl_watches := [(1, \<lparr>aw_id = 1, aw_target = ''dev'', aw_handler = 2,
      aw_stop = None, aw_ctx = mctx\<rparr>)]\<rparr>"
  have st: "client_store X ?c1 = manager_store X sample_live" for X :: "'e ext"
    by (simp add: client_store_def sample_client_def)
  obtain x w1 where x: "watch_desired_config sim_ext (manager_store sim_ext sample_live) mctx ''dev'' (Some 2) (sim_world []) = (Inr x, w1)"
    using sample_watch_ready by blast
  obtain c2 w2 where o: "others ?c1 w1 = (c2, w2)" by fastforce
  have i: "cl_next_watch sample_client = 0" "cl_watches sample_client = []" by (simp_all add: sample_client_def)
  have "client_watch_desired sim_ext others mctx ''dev'' (Some 2) sample_client (sim_world []) =
      (Inr 1, c2\<lparr>cl_watches := put_stop 1 (Some x) (cl_watches c2)\<rparr>, w2)"
    using x o by (simp add: client_watch_desired_def i st)
  then show ?thesis by blast
qed

text \<open>C21: a watch may be started with a nil context, which every other operation of the client allows or
  rejects with an error; but from then on, until that watch is stopped, restoring the watches after
  a reconnect dereferences the nil context and panics, in every order of iteration, on a goroutine
  that recovers nothing.\<close>

theorem nil_context_panics:
  assumes "client_watch_desired X Pair None target h c w = (Inr i, c', w')" and "order_ok ord"
    and "watches_ok c" and "watch_ids_left c"
  shows "\<exists>c'' w''. restore_all_watches X ord others c' w2 = (Panics nil_dereference, c'', w'')"
proof -
  from client_watch_outcome [OF assms(1) calm_nobody assms(3,4)] obtain a where
    a: "gomap_get (cl_watches c') i = Some a" "aw_ctx a = None" by auto
  then have i: "i \<in> set (ord (map fst (cl_watches c')))"
    using order_set [OF assms(2)] map_of_eq_None_iff [of "cl_watches c'" i] by simp
  obtain x c1 w1 where col: "collect_watches X (ord (map fst (cl_watches c'))) [] c' w2 = (x, c1, w1)"
    by (metis prod_cases3)
  from collect_panics [OF col i a] col show ?thesis by (simp add: restore_all_watches_def)
qed

theorem nil_context_panics_witness:
  "\<exists>i c' w'. client_watch_desired sim_ext Pair None ''dev'' (Some 2) sample_client (sim_world []) = (Inr i, c', w') \<and>
     (\<exists>c'' w''. restore_all_watches sim_ext rev Pair c' w' = (Panics nil_dereference, c'', w''))"
proof -
  obtain i c' w' where s: "client_watch_desired sim_ext Pair None ''dev'' (Some 2) sample_client (sim_world []) = (Inr i, c', w')"
    using sample_watch_starts by blast
  have ord: "order_ok (rev :: u64 list \<Rightarrow> u64 list)" by (simp add: order_ok_def)
  from nil_context_panics [OF s ord sample_watches] s show ?thesis by blast
qed



end
