(* ===== verification/Client_Dispatch.thy ===== *)
theory Client_Dispatch
  imports Client
begin

text \<open>
  Incoming messages (\<^verbatim>\<open>agentcore/handlers_runtime.go\<close>): the callbacks that are bound to
  subscriptions, decoding and validating what arrives, and calling the agent's handler with its
  panics caught. A callback runs on a goroutine of the NATS client, so the handler context is read
  from the client as it is then, \<open>c'\<close>, which may be later than the client \<open>c\<close> that the callback
  found enabled. A nil message is \<open>None\<close>.
\<close>

section \<open>Decoding\<close>

record nats_msg =
  nm_subject :: string
  nm_data :: bytes

definition decode_payload :: "(bytes \<Rightarrow> gerr + 'm) \<Rightarrow> string \<Rightarrow> bytes \<Rightarrow> gerr + 'm" where
  "decode_payload unmarshal op data =
     (if data = [] then Inl (AgError CodeValidation op [] [] ''payload is required'' False None)
      else (case unmarshal data of
        Inl err \<Rightarrow> Inl (AgError CodeDecodeFailed op [] [] ''failed to decode payload'' False (Some err))
      | Inr msg \<Rightarrow> Inr msg))"

definition decode_configure_notification :: "string \<Rightarrow> bytes \<Rightarrow> gerr + configure_notification" where
  "decode_configure_notification op data =
     (case decode_payload unmarshal_configure_notification op data of
        Inl err \<Rightarrow> Inl err
      | Inr msg \<Rightarrow> (case validate_configure_notification op msg of Some err \<Rightarrow> Inl err | None \<Rightarrow> Inr msg))"

definition decode_action_command :: "string \<Rightarrow> bytes \<Rightarrow> gerr + action_command" where
  "decode_action_command op data =
     (case decode_payload unmarshal_action_command op data of
        Inl err \<Rightarrow> Inl err
      | Inr msg \<Rightarrow> (case validate_action_command op msg of Some err \<Rightarrow> Inl err | None \<Rightarrow> Inr msg))"

definition decode_result_envelope :: "string \<Rightarrow> bytes \<Rightarrow> gerr + result_envelope" where
  "decode_result_envelope op data =
     (case decode_payload unmarshal_result_envelope op data of
        Inl err \<Rightarrow> Inl err
      | Inr msg \<Rightarrow> (case validate_result_envelope op msg of Some err \<Rightarrow> Inl err | None \<Rightarrow> Inr msg))"

definition decode_status_envelope :: "string \<Rightarrow> bytes \<Rightarrow> gerr + status_envelope" where
  "decode_status_envelope op data =
     (case decode_payload unmarshal_status_envelope op data of
        Inl err \<Rightarrow> Inl err
      | Inr msg \<Rightarrow> (case validate_status_envelope op msg of Some err \<Rightarrow> Inl err | None \<Rightarrow> Inr msg))"

section \<open>Calling the handler\<close>

definition handler_panicked :: "string \<Rightarrow> string \<Rightarrow> string \<Rightarrow> gerr" where
  "handler_panicked op msg v = AgError CodeSubscribeFailed op [] [] msg False (Some (ErrText (''panic: '' @ v)))"

definition recovered :: "string \<Rightarrow> string \<Rightarrow> gerr option outcome \<Rightarrow> gerr option" where
  "recovered op msg r = (case r of Returns err \<Rightarrow> err | Panics v \<Rightarrow> Some (handler_panicked op msg v))"

definition call_configure_handler ::
  "'e ext \<Rightarrow> client \<Rightarrow> nat \<Rightarrow> configure_notification \<Rightarrow> 'e world \<Rightarrow> gerr option \<times> 'e world" where
  "call_configure_handler X c h msg w =
     (let ctx = handler_context c; env = MsgConfigure msg;
          (r, w1) = perform (EvHandler h ctx env) (x_handler X h ctx env) w
      in (recovered ''dispatch_configure_handler'' ''configure handler panicked'' r, w1))"

definition call_action_handler ::
  "'e ext \<Rightarrow> client \<Rightarrow> nat \<Rightarrow> action_command \<Rightarrow> 'e world \<Rightarrow> gerr option \<times> 'e world" where
  "call_action_handler X c h msg w =
     (let ctx = handler_context c; env = MsgAction msg;
          (r, w1) = perform (EvHandler h ctx env) (x_handler X h ctx env) w
      in (recovered ''dispatch_action_handler'' ''action handler panicked'' r, w1))"

definition call_result_handler ::
  "'e ext \<Rightarrow> client \<Rightarrow> nat \<Rightarrow> result_envelope \<Rightarrow> 'e world \<Rightarrow> gerr option \<times> 'e world" where
  "call_result_handler X c h msg w =
     (let ctx = handler_context c; env = MsgResult msg;
          (r, w1) = perform (EvHandler h ctx env) (x_handler X h ctx env) w
      in (recovered ''dispatch_result_handler'' ''result handler panicked'' r, w1))"

definition call_status_handler ::
  "'e ext \<Rightarrow> client \<Rightarrow> nat \<Rightarrow> status_envelope \<Rightarrow> 'e world \<Rightarrow> gerr option \<times> 'e world" where
  "call_status_handler X c h msg w =
     (let ctx = handler_context c; env = MsgStatus msg;
          (r, w1) = perform (EvHandler h ctx env) (x_handler X h ctx env) w
      in (recovered ''dispatch_status_handler'' ''status handler panicked'' r, w1))"

section \<open>The callbacks\<close>

definition bind_configure_callback ::
  "'e ext \<Rightarrow> nat \<Rightarrow> client \<Rightarrow> client \<Rightarrow> nats_msg option \<Rightarrow> 'e world \<Rightarrow> 'e world" where
  "bind_configure_callback X h c c' m w =
     (if \<not> cl_callbacks c then w
      else (case m of
        None \<Rightarrow> count_subscribe c kind_configure [] ''decode_failed''
          (log_client c LogWarn ''dropping nil configure message'' w)
      | Some msg \<Rightarrow>
     (case decode_configure_notification ''decode_configure_notification'' (nm_data msg) of
        Inl err \<Rightarrow> count_subscribe c kind_configure (nm_subject msg) ''decode_failed''
          (log_client c LogWarn ''dropping configure message after decode/validate failure'' w)
      | Inr payload \<Rightarrow>
     (let (r, w1) = call_configure_handler X c' h payload w
      in case r of
        Some err \<Rightarrow> count_subscribe c kind_configure (nm_subject msg) ''handler_failed''
          (log_client c LogError ''configure handler returned error'' w1)
      | None \<Rightarrow> emit_if (co_metrics (cl_options c)) (EvObserveHandler kind_configure (nm_subject msg)) w1))))"

definition bind_action_callback ::
  "'e ext \<Rightarrow> nat \<Rightarrow> client \<Rightarrow> client \<Rightarrow> nats_msg option \<Rightarrow> 'e world \<Rightarrow> 'e world" where
  "bind_action_callback X h c c' m w =
     (if \<not> cl_callbacks c then w
      else (case m of
        None \<Rightarrow> count_subscribe c kind_action [] ''decode_failed''
          (log_client c LogWarn ''dropping nil action message'' w)
      | Some msg \<Rightarrow>
     (case decode_action_command ''decode_action_command'' (nm_data msg) of
        Inl err \<Rightarrow> count_subscribe c kind_action (nm_subject msg) ''decode_failed''
          (log_client c LogWarn ''dropping action message after decode/validate failure'' w)
      | Inr payload \<Rightarrow>
     (let (r, w1) = call_action_handler X c' h payload w
      in case r of
        Some err \<Rightarrow> count_subscribe c kind_action (nm_subject msg) ''handler_failed''
          (log_client c LogError ''action handler returned error'' w1)
      | None \<Rightarrow> emit_if (co_metrics (cl_options c)) (EvObserveHandler kind_action (nm_subject msg)) w1))))"

definition bind_result_callback ::
  "'e ext \<Rightarrow> nat \<Rightarrow> client \<Rightarrow> client \<Rightarrow> nats_msg option \<Rightarrow> 'e world \<Rightarrow> 'e world" where
  "bind_result_callback X h c c' m w =
     (if \<not> cl_callbacks c then w
      else (case m of
        None \<Rightarrow> count_subscribe c kind_result [] ''decode_failed''
          (log_client c LogWarn ''dropping nil result message'' w)
      | Some msg \<Rightarrow>
     (case decode_result_envelope ''decode_result_envelope'' (nm_data msg) of
        Inl err \<Rightarrow> count_subscribe c kind_result (nm_subject msg) ''decode_failed''
          (log_client c LogWarn ''dropping result message after decode/validate failure'' w)
      | Inr payload \<Rightarrow>
     (let (r, w1) = call_result_handler X c' h payload w
      in case r of
        Some err \<Rightarrow> count_subscribe c kind_result (nm_subject msg) ''handler_failed''
          (log_client c LogError ''result handler returned error'' w1)
      | None \<Rightarrow> emit_if (co_metrics (cl_options c)) (EvObserveHandler kind_result (nm_subject msg)) w1))))"

definition bind_status_callback ::
  "'e ext \<Rightarrow> nat \<Rightarrow> client \<Rightarrow> client \<Rightarrow> nats_msg option \<Rightarrow> 'e world \<Rightarrow> 'e world" where
  "bind_status_callback X h c c' m w =
     (if \<not> cl_callbacks c then w
      else (case m of
        None \<Rightarrow> count_subscribe c kind_status [] ''decode_failed''
          (log_client c LogWarn ''dropping nil status message'' w)
      | Some msg \<Rightarrow>
     (case decode_status_envelope ''decode_status_envelope'' (nm_data msg) of
        Inl err \<Rightarrow> count_subscribe c kind_status (nm_subject msg) ''decode_failed''
          (log_client c LogWarn ''dropping status message after decode/validate failure'' w)
      | Inr payload \<Rightarrow>
     (let (r, w1) = call_status_handler X c' h payload w
      in case r of
        Some err \<Rightarrow> count_subscribe c kind_status (nm_subject msg) ''handler_failed''
          (log_client c LogError ''status handler returned error'' w1)
      | None \<Rightarrow> emit_if (co_metrics (cl_options c)) (EvObserveHandler kind_status (nm_subject msg)) w1))))"

text \<open>The callback of a registration, by its kind.\<close>

definition dispatch ::
  "'e ext \<Rightarrow> activation_record \<Rightarrow> client \<Rightarrow> client \<Rightarrow> nats_msg option \<Rightarrow> 'e world \<Rightarrow> 'e world" where
  "dispatch X rec =
     (if ar_kind rec = kind_configure then bind_configure_callback X (ar_callback rec)
      else if ar_kind rec = kind_action then bind_action_callback X (ar_callback rec)
      else if ar_kind rec = kind_result then bind_result_callback X (ar_callback rec)
      else bind_status_callback X (ar_callback rec))"

section \<open>The contract of a callback\<close>

text \<open>What one message leads to: the calls of the handler with what they returned, and the reports.\<close>

definition handler_calls :: "event list \<Rightarrow> (nat \<times> gctx \<times> envelope) list" where
  "handler_calls evs = List.map_filter
     (\<lambda>ev. case ev of EvHandler h ctx env r \<Rightarrow> Some (h, ctx, env) | _ \<Rightarrow> None) evs"

definition dispatch_report :: "string \<Rightarrow> string \<Rightarrow> event \<Rightarrow> bool" where
  "dispatch_report k subject ev \<longleftrightarrow> (\<exists>level msg. ev = EvLog level msg) \<or>
     (\<exists>res. ev = EvIncSubscribe k subject res) \<or> ev = EvObserveHandler k subject"

definition dispatched ::
  "bool \<Rightarrow> string \<Rightarrow> string \<Rightarrow> nat \<Rightarrow> gctx \<Rightarrow> envelope option \<Rightarrow> event list \<Rightarrow> bool" where
  "dispatched metrics k subject h ctx m evs \<longleftrightarrow>
     (case m of
        None \<Rightarrow> (\<forall>ev \<in> set evs. dispatch_report k subject ev) \<and>
          (metrics \<longrightarrow> EvIncSubscribe k subject ''decode_failed'' \<in> set evs)
      | Some env \<Rightarrow> (\<exists>r reports. evs = EvHandler h ctx env r # reports \<and>
          (\<forall>ev \<in> set reports. dispatch_report k subject ev) \<and>
          (metrics \<longrightarrow> (if r = Returns None then EvObserveHandler k subject
             else EvIncSubscribe k subject ''handler_failed'') \<in> set reports)))"

locale message_callback =
  fixes kind :: string
    and decode :: "bytes \<Rightarrow> gerr + 'm" and wrap :: "'m \<Rightarrow> envelope"
    and call :: "client \<Rightarrow> nat \<Rightarrow> 'm \<Rightarrow> 'e world \<Rightarrow> gerr option \<times> 'e world"
    and callback :: "nat \<Rightarrow> client \<Rightarrow> client \<Rightarrow> nats_msg option \<Rightarrow> 'e world \<Rightarrow> 'e world"
  assumes disabled: "\<not> cl_callbacks c \<Longrightarrow> callback h c c' m w = w"
    and missing: "cl_callbacks c \<Longrightarrow> \<exists>t. callback h c c' None w =
      count_subscribe c kind [] ''decode_failed'' (log_client c LogWarn t w)"
    and undecodable: "cl_callbacks c \<Longrightarrow> decode (nm_data msg) = Inl err \<Longrightarrow> \<exists>t. callback h c c' (Some msg) w =
      count_subscribe c kind (nm_subject msg) ''decode_failed'' (log_client c LogWarn t w)"
    and handled: "cl_callbacks c \<Longrightarrow> decode (nm_data msg) = Inr p \<Longrightarrow> call c' h p w = (None, w') \<Longrightarrow>
      callback h c c' (Some msg) w =
        emit_if (co_metrics (cl_options c)) (EvObserveHandler kind (nm_subject msg)) w'"
    and handler_failed: "cl_callbacks c \<Longrightarrow> decode (nm_data msg) = Inr p \<Longrightarrow> call c' h p w = (Some err, w') \<Longrightarrow>
      \<exists>t. callback h c c' (Some msg) w =
        count_subscribe c kind (nm_subject msg) ''handler_failed'' (log_client c LogError t w')"
    and called: "call c' h p w = (r, w') \<Longrightarrow> \<exists>x. adds w w' [EvHandler h (handler_context c') (wrap p) x] \<and>
      (r = None \<longleftrightarrow> x = Returns None)"
begin

lemma callback_adds:
  assumes "cl_callbacks c"
  shows "\<exists>evs. adds w (callback h c c' m w) evs \<and>
    dispatched (co_metrics (cl_options c)) kind (case m of None \<Rightarrow> [] | Some msg \<Rightarrow> nm_subject msg) h
      (handler_context c')
      (case m of None \<Rightarrow> None | Some msg \<Rightarrow> (case decode (nm_data msg) of Inl _ \<Rightarrow> None | Inr p \<Rightarrow> Some (wrap p))) evs"
proof (cases m)
  case None
  from missing [OF assms] obtain t where t: "callback h c c' None w =
      count_subscribe c kind [] ''decode_failed'' (log_client c LogWarn t w)" by blast
  show ?thesis unfolding None t
    by (rule exI, rule conjI, rule addsI)
      (auto simp: log_client_def count_subscribe_def dispatched_def dispatch_report_def)
next
  case msg: (Some msg)
  show ?thesis
  proof (cases "decode (nm_data msg)")
    case (Inl err)
    from undecodable [OF assms Inl] obtain t where t: "callback h c c' (Some msg) w =
        count_subscribe c kind (nm_subject msg) ''decode_failed'' (log_client c LogWarn t w)" by blast
    show ?thesis unfolding msg t
      by (rule exI, rule conjI, rule addsI)
        (auto simp: log_client_def count_subscribe_def dispatched_def dispatch_report_def Inl)
  next
    case (Inr p)
    obtain r w1 where r: "call c' h p w = (r, w1)" by fastforce
    from called [OF r] obtain x where x: "adds w w1 [EvHandler h (handler_context c') (wrap p) x]"
      "r = None \<longleftrightarrow> x = Returns None" by blast
    show ?thesis
    proof (cases r)
      case None
      have e: "callback h c c' (Some msg) w =
          emit_if (co_metrics (cl_options c)) (EvObserveHandler kind (nm_subject msg)) w1"
        by (rule handled [OF assms Inr r [unfolded None]])
      show ?thesis unfolding msg e
        by (rule exI, rule conjI, rule adds_trans [OF x(1)], rule addsI)
          (use x None Inr in \<open>auto simp: dispatched_def dispatch_report_def\<close>)
    next
      case (Some err)
      from handler_failed [OF assms Inr r [unfolded Some]] obtain t where t: "callback h c c' (Some msg) w =
          count_subscribe c kind (nm_subject msg) ''handler_failed'' (log_client c LogError t w1)" by blast
      show ?thesis unfolding msg t
        by (rule exI, rule conjI, rule adds_trans [OF x(1)], rule addsI)
          (use x Some Inr in \<open>auto simp: log_client_def count_subscribe_def dispatched_def dispatch_report_def\<close>)
    qed
  qed
qed

end

lemma recovered_None [simp]: "recovered op msg r = None \<longleftrightarrow> r = Returns None"
  by (simp add: recovered_def split: outcome.split)

lemmas call_handler_defs =
  call_configure_handler_def call_action_handler_def call_result_handler_def call_status_handler_def

lemma performed_handler:
  "(let (r, w1) = perform (EvHandler h ctx env) f w in (recovered op msg r, w1)) = (x, w') \<Longrightarrow>
   \<exists>r. adds w w' [EvHandler h ctx env r] \<and> (x = None \<longleftrightarrow> r = Returns None)"
  by (auto simp: adds_def split: prod.splits dest: perform_trace)

interpretation configure_callback: message_callback kind_configure "decode_configure_notification ''decode_configure_notification''"
  MsgConfigure "call_configure_handler X" "bind_configure_callback X" for X :: "'e ext"
proof (unfold_locales, goal_cases)
  case (6 c' h p w r w')
  then show ?case unfolding call_configure_handler_def Let_def [of "handler_context c'"] Let_def [of "MsgConfigure p"]
    by (rule performed_handler)
qed (auto simp: bind_configure_callback_def)

interpretation action_callback: message_callback kind_action "decode_action_command ''decode_action_command''"
  MsgAction "call_action_handler X" "bind_action_callback X" for X :: "'e ext"
proof (unfold_locales, goal_cases)
  case (6 c' h p w r w')
  then show ?case unfolding call_action_handler_def Let_def [of "handler_context c'"] Let_def [of "MsgAction p"]
    by (rule performed_handler)
qed (auto simp: bind_action_callback_def)

interpretation result_callback: message_callback kind_result "decode_result_envelope ''decode_result_envelope''"
  MsgResult "call_result_handler X" "bind_result_callback X" for X :: "'e ext"
proof (unfold_locales, goal_cases)
  case (6 c' h p w r w')
  then show ?case unfolding call_result_handler_def Let_def [of "handler_context c'"] Let_def [of "MsgResult p"]
    by (rule performed_handler)
qed (auto simp: bind_result_callback_def)

interpretation status_callback: message_callback kind_status "decode_status_envelope ''decode_status_envelope''"
  MsgStatus "call_status_handler X" "bind_status_callback X" for X :: "'e ext"
proof (unfold_locales, goal_cases)
  case (6 c' h p w r w')
  then show ?case unfolding call_status_handler_def Let_def [of "handler_context c'"] Let_def [of "MsgStatus p"]
    by (rule performed_handler)
qed (auto simp: bind_status_callback_def)

section \<open>Properties\<close>

text \<open>The message a payload carries: the decoding into the struct of the kind, if it is valid.\<close>

definition carried :: "kind \<Rightarrow> bytes \<Rightarrow> envelope option" where
  "carried k data =
     (if k = kind_configure then
        (case unmarshal_configure_notification data of Inl _ \<Rightarrow> None | Inr m \<Rightarrow>
          if validate_configure_notification ''decode_configure_notification'' m = None then Some (MsgConfigure m) else None)
      else if k = kind_action then
        (case unmarshal_action_command data of Inl _ \<Rightarrow> None | Inr m \<Rightarrow>
          if validate_action_command ''decode_action_command'' m = None then Some (MsgAction m) else None)
      else if k = kind_result then
        (case unmarshal_result_envelope data of Inl _ \<Rightarrow> None | Inr m \<Rightarrow>
          if validate_result_envelope ''decode_result_envelope'' m = None then Some (MsgResult m) else None)
      else
        (case unmarshal_status_envelope data of Inl _ \<Rightarrow> None | Inr m \<Rightarrow>
          if validate_status_envelope ''decode_status_envelope'' m = None then Some (MsgStatus m) else None))"

lemma unmarshal_empty: "\<exists>err. unmarshal_struct f names m [] = Inl err"
  using json_valid_nonempty by (auto simp: unmarshal_struct_def)

lemma decode_payload_eq:
  "unmarshal = unmarshal_struct f names z \<Longrightarrow> decode_payload unmarshal op data =
     (case unmarshal data of Inr m \<Rightarrow> Inr m | Inl err \<Rightarrow> Inl (if data = []
        then AgError CodeValidation op [] [] ''payload is required'' False None
        else AgError CodeDecodeFailed op [] [] ''failed to decode payload'' False (Some err)))"
  using unmarshal_empty [of f names z] by (auto simp: decode_payload_def split: sum.splits)

lemma decode_payload_cases:
  assumes "unmarshal = unmarshal_struct f names z"
  shows "(case (case decode_payload unmarshal op data of Inl err \<Rightarrow> Inl err | Inr msg \<Rightarrow>
      (case check msg of Some err \<Rightarrow> Inl err | None \<Rightarrow> Inr msg)) of Inl (_ :: gerr) \<Rightarrow> None | Inr p \<Rightarrow> Some (wrap p)) =
    (case unmarshal data of Inl _ \<Rightarrow> None | Inr m \<Rightarrow> if check m = None then Some (wrap m) else None)"
  unfolding decode_payload_eq [OF assms] by (auto split: sum.splits option.splits)

lemma carried_decode:
  "carried kind_configure data = (case decode_configure_notification ''decode_configure_notification'' data of
     Inl _ \<Rightarrow> None | Inr p \<Rightarrow> Some (MsgConfigure p))"
  "carried kind_action data = (case decode_action_command ''decode_action_command'' data of
     Inl _ \<Rightarrow> None | Inr p \<Rightarrow> Some (MsgAction p))"
  "carried kind_result data = (case decode_result_envelope ''decode_result_envelope'' data of
     Inl _ \<Rightarrow> None | Inr p \<Rightarrow> Some (MsgResult p))"
  "carried kind_status data = (case decode_status_envelope ''decode_status_envelope'' data of
     Inl _ \<Rightarrow> None | Inr p \<Rightarrow> Some (MsgStatus p))"
  unfolding decode_configure_notification_def decode_action_command_def decode_result_envelope_def
    decode_status_envelope_def
    decode_payload_cases [OF ext [OF unmarshal_configure_notification_def]]
    decode_payload_cases [OF ext [OF unmarshal_action_command_def]]
    decode_payload_cases [OF ext [OF unmarshal_result_envelope_def]]
    decode_payload_cases [OF ext [OF unmarshal_status_envelope_def]]
  by (simp_all add: carried_def kind_defs)

text \<open>C17: a message that arrives on the subscription of a registration. While callbacks are disabled
  it is dropped without a trace. Otherwise the registration's own handler is called exactly once,
  with the handler context of the moment and the message its payload carries, when the payload
  decodes and is valid; and not at all when it does not. Apart from that call there are only
  reports about this subject: a failed or panicking handler and an undecodable message are counted,
  and a panic of the handler never leaves the callback.\<close>

theorem dispatch_outcome:
  assumes "ar_kind rec \<in> {kind_configure, kind_action, kind_result, kind_status}"
  shows "if cl_callbacks c
    then \<exists>evs. adds w (dispatch X rec c c' m w) evs \<and>
      dispatched (co_metrics (cl_options c)) (ar_kind rec) (case m of None \<Rightarrow> [] | Some msg \<Rightarrow> nm_subject msg)
        (ar_callback rec) (handler_context c') (case m of None \<Rightarrow> None | Some msg \<Rightarrow> carried (ar_kind rec) (nm_data msg)) evs
    else dispatch X rec c c' m w = w"
proof (cases "cl_callbacks c")
  case False
  then show ?thesis
    by (simp add: dispatch_def configure_callback.disabled action_callback.disabled result_callback.disabled
        status_callback.disabled)
next
  case True
  consider "ar_kind rec = kind_configure" | "ar_kind rec = kind_action" | "ar_kind rec = kind_result"
    | "ar_kind rec = kind_status" using assms by blast
  then show ?thesis
  proof cases
    case 1
    then have "dispatch X rec = bind_configure_callback X (ar_callback rec)" by (simp add: dispatch_def kind_defs)
    with 1 configure_callback.callback_adds [OF True] True show ?thesis
      by (simp add: carried_decode cong: option.case_cong)
  next
    case 2
    then have "dispatch X rec = bind_action_callback X (ar_callback rec)" by (simp add: dispatch_def kind_defs)
    with 2 action_callback.callback_adds [OF True] True show ?thesis
      by (simp add: carried_decode cong: option.case_cong)
  next
    case 3
    then have "dispatch X rec = bind_result_callback X (ar_callback rec)" by (simp add: dispatch_def kind_defs)
    with 3 result_callback.callback_adds [OF True] True show ?thesis
      by (simp add: carried_decode cong: option.case_cong)
  next
    case 4
    then have "dispatch X rec = bind_status_callback X (ar_callback rec)" by (simp add: dispatch_def kind_defs)
    with 4 status_callback.callback_adds [OF True] True show ?thesis
      by (simp add: carried_decode cong: option.case_cong)
  qed
qed

text \<open>A registration for an action.\<close>

definition sample_action_record :: activation_record where
  "sample_action_record = \<lparr>ar_id = ''sub-1'', ar_kind = kind_action, ar_subject = ''cmd.action.dev.reboot'',
     ar_queue_group = [], ar_callback = 5, ar_active_sub = Some 1, ar_active = True\<rparr>"

theorem dispatch_outcome_witness:
  "\<exists>evs. adds (sim_world []) (dispatch sim_ext sample_action_record sample_client sample_client
      (Some \<lparr>nm_subject = ''cmd.action.dev.reboot'', nm_data = ''{''\<rparr>) (sim_world [])) evs \<and>
    EvIncSubscribe kind_action ''cmd.action.dev.reboot'' ''decode_failed'' \<in> set evs"
proof -
  have "\<not> json_valid ''{''" by code_simp
  then have none: "carried kind_action ''{'' = None"
    unfolding carried_def by (simp add: kind_defs unmarshal_action_command_def unmarshal_struct_def)
  have "cl_callbacks sample_client" "co_metrics (cl_options sample_client)" by (simp_all add: sample_client_def)
  with dispatch_outcome [of sample_action_record sample_client "sim_world []" sim_ext sample_client
      "Some \<lparr>nm_subject = ''cmd.action.dev.reboot'', nm_data = ''{''\<rparr>"] none
  show ?thesis by (auto simp: sample_action_record_def dispatched_def)
qed

end
