(* ===== verification/Client_Lifecycle.thy ===== *)
theory Client_Lifecycle
  imports Subscription_Restore Watch_Restore Client_Dispatch
begin

text \<open>
  The lifecycle of the facade: \<^verbatim>\<open>Start\<close> and \<^verbatim>\<open>Close\<close> (\<^verbatim>\<open>agentcore/client.go\<close>), the session hooks
  \<^verbatim>\<open>onSessionReconnected\<close>, \<^verbatim>\<open>onSessionDisconnected\<close>, \<^verbatim>\<open>onSessionClosed\<close> (\<^verbatim>\<open>agentcore/handlers_runtime.go\<close>),
  and the callbacks of the NATS client, which run the session's part and then the hook. \<open>ord\<close> and
  \<open>word\<close> are the orders in which the maps of registrations and of watches are read.
\<close>

section \<open>Start and Close\<close>

definition with_session :: "manager \<Rightarrow> client \<Rightarrow> client" where
  "with_session m c = c\<lparr>cl_session := m\<rparr>"

definition report_cleanup :: "client \<Rightarrow> string \<Rightarrow> gerr option \<Rightarrow> 'e world \<Rightarrow> 'e world" where
  "report_cleanup c msg r w =
     (case r of None \<Rightarrow> w | Some err \<Rightarrow> report_client c err (log_client c LogWarn msg w))"

definition client_start ::
  "'e ext \<Rightarrow> (string list \<Rightarrow> string list) \<Rightarrow> gctx option \<Rightarrow> client \<Rightarrow> 'e world \<Rightarrow> gerr option \<times> client \<times> 'e world" where
  "client_start X ord mctx c w =
     (let (r, m, w1) = mgr_start X mctx (cl_session c) w; c1 = with_session m c
      in case r of
        Some err \<Rightarrow> (Some (public_error err), c1, w1)
      | None \<Rightarrow>
     (let (a, c2, w2) = activate_all X ord ''start'' c1 w1
      in case a of
        Some err \<Rightarrow>
          (let (c3, w3) = cancel_handler_context (c2\<lparr>cl_callbacks := False\<rparr>) w2;
               (d, c4, w4) = deactivate_all X ord ''start_activation_cleanup'' c3 w3
           in (Some err, c4, report_cleanup c4
                 ''failed to cleanup subscriptions after start activation failure'' d w4))
      | None \<Rightarrow>
          (let (c3, w3) = ensure_handler_context X c2 w2 in (None, c3\<lparr>cl_callbacks := True\<rparr>, w3))))"

definition close_failed :: "gerr option \<Rightarrow> gerr" where
  "close_failed joined = AgError CodeShutdown ''close'' [] [] ''client close operation encountered errors'' False joined"

definition client_close ::
  "'e ext \<Rightarrow> (string list \<Rightarrow> string list) \<Rightarrow> (u64 list \<Rightarrow> u64 list) \<Rightarrow>
   (nat \<Rightarrow> manager \<Rightarrow> 'e world \<Rightarrow> (manager \<times> 'e world) option) \<Rightarrow> gctx option \<Rightarrow>
   client \<Rightarrow> 'e world \<Rightarrow> gerr option \<times> client \<times> 'e world" where
  "client_close X ord word others mctx c w =
     (let (c1, w1) = cancel_handler_context (c\<lparr>cl_callbacks := False\<rparr>) w;
          (sub_err, c2, w2) = deactivate_all X ord ''close'' c1 w1;
          (watch_err, c3, w3) = stop_all_watches X word c2 w2;
          (err, m, w4) = mgr_close X others mctx (cl_session c3) w3;
          session_err = to_public_error err;
          c4 = with_session m c3
      in (if sub_err \<noteq> None \<or> watch_err \<noteq> None \<or> session_err \<noteq> None
          then Some (close_failed (errors_join [sub_err, watch_err, session_err])) else None, c4, w4))"

section \<open>The hooks of the session\<close>

text \<open>A handler of the agent, its panic recovered, logged and reported.\<close>

definition call_hook :: "'e ext \<Rightarrow> client \<Rightarrow> string \<Rightarrow> 'e world \<Rightarrow> 'e world" where
  "call_hook X c name w =
     (let (r, w1) = perform (EvHook name) (x_hook X name) w
      in case r of
           Returns _ \<Rightarrow> w1
         | Panics v \<Rightarrow> report_client c (ErrText (name @ '' handler panicked: '' @ v))
             (log_client c LogError (name @ '' handler panicked'') w1))"

definition on_session_reconnected ::
  "'e ext \<Rightarrow> (string list \<Rightarrow> string list) \<Rightarrow> (u64 list \<Rightarrow> u64 list) \<Rightarrow>
   (client \<Rightarrow> 'e world \<Rightarrow> client \<times> 'e world) \<Rightarrow> client \<Rightarrow> 'e world \<Rightarrow> unit outcome \<times> client \<times> 'e world" where
  "on_session_reconnected X ord word others c w =
     (if \<not> cl_callbacks c then (Returns (), c, w)
      else
     (let w1 = log_client c LogInfo ''restoring subscriptions after reconnect'' w;
          (r, c1, w2) = restore_all X ord c w1
      in case r of
        Some err \<Rightarrow> (Returns (), c1, report_client c1 err (log_client c1 LogError ''subscription restore failed'' w2))
      | None \<Rightarrow>
     (let w3 = log_client c1 LogInfo ''restoring active KV watches after reconnect''
                 (log_client c1 LogInfo ''subscription restore completed'' w2);
          (x, c2, w4) = restore_all_watches X word others c1 w3
      in case x of
        Panics v \<Rightarrow> (Panics v, c2, w4)
      | Returns (Some err) \<Rightarrow> (Returns (), c2, report_client c2 err (log_client c2 LogError ''KV watches restore failed'' w4))
      | Returns None \<Rightarrow>
          (let w5 = log_client c2 LogInfo ''KV watches restore completed'' w4
           in (Returns (), c2, if co_reconnect_handler (cl_options c2) then call_hook X c2 ''reconnect'' w5 else w5)))))"

definition on_session_disconnected :: "'e ext \<Rightarrow> client \<Rightarrow> 'e world \<Rightarrow> 'e world" where
  "on_session_disconnected X c w =
     (if \<not> cl_callbacks c then w
      else (let w1 = log_client c LogWarn ''session disconnected'' w
            in if co_disconnect_handler (cl_options c) then call_hook X c ''disconnect'' w1 else w1))"

definition on_session_closed ::
  "'e ext \<Rightarrow> (string list \<Rightarrow> string list) \<Rightarrow> client \<Rightarrow> 'e world \<Rightarrow> client \<times> 'e world" where
  "on_session_closed X ord c w =
     (let (c1, w1) = cancel_handler_context (c\<lparr>cl_callbacks := False\<rparr>) w;
          (r, c2, w2) = deactivate_all X ord ''session_closed'' c1 w1
      in (c2, report_cleanup c2 ''failed to clear active subscriptions after session closed'' r w2))"

section \<open>The callbacks of the NATS client\<close>

definition nats_disconnected :: "'e ext \<Rightarrow> gerr option \<Rightarrow> client \<Rightarrow> 'e world \<Rightarrow> client \<times> 'e world" where
  "nats_disconnected X err c w =
     (if m_closing (cl_session c) then (c, w)
      else (let (call, m, w1) = on_disconnect err (cl_session c) w;
                c1 = with_session m c;
                w2 = (if call then on_session_disconnected X c1 w1 else w1)
            in (c1, disconnect_report err m w2)))"

definition nats_closed ::
  "'e ext \<Rightarrow> (string list \<Rightarrow> string list) \<Rightarrow> client \<Rightarrow> 'e world \<Rightarrow> client \<times> 'e world" where
  "nats_closed X ord c w =
     (let (call, m, w1) = on_closed (cl_session c) w; c1 = with_session m c
      in if call then on_session_closed X ord c1 w1 else (c1, w1))"

definition nats_reconnected ::
  "'e ext \<Rightarrow> (string list \<Rightarrow> string list) \<Rightarrow> (u64 list \<Rightarrow> u64 list) \<Rightarrow>
   (client \<Rightarrow> 'e world \<Rightarrow> client \<times> 'e world) \<Rightarrow> conn \<Rightarrow> client \<Rightarrow> 'e world \<Rightarrow> unit outcome \<times> client \<times> 'e world" where
  "nats_reconnected X ord word others nc c w =
     (if \<not> on_reconnect (cl_session c) then (Returns (), c, w)
      else (let (call, m, w1) = rebind_after_reconnect X nc (cl_session c) w;
                c1 = with_session m c
            in if call then on_session_reconnected X ord word others c1 w1 else (Returns (), c1, w1)))"

section \<open>What the session's operations keep of the client\<close>

text \<open>The effective configuration, the counters and the invariant of the session.\<close>

definition keeps :: "manager \<Rightarrow> manager \<Rightarrow> bool" where
  "keeps m m' \<longleftrightarrow> m_effective m' = m_effective m \<and> hs_registered (m_health m') = hs_registered (m_health m) \<and>
     hs_active (m_health m') = hs_active (m_health m) \<and> (mgr_ok m \<longrightarrow> mgr_ok m')"

text \<open>No start and no close in progress: how every operation that runs alone finds and leaves the session.\<close>

definition idle :: "manager \<Rightarrow> bool" where
  "idle m \<longleftrightarrow> \<not> m_starting m \<and> m_start_done m = None \<and> \<not> m_closing m \<and> \<not> m_close_requested m"

lemma keeps_refl [simp]: "keeps m m"
  by (simp add: keeps_def)

lemma keeps_trans: "keeps m m1 \<Longrightarrow> keeps m1 m2 \<Longrightarrow> keeps m m2"
  by (simp add: keeps_def)

lemma show_error_counts [simp]:
  "hs_registered (show_error e h) = hs_registered h" "hs_active (show_error e h) = hs_active h"
  by (simp_all add: show_error_def split: option.split)

lemma keeps_locked:
  "start_begin X m w = (d, m', w') \<Longrightarrow> keeps m m'"
  "start_fail f m w = (m', w') \<Longrightarrow> keeps m m'"
  "start_commit X nc js kv m w = (r, m', w') \<Longrightarrow> keeps m m'"
  "m_start_done m = Some ch \<Longrightarrow> start_defer ch m w = (m', w') \<Longrightarrow> keeps m m'"
  "close_begin m w = (cd, m', w') \<Longrightarrow> keeps m m'"
  "close_finish e m w = (r, m', w') \<Longrightarrow> keeps m m'"
  "on_disconnect e m w = (b, m', w') \<Longrightarrow> keeps m m'"
  "on_closed m w = (b, m', w') \<Longrightarrow> keeps m m'"
  "rebind_after_reconnect X nc m w = (b, m', w') \<Longrightarrow> keeps m m'"
  unfolding keeps_def
  subgoal using start_begin_ok [of m X w d m' w'] by (auto simp: start_begin_def health_defs Let_def split: if_splits option.splits prod.splits)
  subgoal using start_fail_ok [of m f w m' w'] by (auto simp: start_fail_def health_defs)
  subgoal using start_commit_ok [of m X nc js kv w r m' w'] by (auto simp: start_commit_def health_defs Let_def split: if_splits prod.splits)
  subgoal using start_defer_ok [of m ch w m' w'] by (auto simp: start_defer_def health_defs Let_def split: if_splits)
  subgoal using close_begin_ok [of m w cd m' w'] by (auto simp: close_begin_def health_defs split: if_splits)
  subgoal using close_finish_ok [of m e w r m' w'] by (auto simp: close_finish_def health_defs)
  subgoal using on_disconnect_ok [of m e w b m' w'] by (auto simp: on_disconnect_def health_defs split: if_splits)
  subgoal using on_closed_ok [of m w b m' w'] by (auto simp: on_closed_def health_defs)
  subgoal using rebind_after_reconnect_ok [of m X nc w b m' w']
    by (auto simp: rebind_after_reconnect_def rebind_commit_def health_defs Let_def split: if_splits prod.splits sum.splits)
  done

lemma mgr_start_keeps:
  assumes "mgr_start X mctx m w = (r, m', w')" and "idle m"
  shows "keeps m m' \<and> idle m'"
proof -
  define ctx where "ctx = (case mctx of None \<Rightarrow> CtxBackground | Some c \<Rightarrow> c)"
  obtain ce w1 where ce: "query (x_ctx_err X ctx) w = (ce, w1)" by fastforce
  obtain d m1 w2 where b: "start_begin X m w1 = (d, m1, w2)" by (metis prod_cases3)
  note k1 = keeps_locked(1) [OF b]
  show ?thesis
  proof (cases "\<exists>ch. ce = None \<and> d = StartProceed ch")
    case False
    then have "m' = m \<or> m' = m1 \<and> (\<forall>ch. d \<noteq> StartProceed ch)"
      using assms(1) ce b by (auto simp: mgr_start_def ctx_def [symmetric] Let_def split: option.splits start_decision.splits)
    moreover from b have "(\<forall>ch. d \<noteq> StartProceed ch) \<Longrightarrow> m1 = m"
      by (cases rule: start_begin_cases) simp_all
    ultimately show ?thesis using assms(2) by auto
  next
    case True
    then obtain ch where d: "ce = None" "d = StartProceed ch" by blast
    from b d(2) have m1: "m_start_done m1 = Some ch" "\<not> m_closing m1" "\<not> m_close_requested m1"
      using assms(2) by (cases rule: start_begin_cases; simp add: idle_def)+
    obtain s w3 where s: "start_setup X (m_effective m1) ctx w2 = (s, w3)" by fastforce
    obtain r2 m2 w4 where m2: "(case s of Inl f \<Rightarrow> (let (m', w') = start_fail f m1 w3 in (Some (sf_error f), m', w'))
        | Inr (nc, js, kv) \<Rightarrow> start_commit X nc js kv m1 w3) = (r2, m2, w4)"
      by (rule prod_cases3)
    obtain m3 w5 where m3: "start_defer ch m2 w4 = (m3, w5)" by fastforce
    have m': "m' = m3" using assms(1) ce b d s m2 m3 by (simp add: mgr_start_def ctx_def [symmetric] Let_def)
    have k2: "keeps m1 m2 \<and> m_start_done m2 = Some ch \<and> \<not> m_closing m2 \<and> \<not> m_close_requested m2"
    proof (cases s)
      case (Inl f)
      with m2 have "start_fail f m1 w3 = (m2, w4)" by (auto split: prod.splits)
      with keeps_locked(2) [OF this] start_fail_effect [OF this] m1 show ?thesis by simp
    next
      case (Inr h)
      then obtain nc js kv where "start_commit X nc js kv m1 w3 = (r2, m2, w4)" using m2 by (cases h) auto
      moreover from this obtain url where "m2 = m1\<lparr>m_nc := Some nc, m_js := Some js, m_kv := Some kv, m_health := (m_health m1)
         \<lparr>hs_connected_url := url, hs_jetstream_ready := True, hs_kv_ready := True,
          hs_last_error := [], hs_state := StateConnected\<rparr>\<rparr>"
        by (rule start_commit_quiet [OF _ m1(2,3)])
      ultimately show ?thesis using keeps_locked(3) m1 by fastforce
    qed
    then have "m3 = m2\<lparr>m_start_done := None, m_starting := False\<rparr>"
      using start_defer_quiet [OF m3] by blast
    then have "idle m3" using k2 by (simp add: idle_def)
    moreover have "keeps m m3"
      by (rule keeps_trans [OF k1 keeps_trans [OF conjunct1 [OF k2] keeps_locked(4) [OF _ m3]]]) (use k2 in simp)
    ultimately show ?thesis by (simp add: m')
  qed
qed

lemma mgr_close_keeps:
  assumes "mgr_close X others mctx m w = (r, m', w')" and "idle m"
  shows "keeps m m' \<and> idle m'"
proof -
  define ctx where "ctx = (case mctx of None \<Rightarrow> CtxBackground | Some c \<Rightarrow> c)"
  obtain d m1 w1 where b: "close_begin m w = (d, m1, w1)" by (metis prod_cases3)
  note k1 = keeps_locked(5) [OF b]
  show ?thesis
  proof (cases d)
    case CloseNothing
    then have "m' = m1" using assms(1) b by (simp add: mgr_close_def)
    moreover have "idle m1" using b assms(2) CloseNothing
      by (auto simp: close_begin_def idle_def health_defs split: if_splits)
    ultimately show ?thesis using k1 by simp
  next
    case (CloseProceed ch nc)
    then have ch: "ch = None" "m_starting m1 = m_starting m" "m_start_done m1 = m_start_done m"
      using b assms(2) by (auto simp: close_begin_def idle_def health_defs split: if_splits)
    obtain err w2 where dr: "close_drain X (m_effective m1) ctx nc w1 = (err, w2)" by fastforce
    have fin: "close_finish err m1 w2 = (r, m', w')"
      using assms(1) b CloseProceed ch(1) dr by (simp add: mgr_close_def ctx_def [symmetric] Let_def)
    have "idle m'" using close_finish_effect(1) [OF fin] ch(2,3) assms(2) by (simp add: idle_def)
    with keeps_trans [OF k1 keeps_locked(6) [OF fin]] show ?thesis by simp
  qed
qed

lemma callbacks_idle:
  "on_disconnect e m w = (b, m', w') \<Longrightarrow> idle m \<Longrightarrow> idle m'"
  "on_closed m w = (b, m', w') \<Longrightarrow> idle m \<Longrightarrow> idle m'"
  "rebind_after_reconnect X nc m w = (b, m', w') \<Longrightarrow> idle m \<Longrightarrow> idle m'"
  by (auto simp: on_disconnect_def on_closed_def rebind_after_reconnect_def rebind_commit_def idle_def
      health_defs Let_def split: if_splits prod.splits sum.splits)

section \<open>What the operations keep of the client\<close>

lemma with_session_simps [simp]:
  "cl_subs (with_session m c) = cl_subs c" "cl_session (with_session m c) = m"
  "cl_watches (with_session m c) = cl_watches c" "cl_options (with_session m c) = cl_options c"
  "cl_subjects (with_session m c) = cl_subjects c" "cl_callbacks (with_session m c) = cl_callbacks c"
  "cl_next_watch (with_session m c) = cl_next_watch c" "cl_handler_ctx (with_session m c) = cl_handler_ctx c"
  "cl_handler_done (with_session m c) = cl_handler_done c" "cl_handler_cancel (with_session m c) = cl_handler_cancel c"
  by (simp_all add: with_session_def)

lemma client_ok_session: "client_ok c \<Longrightarrow> keeps (cl_session c) m \<Longrightarrow> client_ok (with_session m c)"
  by (simp add: client_ok_def keeps_def counts_ok_def client_health_def)

lemma client_ok_fields [simp]:
  "client_ok (c\<lparr>cl_callbacks := b\<rparr>) = client_ok c" "client_ok (c\<lparr>cl_watches := ws\<rparr>) = client_ok c"
  "client_ok (c\<lparr>cl_next_watch := n\<rparr>) = client_ok c"
  "client_ok (c\<lparr>cl_handler_ctx := x\<rparr>) = client_ok c" "client_ok (c\<lparr>cl_handler_cancel := b\<rparr>) = client_ok c"
  "client_ok (c\<lparr>cl_handler_done := b\<rparr>) = client_ok c"
  by (simp_all add: client_ok_def counts_ok_def client_health_def)

end
