(* ===== verification/Event_Frames.thy ===== *)
theory Event_Frames
  imports Client_Lifecycle
begin

text \<open>
  Which kinds of events each part of the client can cause: the session neither subscribes nor
  watches, operations on subscriptions start no watcher, and operations on watches make no
  subscription.
\<close>

definition only :: "(event \<Rightarrow> bool) \<Rightarrow> 'e world \<Rightarrow> 'e world \<Rightarrow> bool" where
  "only P w w' \<longleftrightarrow> (\<exists>evs. adds w w' evs \<and> (\<forall>ev \<in> set evs. P ev))"

definition no_sub :: "event \<Rightarrow> bool" where
  "no_sub ev = (case ev of EvSubscribe _ _ _ _ (Inr _) \<Rightarrow> False | EvConnect _ _ (Inr _) \<Rightarrow> False | _ \<Rightarrow> True)"

definition no_watch :: "event \<Rightarrow> bool" where
  "no_watch ev = (case ev of EvKVWatch _ _ (Inr _) \<Rightarrow> False | EvConnect _ _ (Inr _) \<Rightarrow> False | _ \<Rightarrow> True)"

definition plain :: "event \<Rightarrow> bool" where
  "plain ev \<longleftrightarrow> no_sub ev \<and> no_watch ev"

text \<open>The events of the session, which may connect.\<close>

definition session_event :: "event \<Rightarrow> bool" where
  "session_event ev = (case ev of EvSubscribe _ _ _ _ (Inr _) \<Rightarrow> False | EvKVWatch _ _ (Inr _) \<Rightarrow> False | _ \<Rightarrow> True)"

lemmas event_kinds = no_sub_def no_watch_def plain_def session_event_def

lemma only_refl [simp]: "only P w w"
  by (auto simp: only_def intro: exI [of _ "[]"])

lemma only_trans: "only P w w1 \<Longrightarrow> only P w1 w2 \<Longrightarrow> only P w w2"
  unfolding only_def by (metis (no_types, lifting) Un_iff adds_trans set_append)

lemma only_mono: "only P w w' \<Longrightarrow> (\<And>ev. P ev \<Longrightarrow> Q ev) \<Longrightarrow> only Q w w'"
  by (auto simp: only_def)

lemma only_trace: "w_trace w1 = w_trace w \<Longrightarrow> only P w0 w1 = only P w0 w"
  by (simp add: only_def adds_def)

lemma only_query [simp]: "only P w0 (snd (query f w)) = only P w0 w"
  by (rule only_trace) simp

lemma only_emit [simp]: "P ev \<Longrightarrow> only P w0 w \<Longrightarrow> only P w0 (emit ev w)"
  by (rule only_trans) (auto simp: only_def adds_def)

lemma only_perform [simp]: "(\<And>r. P (ev r)) \<Longrightarrow> only P w0 w \<Longrightarrow> only P w0 (snd (perform ev f w))"
  by (rule only_trans) (auto simp: only_def adds_def)

lemma only_emit_if [simp]: "P ev \<Longrightarrow> only P w0 w \<Longrightarrow> only P w0 (emit_if b ev w)"
  by (simp add: emit_if_def)

lemma only_sink [simp]: "(\<And>e. P (EvErrorSink e)) \<Longrightarrow> only P w0 w \<Longrightarrow> only P w0 (sink_error sink err w)"
  by (simp add: sink_error_def split: option.split)

section \<open>The session\<close>

lemma only_silent [simp]:
  "only P w0 (snd (clamp_connect_timeout X ctx t w)) = only P w0 w"
  "only P w0 (snd (build_nats_options X cfg t w)) = only P w0 w"
  "only P w0 (snd (new_jetstream X cfg nc w)) = only P w0 w"
  "only P w0 (snd (connection X m w)) = only P w0 w"
  "only P w0 (snd (key_value X m w)) = only P w0 w"
  by (rule only_trace; metis prod.collapse clamp_silent build_options_silent new_jetstream_silent
      connection_quiet key_value_trace)+

lemma only_close_conn [simp]: "only session_event w0 w \<Longrightarrow> only session_event w0 (close_conn X nc w)"
  by (simp add: close_conn_def event_kinds)

lemma only_connect [simp]: "only session_event w0 w \<Longrightarrow> only session_event w0 (snd (connect_nats X cfg ctx w))"
  by (simp add: connect_nats_def Let_def case_prod_beta event_kinds split: sum.split)

lemma only_bind [simp]: "only session_event w0 w \<Longrightarrow> only session_event w0 (snd (bind_or_create_kv X cfg ctx js w))"
  by (simp add: bind_or_create_kv_def Let_def case_prod_beta event_kinds split: sum.split)

lemma only_setup [simp]: "only session_event w0 w \<Longrightarrow> only session_event w0 (snd (start_setup X cfg ctx w))"
  by (simp add: start_setup_def Let_def case_prod_beta split: sum.split option.split)

lemma plain_session: "plain ev \<Longrightarrow> session_event ev"
  by (auto simp: event_kinds split: event.splits sum.splits)

lemma only_set_state [simp]:
  "only plain w0 w \<Longrightarrow> only plain w0 (snd (set_state st m w))"
  "only plain w0 w \<Longrightarrow> only plain w0 (snd (set_degraded e m w))"
  "only plain w0 w \<Longrightarrow> only plain w0 (snd (set_closed e m w))"
  "only plain w0 w \<Longrightarrow> only plain w0 (snd (set_reconnecting e m w))"
  "only plain w0 w \<Longrightarrow> only plain w0 (snd (set_connected u js kv m w))"
  "only session_event w0 w \<Longrightarrow> only session_event w0 (snd (set_state st m w))"
  "only session_event w0 w \<Longrightarrow> only session_event w0 (snd (set_degraded e m w))"
  "only session_event w0 w \<Longrightarrow> only session_event w0 (snd (set_closed e m w))"
  "only session_event w0 w \<Longrightarrow> only session_event w0 (snd (set_connected u js kv m w))"
  by (simp_all add: health_defs Let_def event_kinds)

lemma only_mgr_start: "only session_event w (snd (snd (mgr_start X mctx m w)))"
  by (simp add: mgr_start_def start_begin_def start_fail_def start_commit_def start_defer_def Let_def
      case_prod_beta event_kinds split: sum.split option.split start_decision.split)

lemma only_drain [simp]: "only plain w0 w \<Longrightarrow> only plain w0 (snd (close_drain X cfg ctx nc w))"
  by (simp add: close_drain_def drain_connection_def close_conn_def Let_def case_prod_beta event_kinds
      split: option.split)

lemma only_bind_plain [simp]: "only plain w0 w \<Longrightarrow> only plain w0 (snd (bind_or_create_kv X cfg ctx js w))"
  by (simp add: bind_or_create_kv_def Let_def case_prod_beta event_kinds split: sum.split)

lemma only_mgr_close:
  assumes "\<And>ch m1 w1 m2 w2. others ch m1 w1 = Some (m2, w2) \<Longrightarrow> only plain w1 w2"
  shows "only plain w (snd (snd (mgr_close X others mctx m w)))"
proof -
  have start: "only plain w (snd (snd (close_begin m w)))"
    by (simp add: close_begin_def Let_def case_prod_beta)
  note drain = only_drain
  have finish: "only plain w0 w1 \<Longrightarrow> only plain w0 (snd (snd (close_finish e m1 w1)))" for w0 w1 e m1
    by (simp add: close_finish_def Let_def case_prod_beta)
  have abandon: "only plain w0 w1 \<Longrightarrow> only plain w0 (snd (snd (close_abandon e m1 w1)))" for w0 w1 e m1
    by (simp add: close_abandon_def Let_def case_prod_beta)
  have wait: "only plain w w2" if "others ch (fst (snd (close_begin m w))) (snd (snd (close_begin m w))) = Some (m2, w2)"
    for ch m2 w2
    by (rule only_trans [OF start assms [OF that]])
  show ?thesis
    by (simp add: mgr_close_def Let_def case_prod_beta start drain finish abandon
        split: close_decision.split option.split) (blast intro: finish drain wait)
qed

lemma only_callbacks [simp]:
  "only plain w0 w \<Longrightarrow> only plain w0 (on_async_error m err w)"
  "only plain w0 w \<Longrightarrow> only plain w0 (disconnect_report err m w)"
  "only plain w0 w \<Longrightarrow> only plain w0 (snd (snd (on_disconnect err m w)))"
  "only plain w0 w \<Longrightarrow> only plain w0 (snd (snd (on_closed m w)))"
  "only plain w0 w \<Longrightarrow> only plain w0 (snd (snd (rebind_after_reconnect X nc m w)))"
  by (simp_all add: on_async_error_def disconnect_report_def on_disconnect_def on_closed_def
      rebind_after_reconnect_def rebind_setup_def rebind_commit_def Let_def case_prod_beta event_kinds
      split: option.split sum.split)

section \<open>Subscriptions\<close>

text \<open>Reports of the client, of any kind \<open>P\<close> that has them.\<close>

definition reports :: "(event \<Rightarrow> bool) \<Rightarrow> bool" where
  "reports P \<longleftrightarrow> (\<forall>level msg. P (EvLog level msg)) \<and> (\<forall>e. P (EvErrorSink e)) \<and> (\<forall>k s r. P (EvIncSubscribe k s r)) \<and>
     (\<forall>s r. P (EvHook s r))"

lemma reports_kinds [simp]: "reports no_sub" "reports no_watch" "reports plain"
  by (simp_all add: reports_def event_kinds)

lemma only_reports [simp]:
  "reports P \<Longrightarrow> only P w0 w \<Longrightarrow> only P w0 (log_client c level msg w)"
  "reports P \<Longrightarrow> only P w0 w \<Longrightarrow> only P w0 (report_client c err w)"
  "reports P \<Longrightarrow> only P w0 w \<Longrightarrow> only P w0 (count_subscribe c k s r w)"
  by (simp_all add: reports_def log_client_def report_client_def count_subscribe_def)

lemma only_cleanup [simp]: "only no_watch w0 w \<Longrightarrow> only no_watch w0 (cleanup_subscription X c sub msg w)"
  by (simp add: cleanup_subscription_def unsubscribe_def Let_def case_prod_beta split: option.split)
    (simp add: event_kinds)

lemma only_unsubscribe [simp]: "only no_watch w0 w \<Longrightarrow> only no_watch w0 (snd (unsubscribe X s w))"
  by (simp add: unsubscribe_def event_kinds)

lemma only_create [simp]: "only no_watch w0 w \<Longrightarrow> only no_watch w0 (snd (create_subscription X c rec op do_flush w))"
proof -
  have sub: "only no_watch w0 w \<Longrightarrow> only no_watch w0 (snd (subscribe_internal X c op' kind subject queue cb do_flush w))"
    for op' kind subject queue cb
    by (simp add: subscribe_internal_def Let_def case_prod_beta split: option.split sum.split) (simp add: event_kinds)
  assume "only no_watch w0 w"
  then show ?thesis
    by (simp add: create_subscription_def subscribe_configure_def subscribe_action_def subscribe_result_def
        subscribe_status_def Let_def sub)
qed

lemma only_activate [simp]: "only no_watch w0 w \<Longrightarrow> only no_watch w0 (snd (snd (activate_record X rec force op do_flush c w)))"
  by (simp add: activate_record_def enter_subscription_def Let_def case_prod_beta split: sum.split option.split)

lemma only_activate_records [simp]:
  "only no_watch w0 w \<Longrightarrow> only no_watch w0 (snd (snd (activate_records X op recs joined c w)))"
  by (induction recs arbitrary: joined c w) (simp_all add: case_prod_beta)

lemma only_drop [simp]: "only no_watch w0 w \<Longrightarrow> only no_watch w0 (snd (drop_handles X op hs joined w))"
  by (induction hs arbitrary: joined w) (simp_all add: case_prod_beta split: option.split)

lemma only_subscription_ops [simp]:
  "only no_watch w0 w \<Longrightarrow> only no_watch w0 (snd (snd (activate_all X ord op c w)))"
  "only no_watch w0 w \<Longrightarrow> only no_watch w0 (snd (snd (deactivate_all X ord op c w)))"
  "only no_watch w0 w \<Longrightarrow> only no_watch w0 (snd (rollback_registration X i c w))"
  "only no_watch w0 w \<Longrightarrow> only no_watch w0 (snd (snd (activate_after_registration X i op c w)))"
  by (simp_all add: activate_all_def deactivate_all_def rollback_registration_def activate_after_registration_def
      activate_by_id_def Let_def case_prod_beta split: option.split)

lemma only_register: "only no_watch w (snd (snd (register_request X req h opts c w)))"
proof -
  have spec: "only no_watch w (snd (snd (register_spec X op spec msg c w)))" for op spec msg
    by (simp add: register_spec_def Let_def case_prod_beta split: sum.split option.split)
  obtain op missing msg target action where "register_request X req h opts c w =
    (if h = None then (Some (validation_error op missing), c, w)
     else (case request_subject (cl_subjects c) req of
       Inl err \<Rightarrow> (Some (public_error err), c, w)
     | Inr subject \<Rightarrow>
    (case resolve_subscription_options opts of
       Inl err \<Rightarrow> (Some err, c, w)
     | Inr so \<Rightarrow> register_spec X op \<lparr>as_kind = request_kind req, as_target = target, as_action = action,
         as_subject = subject, as_queue_group = so_queue_group so, as_callback = h\<rparr> msg c w)))"
    by (rule register_request_eq)
  then show ?thesis by (simp add: spec split: sum.split)
qed

lemma only_restore_create [simp]:
  "only no_watch w0 w \<Longrightarrow> only no_watch w0 (snd (snd (snd (restore_create X recs created joined c w))))"
  by (induction recs arbitrary: created joined c w) (simp_all add: Let_def case_prod_beta split: sum.split)

lemma only_restore_abandon [simp]:
  "only no_watch w0 w \<Longrightarrow> only no_watch w0 (snd (restore_abandon X err ts c w))"
  by (induction ts arbitrary: c w) (simp_all add: case_prod_beta split_paired_all)

lemma only_restore_enter [simp]:
  "only no_watch w0 w \<Longrightarrow> only no_watch w0 (snd (restore_enter X ts c w))"
  by (induction ts arbitrary: c w) (simp_all add: Let_def case_prod_beta split_paired_all split: option.split)

lemma only_restore: "only no_watch w0 w \<Longrightarrow> only no_watch w0 (snd (snd (restore_all X ord c w)))"
  by (simp add: restore_all_def Let_def case_prod_beta split: sum.split option.split) (simp add: event_kinds)

section \<open>Watches\<close>

lemma only_cancel_stop [simp]: "only no_sub w0 w \<Longrightarrow> only no_sub w0 (cancel_and_stop st w)"
  by (simp add: cancel_and_stop_def event_kinds)

lemma only_kv_report [simp]: "only no_sub w0 w \<Longrightarrow> only no_sub w0 (kv_report s err w)"
  by (simp add: kv_report_def event_kinds)

lemma only_call_stop [simp]: "only no_sub w0 w \<Longrightarrow> only no_sub w0 (snd (call_stop X c st w))"
  by (simp add: call_stop_def stop_watch_def Let_def case_prod_beta split: option.split)

lemma only_stop_watch [simp]: "only no_sub w0 w \<Longrightarrow> only no_sub w0 (snd (stop_watch X s st w))"
  by (simp add: stop_watch_def Let_def case_prod_beta)

lemma only_start_watch [simp]:
  "only no_sub w0 w \<Longrightarrow> only no_sub w0 (snd (watch_desired_config X (client_store X c) mctx target h w))"
  by (simp add: watch_desired_config_def client_store_def manager_store_def Let_def case_prod_beta
      split: option.split sum.split) (simp add: event_kinds)

lemma only_client_watch: "only no_sub w (snd (snd (client_watch_desired X Pair mctx target h c w)))"
  by (simp add: client_watch_desired_def Let_def case_prod_beta split: option.split sum.split)

lemma only_stop_desired: "only no_sub w (snd (snd (snd (stop_desired_watch X i b c w))))"
  by (simp add: stop_desired_watch_def Let_def case_prod_beta)

lemma only_collect [simp]: "only no_sub w0 w \<Longrightarrow> only no_sub w0 (snd (snd (collect_watches X is acc c w)))"
  by (induction "is" arbitrary: acc c w) (simp_all add: Let_def case_prod_beta split: option.split)

lemma only_rewatch [simp]: "only no_sub w0 w \<Longrightarrow> only no_sub w0 (snd (rewatch X c a ctx w))"
  by (simp add: rewatch_def Let_def case_prod_beta split: option.split)

lemma only_rewatch_all [simp]: "only no_sub w0 w \<Longrightarrow> only no_sub w0 (snd (rewatch_all X c as w))"
  by (induction as arbitrary: w) (simp_all add: Let_def case_prod_beta split: option.split)

lemma only_adopt [simp]: "only no_sub w0 w \<Longrightarrow> only no_sub w0 (snd (snd (adopt_watches X rs joined c w)))"
  by (induction rs arbitrary: joined c w) (simp_all add: Let_def case_prod_beta split: option.split)

lemma only_restore_watches: "only no_sub w0 w \<Longrightarrow> only no_sub w0 (snd (snd (restore_all_watches X ord Pair c w)))"
  by (simp add: restore_all_watches_def Let_def case_prod_beta split: outcome.split)

lemma only_stop_watches [simp]: "only no_sub w0 w \<Longrightarrow> only no_sub w0 (snd (stop_watches X c ss joined w))"
  by (induction ss arbitrary: joined w) (simp_all add: case_prod_beta)

lemma only_stop_all: "only no_sub w0 w \<Longrightarrow> only no_sub w0 (snd (snd (stop_all_watches X ord c w)))"
  by (simp add: stop_all_watches_def Let_def case_prod_beta)

end
