(* ===== verification/Client_Runs.thy ===== *)
theory Client_Runs
  imports Event_Frames
begin

text \<open>
  Runs of a client: every sequence of operations on it and of callbacks from the NATS client, one
  after another. The invariant they keep, and the accounting for all subscriptions and watchers
  over a whole run.
\<close>

section \<open>One step\<close>

definition client_inv :: "client \<Rightarrow> bool" where
  "client_inv c \<longleftrightarrow> client_ok c \<and> watches_ok c \<and> idle (cl_session c)"

text \<open>
  The connections: what was held before or opened meanwhile is held afterwards or was released,
  unless the NATS client reports it closed.
\<close>

definition reported_closed :: "'e ext \<Rightarrow> conn set" where
  "reported_closed X = {nc. \<exists>e. fst (x_status X nc e) = NatsClosed}"

definition conn_accounts :: "'e ext \<Rightarrow> manager \<Rightarrow> event list \<Rightarrow> manager \<Rightarrow> bool" where
  "conn_accounts X m evs m' \<longleftrightarrow> set_option (m_nc m) \<union> set (opened evs) \<subseteq>
     set_option (m_nc m') \<union> set (released evs) \<union> reported_closed X"

definition run_step :: "'e ext \<Rightarrow> client \<Rightarrow> 'e world \<Rightarrow> client \<Rightarrow> 'e world \<Rightarrow> bool" where
  "run_step X c w c' w' \<longleftrightarrow> client_inv c' \<and> (\<exists>evs. adds w w' evs \<and> accounts (cl_subs c) evs (cl_subs c') \<and>
     watch_accounts (cl_watches c) evs (cl_watches c') \<and> conn_accounts X (cl_session c) evs (cl_session c'))"

lemma conn_accounts_trans: "conn_accounts X m xs m1 \<Longrightarrow> conn_accounts X m1 ys m2 \<Longrightarrow> conn_accounts X m (xs @ ys) m2"
  by (auto simp: conn_accounts_def)

lemma run_step_trans: "run_step X c w c1 w1 \<Longrightarrow> run_step X c1 w1 c2 w2 \<Longrightarrow> run_step X c w c2 w2"
  unfolding run_step_def by (meson accounts_trans adds_trans watch_accounts_trans conn_accounts_trans)

lemma nothing_opened:
  "\<forall>ev \<in> set evs. no_watch ev \<or> no_sub ev \<Longrightarrow> opened evs = []"
  by (fastforce simp: opened_def List.map_filter_def filter_empty_conv event_kinds split: event.splits sum.splits)

lemma step_quiet:
  assumes "only plain w w'" and "cl_subs c' = cl_subs c" and "cl_watches c' = cl_watches c" and "client_inv c'"
    and "m_nc (cl_session c') = m_nc (cl_session c)"
  shows "run_step X c w c' w'"
proof -
  obtain evs where evs: "adds w w' evs" "\<forall>ev \<in> set evs. plain ev" using assms(1) by (auto simp: only_def)
  have "made_subs evs = {}" "started evs = {}"
    using evs(2) by (auto simp: made_subs_def started_def event_kinds)
  moreover have "opened evs = []" using evs(2) by (intro nothing_opened) (simp add: plain_def)
  ultimately show ?thesis using evs(1) assms(2-5)
    by (auto simp: run_step_def accounts_def watch_accounts_def conn_accounts_def)
qed

text \<open>What an operation on the registry leaves of the rest of the client.\<close>

definition same_rest :: "client \<Rightarrow> client \<Rightarrow> bool" where
  "same_rest c c' \<longleftrightarrow> cl_watches c' = cl_watches c \<and> cl_next_watch c' = cl_next_watch c \<and>
     cl_callbacks c' = cl_callbacks c \<and> cl_options c' = cl_options c \<and> cl_handler_ctx c' = cl_handler_ctx c \<and>
     cl_handler_cancel c' = cl_handler_cancel c \<and> cl_handler_done c' = cl_handler_done c \<and>
     idle (cl_session c') = idle (cl_session c) \<and> m_nc (cl_session c') = m_nc (cl_session c) \<and>
     hs_state (client_health c') = hs_state (client_health c)"

lemma same_rest_sync: "same_rest c (sync_subscription_health (with_subs r c))"
  by (simp add: same_rest_def sync_subscription_health_def with_subs_def set_subscription_counts_def idle_def
      client_health_def split: prod.split)

lemma with_registry_rest: "with_registry c c' \<Longrightarrow> same_rest c c'"
  unfolding with_registry_def by (metis same_rest_sync)

lemma step_registry:
  assumes "sound_step c w c' w'" and "with_registry c c'" and "only no_watch w w'" and "client_inv c"
  shows "run_step X c w c' w'"
proof -
  obtain evs where evs: "adds w w' evs" "accounts (cl_subs c) evs (cl_subs c')" "client_ok c'"
    using assms(1) by (auto simp: sound_step_def)
  obtain evs' where "adds w w' evs'" "\<forall>ev \<in> set evs'. no_watch ev" using assms(3) by (auto simp: only_def)
  then have no: "\<forall>ev \<in> set evs. no_watch ev" using adds_unique [OF evs(1)] by blast
  then have "started evs = {}" by (auto simp: started_def event_kinds)
  moreover have "opened evs = []" using no by (intro nothing_opened) simp
  moreover have "same_rest c c'" by (rule with_registry_rest [OF assms(2)])
  ultimately show ?thesis using evs assms(4)
    by (auto simp: run_step_def client_inv_def same_rest_def watches_ok_def watch_accounts_def conn_accounts_def)
qed

lemma step_watch:
  assumes "\<exists>evs. adds w w' evs \<and> watch_accounts (cl_watches c) evs (cl_watches c')" and "only no_sub w w'"
    and "cl_subs c' = cl_subs c" and "client_inv c'" and "m_nc (cl_session c') = m_nc (cl_session c)"
  shows "run_step X c w c' w'"
proof -
  obtain evs where evs: "adds w w' evs" "watch_accounts (cl_watches c) evs (cl_watches c')" using assms(1) by blast
  obtain evs' where "adds w w' evs'" "\<forall>ev \<in> set evs'. no_sub ev" using assms(2) by (auto simp: only_def)
  then have no: "\<forall>ev \<in> set evs. no_sub ev" using adds_unique [OF evs(1)] by blast
  then have "made_subs evs = {}" by (auto simp: made_subs_def event_kinds)
  moreover have "opened evs = []" using no by (intro nothing_opened) simp
  ultimately show ?thesis using evs assms(3-5) by (auto simp: run_step_def accounts_def conn_accounts_def)
qed

section \<open>The small steps\<close>

lemma inv_session: "client_inv c \<Longrightarrow> keeps (cl_session c) m \<Longrightarrow> idle m \<Longrightarrow> client_inv (with_session m c)"
  by (simp add: client_inv_def client_ok_session watches_ok_def del: map_of_eq_Some_iff)

lemma inv_fields [simp]:
  "client_inv (c\<lparr>cl_callbacks := b\<rparr>) = client_inv c" "client_inv (c\<lparr>cl_handler_ctx := x\<rparr>) = client_inv c"
  "client_inv (c\<lparr>cl_handler_cancel := b\<rparr>) = client_inv c" "client_inv (c\<lparr>cl_handler_done := b\<rparr>) = client_inv c"
  by (simp_all add: client_inv_def watches_ok_def)

lemma step_flag: "client_inv c \<Longrightarrow> run_step X c w (c\<lparr>cl_callbacks := b\<rparr>) w"
  by (rule step_quiet) simp_all

lemma step_cancel: "client_inv c \<Longrightarrow> cancel_handler_context c w = (c', w') \<Longrightarrow> run_step X c w c' w'"
  by (rule step_quiet)
    (auto simp: cancel_handler_context_def event_kinds split: if_splits option.split)

lemma step_ensure: "client_inv c \<Longrightarrow> ensure_handler_context X c w = (c', w') \<Longrightarrow> run_step X c w c' w'"
  by (rule step_quiet)
    (auto simp: ensure_handler_context_def Let_def case_prod_beta split: if_splits)

lemma step_report: "client_inv c \<Longrightarrow> run_step X c w c (report_cleanup c msg r w)"
  by (rule step_quiet) (simp_all add: report_cleanup_def split: option.split)

lemma step_activate_all:
  assumes "client_inv c" and "order_ok ord" and "activate_all X ord op c w = (r, c', w')"
  shows "run_step X c w c' w'"
proof (rule step_registry [OF _ _ _ assms(1)])
  have ok: "client_ok c" using assms(1) by (simp add: client_inv_def)
  show "sound_step c w c' w'" "with_registry c c'" using activate_all_sound [OF ok assms(2,3)] by simp_all
  show "only no_watch w w'" using only_subscription_ops(1) [of w w X ord op c] assms(3) by simp
qed

lemma step_deactivate_all:
  assumes "client_inv c" and "order_ok ord" and "deactivate_all X ord op c w = (r, c', w')"
  shows "run_step X c w c' w'"
proof (rule step_registry [OF _ _ _ assms(1)])
  have ok: "client_ok c" using assms(1) by (simp add: client_inv_def)
  show "sound_step c w c' w'" using deactivate_all_sound [OF ok assms(2,3)] .
  show "with_registry c c'" using ok assms(2,3) by (rule deactivate_all_effect)
  show "only no_watch w w'" using only_subscription_ops(2) [of w w X ord op c] assms(3) by simp
qed

lemma step_restore_all:
  assumes "client_inv c" and "order_ok ord" and "restore_all X ord c w = (r, c', w')"
  shows "run_step X c w c' w'"
proof (rule step_registry [OF _ _ _ assms(1)])
  have ok: "client_ok c" using assms(1) by (simp add: client_inv_def)
  show "sound_step c w c' w'" "with_registry c c'" using restore_all_sound [OF ok assms(2,3)] by simp_all
  show "only no_watch w w'" using only_restore [of w w X ord c] assms(3) by simp
qed

lemma step_register:
  assumes "client_inv c" and "ids_left (cl_subs c)" and "register_request X req h opts c w = (r, c', w')"
  shows "run_step X c w c' w'"
  using assms(3)
proof (cases rule: register_request_cases)
  case (refused err)
  with assms(1) show ?thesis by (intro step_quiet) simp_all
next
  case (spec op spec msg hnd so)
  have ok: "client_ok c" using assms(1) by (simp add: client_inv_def)
  show ?thesis
    by (rule step_registry [OF register_spec_sound [OF ok assms(2) spec(1)] _ assms(1)])
      (use only_register [of w X req h opts c] assms(3) in simp)
qed

lemma step_stop_all:
  assumes "client_inv c" and "order_ok ord" and "stop_all_watches X ord c w = (r, c', w')"
  shows "run_step X c w c' w'"
proof (rule step_watch)
  from stop_all_adds [OF assms(2,3)] obtain evs where c': "c' = c\<lparr>cl_watches := []\<rparr>" and evs: "adds w w' evs"
    "started evs = {}" "stopped evs = watched (cl_watches c)" by blast
  then show "\<exists>evs. adds w w' evs \<and> watch_accounts (cl_watches c) evs (cl_watches c')"
    by (intro exI [of _ evs]) (simp add: watch_accounts_def)
  show "only no_sub w w'" using only_stop_all [of w w X ord c] assms(3) by simp
  show "cl_subs c' = cl_subs c" "client_inv c'" "m_nc (cl_session c') = m_nc (cl_session c)"
    using assms(1) by (simp_all add: c' client_inv_def watches_ok_def)
qed

text \<open>Operations on watches change nothing but the intents.\<close>

definition only_watches :: "client \<Rightarrow> client \<Rightarrow> bool" where
  "only_watches c c' \<longleftrightarrow> c' = c\<lparr>cl_watches := cl_watches c', cl_next_watch := cl_next_watch c'\<rparr> \<and>
     (watches_ok c \<longrightarrow> watches_ok c')"

lemma only_watches_refl [simp]: "only_watches c c"
  by (simp add: only_watches_def)

lemma only_watches_trans: "only_watches c c1 \<Longrightarrow> only_watches c1 c2 \<Longrightarrow> only_watches c c2"
  unfolding only_watches_def by (cases c; cases c1; cases c2) auto

lemma only_watches_inv: "only_watches c c' \<Longrightarrow> client_inv c \<Longrightarrow> client_inv c' \<and> cl_subs c' = cl_subs c \<and> cl_session c' = cl_session c"
proof -
  assume w: "only_watches c c'" and i: "client_inv c"
  obtain ws n where c': "c' = c\<lparr>cl_watches := ws, cl_next_watch := n\<rparr>"
    using w unfolding only_watches_def by blast
  have "client_ok c' \<and> idle (cl_session c') \<and> cl_subs c' = cl_subs c \<and> cl_session c' = cl_session c"
    using i by (simp add: c' client_inv_def)
  with w i show ?thesis by (simp add: client_inv_def only_watches_def)
qed

lemma only_watches_delete: "only_watches c (delete_watch i c)"
  using delete_watch_ok by (auto simp: only_watches_def delete_watch_def)

lemma put_stop_ok: "watches_ok c \<Longrightarrow> watches_ok (c\<lparr>cl_watches := put_stop i st (cl_watches c)\<rparr>)"
  by (auto simp: watches_ok_def put_stop_def simp del: map_of_eq_Some_iff split: option.split)

lemma only_watches_put: "only_watches c (c\<lparr>cl_watches := put_stop i st (cl_watches c)\<rparr>)"
  by (simp add: only_watches_def put_stop_ok)

lemma collect_frame: "collect_watches X is acc c w = (x, c', w') \<Longrightarrow> only_watches c c'"
proof (induction "is" arbitrary: acc c w)
  case (Cons i "is")
  from Cons.prems show ?case
  proof (cases rule: collect_step)
    case (over a e1 w1)
    from only_watches_trans [OF only_watches_delete Cons.IH [OF over(6)]] show ?thesis .
  qed (use Cons.IH in auto)
qed simp

lemma adopt_client_frame: "adopt_watches X rs joined c w = (x, c', w') \<Longrightarrow> only_watches c c'"
proof (induction rs arbitrary: joined c w)
  case (Cons r rs)
  from Cons.prems show ?case
  proof (cases rule: adopt_step)
    case (adopted a e w1)
    from only_watches_trans [OF only_watches_put Cons.IH [OF adopted(6)]] show ?thesis .
  next
    case (dropped a j e w1)
    from only_watches_trans [OF only_watches_delete Cons.IH [OF dropped(7)]] show ?thesis .
  qed (use Cons.IH in auto)
qed simp

lemma restore_watches_frame: "restore_all_watches X ord Pair c w = (x, c', w') \<Longrightarrow> only_watches c c'"
  by (auto simp: restore_all_watches_def split: prod.splits outcome.splits
      dest!: collect_frame adopt_client_frame intro: only_watches_trans)

lemma step_restore_watches:
  assumes "client_inv c" and "order_ok ord" and "restore_all_watches X ord Pair c w = (Returns r, c', w')"
  shows "run_step X c w c' w'"
proof (rule step_watch)
  have "watches_ok c" using assms(1) by (simp add: client_inv_def)
  from restore_watches_accounts [OF assms(3) this assms(2) calm_nobody]
  show "\<exists>evs. adds w w' evs \<and> watch_accounts (cl_watches c) evs (cl_watches c')" by blast
  show "only no_sub w w'" using only_restore_watches [of w w X ord c] assms(3) by simp
  show "cl_subs c' = cl_subs c" "client_inv c'" "m_nc (cl_session c') = m_nc (cl_session c)"
    using only_watches_inv [OF restore_watches_frame [OF assms(3)] assms(1)] by simp_all
qed

lemma step_watch_desired:
  assumes "client_inv c" and "watch_ids_left c" and "client_watch_desired X Pair mctx target h c w = (r, c', w')"
  shows "run_step X c w c' w'"
proof (rule step_watch)
  have ok: "watches_ok c" using assms(1) by (simp add: client_inv_def)
  from client_watch_outcome [OF assms(3) calm_nobody ok assms(2)]
  show "\<exists>evs. adds w w' evs \<and> watch_accounts (cl_watches c) evs (cl_watches c')" by blast
  show "only no_sub w w'" using only_client_watch [of w X mctx target h c] assms(3) by simp
  have frame: "only_watches c c'"
  proof (cases h)
    case None
    with assms(3) show ?thesis by (simp add: client_watch_desired_def)
  next
    case (Some hnd)
    let ?i = "cl_next_watch c + 1"
    let ?c1 = "c\<lparr>cl_next_watch := ?i, cl_watches := gomap_put ?i
       \<lparr>aw_id = ?i, aw_target = target, aw_handler = hnd, aw_stop = None, aw_ctx = mctx\<rparr> (cl_watches c)\<rparr>"
    have "only_watches c ?c1"
      using next_watch [OF assms(2)]
      by (auto simp: only_watches_def watches_ok_def le_Suc_eq simp del: map_of_eq_Some_iff split: if_splits)
    moreover from assms(3) have "only_watches ?c1 c'"
      unfolding Some by (rule client_watch_steps) (auto intro: only_watches_delete only_watches_put)
    ultimately show ?thesis by (rule only_watches_trans)
  qed
  from only_watches_inv [OF this assms(1)]
  show "cl_subs c' = cl_subs c" "client_inv c'" "m_nc (cl_session c') = m_nc (cl_session c)" by simp_all
qed

lemma step_stop_desired:
  assumes "client_inv c" and "stop_desired_watch X i b c w = (r, b', c', w')"
  shows "run_step X c w c' w'"
proof (cases b)
  case True
  with assms show ?thesis by (intro step_quiet) (auto simp: stop_desired_watch_def)
next
  case False
  with stop_desired_adds assms(2) obtain evs where c': "c' = delete_watch i c" and evs: "adds w w' evs" "started evs = {}"
    "stopped evs = set_option (watcher_of (cl_watches c) i)" by metis
  show ?thesis
  proof (rule step_watch)
    show "\<exists>evs. adds w w' evs \<and> watch_accounts (cl_watches c) evs (cl_watches c')"
      using evs watched_del [of "cl_watches c" i]
      by (intro exI [of _ evs]) (simp add: watch_accounts_def c' delete_watch_def)
    show "only no_sub w w'" using only_stop_desired [of w X i b c] assms(2) by simp
    show "cl_subs c' = cl_subs c" "client_inv c'" "m_nc (cl_session c') = m_nc (cl_session c)"
      using only_watches_inv [OF only_watches_delete assms(1)] by (simp_all add: c')
  qed
qed

end
