(* ===== verification/Lifecycle_Outcomes.thy ===== *)
theory Lifecycle_Outcomes
  imports Client_Runs
begin

text \<open>
  What the lifecycle operations of the client and the callbacks of the NATS client achieve: each
  is a step that loses no subscription, no watcher and no connection, and each has its own
  postcondition.
\<close>

section \<open>Steps of the session\<close>

lemma step_session:
  assumes "client_inv c" and "keeps (cl_session c) m" and "idle m" and "only plain w w'"
    and "m_nc m = m_nc (cl_session c)"
  shows "run_step X c w (with_session m c) w'"
  by (rule step_quiet [OF assms(4)]) (use inv_session [OF assms(1-3)] assms(5) in simp_all)

lemma only_session_quiet:
  assumes "only session_event w w'" and "adds w w' evs"
  shows "made_subs evs = {} \<and> started evs = {}"
proof -
  obtain evs' where "adds w w' evs'" "\<forall>ev \<in> set evs'. session_event ev" using assms(1) by (auto simp: only_def)
  then have "\<forall>ev \<in> set evs. session_event ev" using adds_unique [OF assms(2)] by blast
  then show ?thesis by (auto simp: made_subs_def started_def event_kinds)
qed

lemma step_connection:
  assumes "client_inv c" and "keeps (cl_session c) m" and "idle m" and "only session_event w w'"
    and "adds w w' evs" and "conn_accounts X (cl_session c) evs m"
  shows "run_step X c w (with_session m c) w'"
  using inv_session [OF assms(1-3)] only_session_quiet [OF assms(4,5)] assms(5,6)
  by (auto simp: run_step_def accounts_def watch_accounts_def)

text \<open>A start replaces the connection of the session only when that connection is reported closed.\<close>

lemma start_begin_live:
  assumes "m_nc m = Some nc" and "nc \<notin> reported_closed X" and "start_begin X m w = (d, m', w')"
  shows "m' = m \<and> (\<forall>ch. d \<noteq> StartProceed ch)"
proof -
  have "fst (x_status X nc (w_env w)) \<noteq> NatsClosed" using assms(2) by (simp add: reported_closed_def)
  then show ?thesis using assms(1,3) by (auto simp: start_begin_def query_def split: if_splits prod.splits)
qed

lemma mgr_start_live:
  assumes "m_nc m = Some nc" and "nc \<notin> reported_closed X" and "mgr_start X mctx m w = (r, m', w')"
  shows "m' = m"
  using assms(3) start_begin_live [OF assms(1,2)]
  by (fastforce simp: mgr_start_def Let_def split: prod.splits option.splits start_decision.splits)

lemma step_mgr_start:
  assumes "client_inv c" and "mgr_start X mctx (cl_session c) w = (r, m, w')"
  shows "run_step X c w (with_session m c) w'"
proof -
  have idle: "idle (cl_session c)" "\<not> m_close_requested (cl_session c)"
    using assms(1) by (simp_all add: client_inv_def idle_def)
  have only: "only session_event w w'" using only_mgr_start [of w X mctx "cl_session c"] assms(2) by simp
  note k = mgr_start_keeps [OF assms(2) idle(1)]
  from assms(2) idle(2) obtain evs where "adds w w' evs" "conn_accounts X (cl_session c) evs m"
  proof (cases rule: mgr_start_cases)
    case untouched
    then show ?thesis by (intro that [of "[]"]) (simp_all add: conn_accounts_def)
  next
    case (failed err evs)
    then show ?thesis by (intro that [of evs]) (simp_all add: conn_accounts_def)
  next
    case (connected nc js kv evs)
    have "set_option (m_nc (cl_session c)) \<subseteq> reported_closed X \<union> {nc}"
      using mgr_start_live [OF _ _ assms(2)] connected(5) by (cases "m_nc (cl_session c)") auto
    with connected show ?thesis by (intro that [of evs]) (auto simp: conn_accounts_def)
  qed
  then show ?thesis using step_connection [OF assms(1) _ _ only] k by blast
qed

lemma step_mgr_close:
  assumes "client_inv c" and "mgr_close X (\<lambda>_ _ _. None) mctx (cl_session c) w = (r, m, w')"
  shows "run_step X c w (with_session m c) w'"
proof -
  have idle: "idle (cl_session c)" "m_start_done (cl_session c) = None" "\<not> m_closing (cl_session c)"
    using assms(1) by (simp_all add: client_inv_def idle_def)
  have "only plain w w'" using only_mgr_close [of "\<lambda>_ _ _. None" w X mctx "cl_session c"] assms(2) by simp
  then have only: "only session_event w w'" by (rule only_mono) (rule plain_session)
  from assms(2) idle(2,3) obtain evs where "adds w w' evs" "conn_accounts X (cl_session c) evs m"
  proof (cases rule: mgr_close_cases)
    case (closed evs)
    then show ?thesis by (intro that [of evs]) (auto simp: conn_accounts_def split: option.split)
  qed
  then show ?thesis using step_connection [OF assms(1) _ _ only] mgr_close_keeps [OF assms(2) idle(1)] by blast
qed

lemma callbacks_nc:
  "on_disconnect e m w = (b, m', w') \<Longrightarrow> m_nc m' = m_nc m"
  "on_closed m w = (b, m', w') \<Longrightarrow> m_nc m' = m_nc m"
  "rebind_after_reconnect X nc m w = (b, m', w') \<Longrightarrow> m_nc m' = m_nc m"
  by (auto simp: on_disconnect_def on_closed_def rebind_after_reconnect_def rebind_commit_def health_defs Let_def
      split: if_splits prod.splits sum.splits)

section \<open>Steps of the client\<close>

lemma run_inv: "run_step X c w c' w' \<Longrightarrow> client_inv c'"
  by (simp add: run_step_def)

lemma step_then:
  assumes "run_step X c w c1 w1" and "client_inv c1 \<Longrightarrow> run_step X c1 w1 c2 w2"
  shows "run_step X c w c2 w2"
  using run_step_trans [OF assms(1) assms(2) [OF run_inv [OF assms(1)]]] .

lemma step_close:
  assumes "client_inv c" and "order_ok ord" and "order_ok word"
    and "client_close X ord word (\<lambda>_ _ _. None) mctx c w = (r, c', w')"
  shows "run_step X c w c' w'"
proof -
  obtain c1 w1 where 1: "cancel_handler_context (c\<lparr>cl_callbacks := False\<rparr>) w = (c1, w1)" by fastforce
  obtain se c2 w2 where 2: "deactivate_all X ord ''close'' c1 w1 = (se, c2, w2)" by (rule prod_cases3)
  obtain we c3 w3 where 3: "stop_all_watches X word c2 w2 = (we, c3, w3)" by (rule prod_cases3)
  obtain err m w4 where 4: "mgr_close X (\<lambda>_ _ _. None) mctx (cl_session c3) w3 = (err, m, w4)" by (rule prod_cases3)
  have res: "c' = with_session m c3" "w' = w4" using assms(4) 1 2 3 4 by (simp_all add: client_close_def Let_def)
  have s1: "run_step X c w c1 w1" by (rule step_then [OF step_flag step_cancel [OF _ 1]]) (rule assms(1))
  show ?thesis unfolding res
    by (rule step_then [OF step_then [OF step_then [OF s1 step_deactivate_all [OF _ assms(2) 2]]
        step_stop_all [OF _ assms(3) 3]] step_mgr_close [OF _ 4]])
qed

lemma step_on_closed:
  assumes "client_inv c" and "order_ok ord" and "on_session_closed X ord c w = (c', w')"
  shows "run_step X c w c' w'"
proof -
  obtain c1 w1 where 1: "cancel_handler_context (c\<lparr>cl_callbacks := False\<rparr>) w = (c1, w1)" by fastforce
  obtain r c2 w2 where 2: "deactivate_all X ord ''session_closed'' c1 w1 = (r, c2, w2)" by (rule prod_cases3)
  have res: "c' = c2" "w' = report_cleanup c2 ''failed to clear active subscriptions after session closed'' r w2"
    using assms(3) 1 2 by (auto simp: on_session_closed_def Let_def)
  show ?thesis unfolding res
    by (rule step_then [OF step_then [OF step_then [OF step_flag step_cancel [OF _ 1]] step_deactivate_all [OF _ assms(2) 2]]
        step_report]) (use assms(1) in simp_all)
qed

lemma only_hook [simp]: "only plain w0 w \<Longrightarrow> only plain w0 (call_hook X c name w)"
  by (simp add: call_hook_def Let_def case_prod_beta event_kinds split: outcome.split)

lemma step_world: "client_inv c \<Longrightarrow> only plain w w' \<Longrightarrow> run_step X c w c w'"
  by (rule step_quiet) simp_all

lemma step_disconnected:
  "client_inv c \<Longrightarrow> run_step X c w c (on_session_disconnected X c w)"
  by (rule step_world) (simp_all add: on_session_disconnected_def Let_def)

lemma step_reconnected:
  assumes "client_inv c" and "order_ok ord" and "order_ok word"
    and "on_session_reconnected X ord word Pair c w = (Returns u, c', w')"
  shows "run_step X c w c' w'"
proof (cases "cl_callbacks c")
  case False
  with assms show ?thesis by (auto simp: on_session_reconnected_def intro: step_world)
next
  case on: True
  let ?w1 = "log_client c LogInfo ''restoring subscriptions after reconnect'' w"
  obtain r c1 w2 where 1: "restore_all X ord c ?w1 = (r, c1, w2)" by (rule prod_cases3)
  have s1: "run_step X c w c1 w2"
    by (rule step_then [OF step_world step_restore_all [OF _ assms(2) 1]]) (use assms(1) in simp_all)
  show ?thesis
  proof (cases r)
    case (Some err)
    with assms(4) on 1 show ?thesis
      by (auto simp: on_session_reconnected_def Let_def intro!: step_then [OF s1] step_world)
  next
    case None
    let ?w3 = "log_client c1 LogInfo ''restoring active KV watches after reconnect''
      (log_client c1 LogInfo ''subscription restore completed'' w2)"
    obtain x c2 w4 where 2: "restore_all_watches X word Pair c1 ?w3 = (x, c2, w4)" by (rule prod_cases3)
    obtain r2 where x: "x = Returns r2" using assms(4) on 1 None 2
      by (cases x) (auto simp: on_session_reconnected_def Let_def)
    have s2: "run_step X c w c2 w4"
      by (rule step_then [OF step_then [OF s1 step_world] step_restore_watches [OF _ assms(3) 2 [unfolded x]]]) simp_all
    show ?thesis using assms(4) on 1 None 2 x
      by (auto simp: on_session_reconnected_def Let_def split: option.splits intro!: step_then [OF s2] step_world)
  qed
qed

lemma step_start:
  assumes "client_inv c" and "order_ok ord" and "client_start X ord mctx c w = (r, c', w')"
  shows "run_step X c w c' w'"
proof -
  obtain r0 m w1 where 0: "mgr_start X mctx (cl_session c) w = (r0, m, w1)" by (rule prod_cases3)
  note s0 = step_mgr_start [OF assms(1) 0]
  show ?thesis
  proof (cases r0)
    case (Some err)
    with assms(3) 0 s0 show ?thesis by (auto simp: client_start_def)
  next
    case None
    obtain a c2 w2 where 1: "activate_all X ord ''start'' (with_session m c) w1 = (a, c2, w2)" by (rule prod_cases3)
    have s1: "run_step X c w c2 w2" by (rule step_then [OF s0 step_activate_all [OF _ assms(2) 1]])
    show ?thesis
    proof (cases a)
      case act: None
      obtain c3 w3 where 2: "ensure_handler_context X c2 w2 = (c3, w3)" by fastforce
      have "c' = c3\<lparr>cl_callbacks := True\<rparr>" "w' = w3"
        using assms(3) 0 None 1 act 2 by (auto simp: client_start_def Let_def)
      then show ?thesis by (simp add: step_then [OF step_then [OF s1 step_ensure [OF _ 2]] step_flag])
    next
      case act: (Some err)
      obtain c3 w3 where 2: "cancel_handler_context (c2\<lparr>cl_callbacks := False\<rparr>) w2 = (c3, w3)" by fastforce
      obtain d c4 w4 where 3: "deactivate_all X ord ''start_activation_cleanup'' c3 w3 = (d, c4, w4)" by (rule prod_cases3)
      have "c' = c4" "w' = report_cleanup c4 ''failed to cleanup subscriptions after start activation failure'' d w4"
        using assms(3) 0 None 1 act 2 3 by (auto simp: client_start_def Let_def)
      moreover have "run_step X c w c3 w3"
        by (rule step_then [OF s1 step_then [OF step_flag step_cancel [OF _ 2]]])
      ultimately show ?thesis
        using step_then [OF step_then [OF _ step_deactivate_all [OF _ assms(2) 3]] step_report] by simp
    qed
  qed
qed

section \<open>Steps of the callbacks\<close>

lemma step_nats_disconnected:
  assumes "client_inv c" and "nats_disconnected X err c w = (c', w')"
  shows "run_step X c w c' w'"
proof (cases "m_closing (cl_session c)")
  case True
  with assms show ?thesis by (auto simp: nats_disconnected_def intro: step_world)
next
  case False
  obtain b m w1 where 1: "on_disconnect err (cl_session c) w = (b, m, w1)" by (rule prod_cases3)
  have idle: "idle (cl_session c)" using assms(1) by (simp add: client_inv_def)
  have only: "only plain w w1" using only_callbacks(3) [of w w err "cl_session c"] 1 by simp
  have s1: "run_step X c w (with_session m c) w1"
    by (rule step_session [OF assms(1) keeps_locked(7) [OF 1] callbacks_idle(1) [OF 1 idle] only callbacks_nc(1) [OF 1]])
  have "c' = with_session m c" "w' = disconnect_report err m
      (if b then on_session_disconnected X (with_session m c) w1 else w1)"
    using assms(2) False 1 by (auto simp: nats_disconnected_def Let_def)
  then show ?thesis
    by (simp add: step_then [OF s1 step_world] on_session_disconnected_def Let_def)
qed

lemma step_nats_closed:
  assumes "client_inv c" and "order_ok ord" and "nats_closed X ord c w = (c', w')"
  shows "run_step X c w c' w'"
proof -
  obtain b m w1 where 1: "on_closed (cl_session c) w = (b, m, w1)" by (rule prod_cases3)
  have idle: "idle (cl_session c)" using assms(1) by (simp add: client_inv_def)
  have only: "only plain w w1" using only_callbacks(4) [of w w "cl_session c"] 1 by simp
  have s1: "run_step X c w (with_session m c) w1"
    by (rule step_session [OF assms(1) keeps_locked(8) [OF 1] callbacks_idle(2) [OF 1 idle] only callbacks_nc(2) [OF 1]])
  show ?thesis
    using assms(3) 1 s1 by (auto simp: nats_closed_def Let_def split: if_splits
        intro: step_then [OF s1 step_on_closed [OF _ assms(2)]])
qed

lemma step_nats_reconnected:
  assumes "client_inv c" and "order_ok ord" and "order_ok word"
    and "nats_reconnected X ord word Pair nc c w = (Returns u, c', w')"
  shows "run_step X c w c' w'"
proof (cases "on_reconnect (cl_session c)")
  case False
  with assms(1,4) show ?thesis by (auto simp: nats_reconnected_def intro: step_world)
next
  case True
  obtain b m w1 where 1: "rebind_after_reconnect X nc (cl_session c) w = (b, m, w1)" by (rule prod_cases3)
  have idle: "idle (cl_session c)" using assms(1) by (simp add: client_inv_def)
  have only: "only plain w w1" using only_callbacks(5) [of w w X nc "cl_session c"] 1 by simp
  have s1: "run_step X c w (with_session m c) w1"
    by (rule step_session [OF assms(1) keeps_locked(9) [OF 1] callbacks_idle(3) [OF 1 idle] only callbacks_nc(3) [OF 1]])
  show ?thesis
    using assms(4) True 1 s1 by (auto simp: nats_reconnected_def Let_def split: if_splits
        intro: step_then [OF s1 step_reconnected [OF _ assms(2,3)]])
qed

section \<open>Postconditions\<close>

lemma start_post:
  assumes "client_inv c" and "order_ok ord" and "client_start X ord mctx c w = (r, c', w')"
  shows "registered (cl_subs c') = registered (cl_subs c) \<and>
    (case r of
       None \<Rightarrow> all_active (cl_subs c') \<and> cl_callbacks c' \<and> cl_handler_ctx c' \<noteq> None \<and> \<not> cl_handler_done c' \<and>
         m_nc (cl_session c') \<noteq> None
     | Some err \<Rightarrow> cl_subs c' = cl_subs c \<and> cl_callbacks c' = cl_callbacks c \<and> m_nc (cl_session c') = m_nc (cl_session c) \<or>
         held_subs (cl_subs c') = {} \<and> \<not> cl_callbacks c' \<and> m_nc (cl_session c') \<noteq> None)"
proof -
  obtain r0 m w1 where 0: "mgr_start X mctx (cl_session c) w = (r0, m, w1)" by (rule prod_cases3)
  have inv: "client_inv (with_session m c)" by (rule run_inv [OF step_mgr_start [OF assms(1) 0]])
  then have ok: "client_ok (with_session m c)" by (simp add: client_inv_def)
  have "\<not> m_close_requested (cl_session c)" using assms(1) by (simp add: client_inv_def idle_def)
  with 0 have m: "r0 = None \<Longrightarrow> m_nc m \<noteq> None" "r0 \<noteq> None \<Longrightarrow> m_nc m = m_nc (cl_session c)"
    by (cases rule: mgr_start_cases; simp)+
  show ?thesis
  proof (cases r0)
    case (Some err)
    with assms(3) 0 m show ?thesis by (auto simp: client_start_def)
  next
    case None
    obtain a c2 w2 where 1: "activate_all X ord ''start'' (with_session m c) w1 = (a, c2, w2)" by (rule prod_cases3)
    note sound = activate_all_sound [OF ok assms(2) 1]
    have c2: "registered (cl_subs c2) = registered (cl_subs c)" "m_nc (cl_session c2) \<noteq> None"
      using sound(3) with_registry_rest [OF sound(2)] m(1) None by (simp_all add: same_rest_def)
    show ?thesis
    proof (cases a)
      case act: None
      have "all_active (cl_subs c2)" using activate_all_complete [OF ok assms(2)] 1 act by blast
      with assms(3) 0 None 1 act c2 show ?thesis
        by (auto simp: client_start_def ensure_handler_context_def Let_def split: if_splits prod.splits)
    next
      case act: (Some err)
      obtain c3 w3 where 2: "cancel_handler_context (c2\<lparr>cl_callbacks := False\<rparr>) w2 = (c3, w3)" by fastforce
      then have c3: "cl_subs c3 = cl_subs c2" "\<not> cl_callbacks c3" "cl_session c3 = cl_session c2"
        by (auto simp: cancel_handler_context_def split: if_splits)
      obtain d c4 w4 where 3: "deactivate_all X ord ''start_activation_cleanup'' c3 w3 = (d, c4, w4)" by (rule prod_cases3)
      have "run_step X (with_session m c) w1 c3 w3"
        by (rule step_then [OF step_activate_all [OF inv assms(2) 1] step_then [OF step_flag step_cancel [OF _ 2]]])
      then have "client_ok c3" by (simp add: run_step_def client_inv_def)
      then obtain "held_subs (cl_subs c4) = {}" "registered (cl_subs c4) = registered (cl_subs c3)" "same_rest c3 c4"
        using assms(2) 3 by (rule deactivate_all_effect) (auto simp: held_subs_def dest: with_registry_rest)
      with c2 c3 assms(3) 0 None 1 act 2 3 show ?thesis
        by (auto simp: client_start_def Let_def same_rest_def)
    qed
  qed
qed

lemma close_post:
  assumes "client_inv c" and "order_ok ord" and "order_ok word"
    and "client_close X ord word (\<lambda>_ _ _. None) mctx c w = (r, c', w')"
  shows "registered (cl_subs c') = registered (cl_subs c) \<and> held_subs (cl_subs c') = {} \<and> cl_watches c' = [] \<and>
    \<not> cl_callbacks c' \<and> \<not> cl_handler_cancel c' \<and> m_nc (cl_session c') = None \<and> hs_state (client_health c') = StateClosed \<and>
    (\<exists>evs. adds w w' evs \<and> held_subs (cl_subs c) \<subseteq> dropped_subs evs \<and> watched (cl_watches c) \<subseteq> stopped evs \<and>
      set_option (m_nc (cl_session c)) \<subseteq> set (released evs))"
proof -
  obtain c1 w1 where 1: "cancel_handler_context (c\<lparr>cl_callbacks := False\<rparr>) w = (c1, w1)" by fastforce
  then have c1: "cl_subs c1 = cl_subs c" "\<not> cl_callbacks c1" "\<not> cl_handler_cancel c1" "cl_session c1 = cl_session c"
    by (auto simp: cancel_handler_context_def split: if_splits)
  obtain se c2 w2 where 2: "deactivate_all X ord ''close'' c1 w1 = (se, c2, w2)" by (rule prod_cases3)
  have s1: "run_step X c w c1 w1" by (rule step_then [OF step_flag step_cancel [OF _ 1]]) (rule assms(1))
  note s2 = step_then [OF s1 step_deactivate_all [OF _ assms(2) 2]]
  have "client_ok c1" using s1 by (simp add: run_step_def client_inv_def)
  then obtain c2: "held_subs (cl_subs c2) = {}" "registered (cl_subs c2) = registered (cl_subs c1)" "same_rest c1 c2"
    using assms(2) 2 by (rule deactivate_all_effect) (auto simp: held_subs_def dest: with_registry_rest)
  obtain we c3 w3 where 3: "stop_all_watches X word c2 w2 = (we, c3, w3)" by (rule prod_cases3)
  note s3 = step_then [OF s2 step_stop_all [OF _ assms(3) 3]]
  have c3: "c3 = c2\<lparr>cl_watches := []\<rparr>" using stop_all_adds [OF assms(3) 3] by blast
  obtain err m w4 where 4: "mgr_close X (\<lambda>_ _ _. None) mctx (cl_session c3) w3 = (err, m, w4)" by (rule prod_cases3)
  have res: "c' = with_session m c3" "w' = w4" using assms(4) 1 2 3 4 by (simp_all add: client_close_def Let_def)
  have "m_start_done (cl_session c3) = None" "\<not> m_closing (cl_session c3)"
    using s3 by (simp_all add: run_step_def client_inv_def idle_def)
  with 4 obtain e4 where e4: "adds w3 w4 e4" "set (released e4) = set_option (m_nc (cl_session c3))"
    "m_nc m = None" "hs_state (m_health m) = StateClosed"
    by (cases rule: mgr_close_cases) (auto split: option.splits)
  obtain e where e: "adds w w3 e" using s3 by (auto simp: run_step_def)
  have "\<exists>evs. adds w w' evs \<and> accounts (cl_subs c) evs (cl_subs c') \<and> watch_accounts (cl_watches c) evs (cl_watches c')"
    using step_close [OF assms] by (auto simp: run_step_def)
  then obtain evs where evs: "adds w w' evs" "held_subs (cl_subs c) \<subseteq> dropped_subs evs" "watched (cl_watches c) \<subseteq> stopped evs"
    using c2(1) by (auto simp: accounts_def watch_accounts_def res c3 watched_def watcher_of_def)
  have "evs = e @ e4" using adds_unique [OF evs(1)] adds_trans [OF e e4(1)] res(2) by blast
  with evs e4 c1 c2 show ?thesis
    by (auto simp: res c3 same_rest_def client_health_def intro!: exI [of _ evs])
qed

lemma restore_all_active:
  assumes "client_ok c" and "order_ok ord" and "restore_all X ord c w = (None, c', w')"
  shows "all_active (cl_subs c')"
  unfolding all_active_def
proof (intro allI impI)
  fix i
  assume "registered (cl_subs c') i"
  then obtain rec where rec: "get_activation_record (cl_subs c) i = Some rec"
    using restore_all_sound(3) [OF assms] activation_record_iff by (metis not_None_eq)
  obtain evs where "adds w w' evs" using restore_all_sound(1) [OF assms] by (auto simp: sound_step_def)
  from restore_all_complete [OF assms rec this] show "held_by (cl_subs c') i \<noteq> None" by auto
qed

lemma reconnected_post:
  assumes "client_inv c" and "order_ok ord" and "order_ok word"
    and "on_session_reconnected X ord word Pair c w = (x, c', w')"
  shows "(x = Returns () \<or> (\<exists>i a. gomap_get (cl_watches c) i = Some a \<and> aw_ctx a = None)) \<and>
    (cl_watches c' \<noteq> cl_watches c \<longrightarrow> all_active (cl_subs c'))"
proof (cases "cl_callbacks c")
  case False
  with assms(4) show ?thesis by (auto simp: on_session_reconnected_def)
next
  case on: True
  let ?w1 = "log_client c LogInfo ''restoring subscriptions after reconnect'' w"
  obtain r c1 w2 where 1: "restore_all X ord c ?w1 = (r, c1, w2)" by (rule prod_cases3)
  have ok: "client_ok c" "watches_ok c" using assms(1) by (simp_all add: client_inv_def)
  have same: "cl_watches c1 = cl_watches c"
    using with_registry_rest [OF restore_all_sound(2) [OF ok(1) assms(2) 1]] by (simp add: same_rest_def)
  show ?thesis
  proof (cases r)
    case (Some err)
    with assms(4) on 1 same show ?thesis by (auto simp: on_session_reconnected_def Let_def)
  next
    case None
    let ?w3 = "log_client c1 LogInfo ''restoring active KV watches after reconnect''
      (log_client c1 LogInfo ''subscription restore completed'' w2)"
    obtain y c2 w4 where 2: "restore_all_watches X word Pair c1 ?w3 = (y, c2, w4)" by (rule prod_cases3)
    have act: "all_active (cl_subs c1)" using restore_all_active [OF ok(1) assms(2)] 1 None by blast
    have "watches_ok c1" using run_inv [OF step_restore_all [OF assms(1,2) 1]] by (simp add: client_inv_def)
    note p = restore_watches_panics_iff [OF 2 this assms(3) calm_nobody]
    have "cl_subs c2 = cl_subs c1"
      using only_watches_inv [OF restore_watches_frame [OF 2] run_inv [OF step_restore_all [OF assms(1,2) 1]]] by simp
    with assms(4) on 1 None 2 act p same show ?thesis
      by (auto simp: on_session_reconnected_def Let_def split: outcome.splits option.splits)
  qed
qed

lemma nats_reconnected_post:
  assumes "client_inv c" and "order_ok ord" and "order_ok word"
    and "nats_reconnected X ord word Pair nc c w = (x, c', w')"
  shows "(x = Returns () \<and> run_step X c w c' w' \<or> (\<exists>i a. gomap_get (cl_watches c) i = Some a \<and> aw_ctx a = None)) \<and>
    (cl_watches c' \<noteq> cl_watches c \<longrightarrow> all_active (cl_subs c'))"
proof (cases "on_reconnect (cl_session c)")
  case False
  with assms(1,4) show ?thesis by (auto simp: nats_reconnected_def intro: step_world)
next
  case True
  obtain b m w1 where 1: "rebind_after_reconnect X nc (cl_session c) w = (b, m, w1)" by (rule prod_cases3)
  have idle: "idle (cl_session c)" using assms(1) by (simp add: client_inv_def)
  note inv = inv_session [OF assms(1) keeps_locked(9) [OF 1] callbacks_idle(3) [OF 1 idle]]
  have "x = Returns () \<Longrightarrow> run_step X c w c' w'"
    using step_nats_reconnected [OF assms(1-3)] assms(4) by blast
  moreover have "(x = Returns () \<or> (\<exists>i a. gomap_get (cl_watches c) i = Some a \<and> aw_ctx a = None)) \<and>
      (cl_watches c' \<noteq> cl_watches c \<longrightarrow> all_active (cl_subs c'))"
  proof (cases b)
    case True
    then have "on_session_reconnected X ord word Pair (with_session m c) w1 = (x, c', w')"
      using assms(4) \<open>on_reconnect (cl_session c)\<close> 1 by (auto simp: nats_reconnected_def Let_def)
    from reconnected_post [OF inv assms(2,3) this] show ?thesis by simp
  next
    case False
    then show ?thesis using assms(4) \<open>on_reconnect (cl_session c)\<close> 1 by (auto simp: nats_reconnected_def Let_def)
  qed
  ultimately show ?thesis by blast
qed

lemma closed_callback_post:
  assumes "client_inv c" and "order_ok ord" and "nats_closed X ord c w = (c', w')"
  shows "m_nc (cl_session c') = m_nc (cl_session c) \<and> hs_state (client_health c') = StateClosed \<and>
    (m_on_closed (cl_session c) \<longrightarrow> held_subs (cl_subs c') = {} \<and> \<not> cl_callbacks c' \<and> \<not> cl_handler_cancel c') \<and>
    cl_watches c' = cl_watches c"
proof -
  obtain b m w1 where 1: "on_closed (cl_session c) w = (b, m, w1)" by (rule prod_cases3)
  have m: "m_nc m = m_nc (cl_session c)" "hs_state (m_health m) = StateClosed" "b = m_on_closed (cl_session c)"
    using 1 by (auto simp: on_closed_def health_defs show_error_def split: option.splits)
  have idle: "idle (cl_session c)" using assms(1) by (simp add: client_inv_def)
  note inv = inv_session [OF assms(1) keeps_locked(8) [OF 1] callbacks_idle(2) [OF 1 idle]]
  show ?thesis
  proof (cases b)
    case False
    with assms(3) 1 m show ?thesis by (auto simp: nats_closed_def Let_def client_health_def)
  next
    case True
    let ?c1 = "with_session m c"
    obtain c2 w2 where 2: "cancel_handler_context (?c1\<lparr>cl_callbacks := False\<rparr>) w1 = (c2, w2)" by fastforce
    then have c2: "cl_session c2 = m" "\<not> cl_callbacks c2" "\<not> cl_handler_cancel c2" "cl_watches c2 = cl_watches c"
      by (auto simp: cancel_handler_context_def split: if_splits)
    have "run_step X ?c1 w1 c2 w2" by (rule step_then [OF step_flag step_cancel [OF _ 2]]) (rule inv)
    then have "client_ok c2" by (simp add: run_step_def client_inv_def)
    obtain r c3 w3 where 3: "deactivate_all X ord ''session_closed'' c2 w2 = (r, c3, w3)" by (rule prod_cases3)
    obtain "held_subs (cl_subs c3) = {}" "same_rest c2 c3"
      using \<open>client_ok c2\<close> assms(2) 3 by (rule deactivate_all_effect) (auto simp: held_subs_def dest: with_registry_rest)
    moreover have "c' = c3" using assms(3) 1 True 2 3 by (auto simp: nats_closed_def on_session_closed_def Let_def)
    ultimately show ?thesis using c2 m by (simp add: same_rest_def client_health_def)
  qed
qed

section \<open>Properties\<close>


lemma sample_inv: "client_inv sample_client" "client_inv sample_registered_client" "client_inv sample_watching"
proof -
  have idle: "idle (cl_session sample_client)"
    by (simp add: idle_def sample_client_def sample_live_def sample_manager_def)
  show "client_inv sample_client" using idle by (simp add: client_inv_def sample_client_ok sample_watches)
  have "same_rest sample_client sample_registered_client" unfolding sample_registered_client_def by (rule same_rest_sync)
  with idle sample_watches(1) show "client_inv sample_registered_client"
    by (simp add: client_inv_def sample_registered_client_ok same_rest_def watches_ok_def)
  show "client_inv sample_watching" using idle sample_client_ok sample_watching_ok
    by (simp add: client_inv_def sample_watching_def)
qed


text \<open>C5: closing a client, whatever fails on the way: every subscription it holds is unsubscribed, every
  watcher it holds is stopped, its connection is drained or closed; afterwards no callback is
  delivered, the handler context is canceled, the session is closed, and only the registrations
  remain, for a later start.\<close>

theorem client_close_outcome:
  assumes "client_inv c" and "order_ok ord" and "order_ok word"
    and "client_close X ord word (\<lambda>_ _ _. None) mctx c w = (r, c', w')"
  shows "client_inv c' \<and> registered (cl_subs c') = registered (cl_subs c) \<and> held_subs (cl_subs c') = {} \<and>
    cl_watches c' = [] \<and> \<not> cl_callbacks c' \<and> \<not> cl_handler_cancel c' \<and> m_nc (cl_session c') = None \<and>
    hs_state (client_health c') = StateClosed \<and>
    (\<exists>evs. adds w w' evs \<and> held_subs (cl_subs c) \<subseteq> dropped_subs evs \<and> watched (cl_watches c) \<subseteq> stopped evs \<and>
      set_option (m_nc (cl_session c)) \<subseteq> set (released evs))"
  using close_post [OF assms] run_inv [OF step_close [OF assms]] by blast

theorem client_close_outcome_witness:
  "\<exists>r c' w' evs. client_close sim_ext rev rev (\<lambda>_ _ _. None) None sample_watching (sim_world [''drain'']) = (r, c', w') \<and>
     adds (sim_world [''drain'']) w' evs \<and> 4 \<in> stopped evs \<and> 7 \<in> set (released evs)"
proof -
  obtain r c' w' where s: "client_close sim_ext rev rev (\<lambda>_ _ _. None) None sample_watching (sim_world [''drain'']) = (r, c', w')"
    by (metis prod_cases3)
  have ord: "order_ok (rev :: string list \<Rightarrow> string list)" "order_ok (rev :: u64 list \<Rightarrow> u64 list)"
    by (simp_all add: order_ok_def)
  have "4 \<in> watched (cl_watches sample_watching)" "m_nc (cl_session sample_watching) = Some 7"
    by (auto simp: watched_def watcher_of_def sample_watching_def sample_client_def sample_live_def intro: exI [of _ 1])
  with client_close_outcome [OF sample_inv(3) ord s] s show ?thesis by auto
qed

text \<open>C6: a reconnection. The callback panics only on an intent with a nil context, never because a
  handler of the agent does; otherwise nothing is lost. The watches are renewed only once every
  registration is active again: if one subscription cannot be restored, all watches stay with the
  watchers of the old connection.\<close>

theorem client_reconnect_outcome:
  assumes "client_inv c" and "order_ok ord" and "order_ok word"
    and "nats_reconnected X ord word Pair nc c w = (x, c', w')"
  shows "(x = Returns () \<and> run_step X c w c' w' \<or> (\<exists>i a. gomap_get (cl_watches c) i = Some a \<and> aw_ctx a = None)) \<and>
    (cl_watches c' \<noteq> cl_watches c \<longrightarrow> all_active (cl_subs c'))"
  by (rule nats_reconnected_post [OF assms])

theorem client_reconnect_outcome_witness:
  "\<exists>c' w'. nats_reconnected sim_ext rev rev Pair 7 sample_registered_client (sim_world []) = (Returns (), c', w')"
proof -
  obtain x c' w' where s: "nats_reconnected sim_ext rev rev Pair 7 sample_registered_client (sim_world []) = (x, c', w')"
    by (metis prod_cases3)
  have ord: "order_ok (rev :: string list \<Rightarrow> string list)" "order_ok (rev :: u64 list \<Rightarrow> u64 list)"
    by (simp_all add: order_ok_def)
  have "same_rest sample_client sample_registered_client" unfolding sample_registered_client_def by (rule same_rest_sync)
  then have "cl_watches sample_registered_client = []" by (simp add: same_rest_def sample_client_def)
  with client_reconnect_outcome [OF sample_inv(2) ord s] s show ?thesis by auto
qed

text \<open>C11: the callback that reports a closed connection acts on whatever session there is: it closes the
  state, disables the callbacks, cancels the handler context and unsubscribes everything, without
  looking at which connection was closed. When it comes late, after the client was closed and
  started again, it does so to the new session, whose live connection stays in place.\<close>

theorem closed_callback_outcome:
  assumes "client_inv c" and "order_ok ord" and "nats_closed X ord c w = (c', w')"
  shows "m_nc (cl_session c') = m_nc (cl_session c) \<and> hs_state (client_health c') = StateClosed \<and>
    (m_on_closed (cl_session c) \<longrightarrow> held_subs (cl_subs c') = {} \<and> \<not> cl_callbacks c' \<and> \<not> cl_handler_cancel c') \<and>
    cl_watches c' = cl_watches c"
  by (rule closed_callback_post [OF assms])

theorem closed_callback_outcome_witness:
  "\<exists>c' w'. nats_closed sim_ext rev sample_registered_client (sim_world []) = (c', w') \<and>
     m_nc (cl_session c') = m_nc (cl_session sample_registered_client) \<and> hs_state (client_health c') = StateClosed"
proof -
  obtain c' w' where s: "nats_closed sim_ext rev sample_registered_client (sim_world []) = (c', w')" by fastforce
  have ord: "order_ok (rev :: string list \<Rightarrow> string list)" by (simp add: order_ok_def)
  from closed_callback_outcome [OF sample_inv(2) ord s] s show ?thesis by auto
qed

end
