(* ===== verification/Client_History.thy ===== *)
theory Client_History
  imports Lifecycle_Outcomes
begin

text \<open>
  The histories of a client: it is created by \<^verbatim>\<open>New\<close> and then goes through any sequence of
  operations and callbacks, in any order, each of them run alone. The invariant of all of them,
  and what is never lost.
\<close>

section \<open>A new client\<close>

lemma new_client_inv:
  assumes "new_client D cfg os = Inr c" and "defaults_ok D"
  shows "client_inv c \<and> held_subs (cl_subs c) = {} \<and> cl_watches c = [] \<and> \<not> cl_callbacks c \<and>
    m_nc (cl_session c) = None"
proof -
  obtain pats b m l mt s where m: "new_manager D (to_session_config cfg) l mt s = Inr m"
    and b: "new_builder pats = Inr b"
    and c: "cl_subs c = new_registry" "cl_subjects c = b" "cl_watches c = []" "cl_next_watch c = 0" "\<not> cl_callbacks c"
      "cl_session c = set_handlers (set_subscription_counts 0 0 m)"
    using assms(1) by (auto simp: new_client_def Let_def sync_subscription_health_def registry_counts_def new_registry_def
        split: sum.splits prod.splits)
  have reg: "reg_ok new_registry" by (rule reachable_ok) (rule reachable_registry.start)
  have "mgr_ok (cl_session c)" unfolding c(6)
    using new_manager_ok [OF m] by (simp add: set_handlers_ok set_subscription_counts_ok)
  moreover have eff: "effective_ok (m_effective m) \<and> idle m \<and> m_nc m = None"
    using m normalized_effective [OF assms(2)] by (auto simp: new_manager_def idle_def split: sum.splits)
  ultimately have "client_inv c"
    using c reg new_builder_ok [OF b]
    by (simp add: client_inv_def client_ok_def counts_ok_def client_health_def set_handlers_def set_subscription_counts_def
        registry_counts_def new_registry_def idle_def watches_ok_def)
  then show ?thesis using c eff
    by (auto simp: held_subs_def held_by_def new_registry_def set_handlers_def set_subscription_counts_def)
qed

section \<open>Histories\<close>

text \<open>
  \<open>others\<close> stands for what leaves the client as it is and makes no handle: the submissions,
  publications, loads, the delivery of messages, the reports, and everything the environment does.
\<close>

inductive history :: "'e ext \<Rightarrow> nats_defaults \<Rightarrow> 'e world \<Rightarrow> client \<Rightarrow> 'e world \<Rightarrow> bool"
  for X :: "'e ext" and D :: nats_defaults and w0 :: "'e world" where
  created: "new_client D cfg os = Inr c \<Longrightarrow> history X D w0 c w0"
| started: "history X D w0 c w \<Longrightarrow> order_ok ord \<Longrightarrow> client_start X ord mctx c w = (r, c', w') \<Longrightarrow> history X D w0 c' w'"
| closed: "history X D w0 c w \<Longrightarrow> order_ok ord \<Longrightarrow> order_ok word \<Longrightarrow>
    client_close X ord word (\<lambda>_ _ _. None) mctx c w = (r, c', w') \<Longrightarrow> history X D w0 c' w'"
| registering: "history X D w0 c w \<Longrightarrow> ids_left (cl_subs c) \<Longrightarrow> register_request X req h opts c w = (r, c', w') \<Longrightarrow>
    history X D w0 c' w'"
| watching: "history X D w0 c w \<Longrightarrow> watch_ids_left c \<Longrightarrow> client_watch_desired X Pair mctx target h c w = (i, c', w') \<Longrightarrow>
    history X D w0 c' w'"
| stopping: "history X D w0 c w \<Longrightarrow> stop_desired_watch X i b c w = (r, b', c', w') \<Longrightarrow> history X D w0 c' w'"
| disconnected: "history X D w0 c w \<Longrightarrow> nats_disconnected X err c w = (c', w') \<Longrightarrow> history X D w0 c' w'"
| connection_closed: "history X D w0 c w \<Longrightarrow> order_ok ord \<Longrightarrow> nats_closed X ord c w = (c', w') \<Longrightarrow> history X D w0 c' w'"
| reconnected: "history X D w0 c w \<Longrightarrow> order_ok ord \<Longrightarrow> order_ok word \<Longrightarrow>
    nats_reconnected X ord word Pair nc c w = (Returns u, c', w') \<Longrightarrow> history X D w0 c' w'"
| others: "history X D w0 c w \<Longrightarrow> only plain w w' \<Longrightarrow> history X D w0 c w'"

lemma history_step:
  assumes "history X D w0 c w" and "defaults_ok D"
  shows "\<exists>cfg os c0. new_client D cfg os = Inr c0 \<and> run_step X c0 w0 c w"
  using assms(1)
proof (induction rule: history.induct)
  case (created cfg os c)
  with new_client_inv [OF created assms(2)] show ?case by (blast intro: step_world only_refl)
next
  case (started c w ord mctx r c' w')
  with step_then step_start show ?case by metis
next
  case (closed c w ord word mctx r c' w')
  with step_then step_close show ?case by metis
next
  case (registering c w req h opts r c' w')
  with step_then step_register show ?case by metis
next
  case (watching c w mctx target h i c' w')
  with step_then step_watch_desired show ?case by metis
next
  case (stopping c w i b r b' c' w')
  with step_then step_stop_desired show ?case by metis
next
  case (disconnected c w err c' w')
  with step_then step_nats_disconnected show ?case by metis
next
  case (connection_closed c w ord c' w')
  with step_then step_nats_closed show ?case by metis
next
  case (reconnected c w ord word nc u c' w')
  with step_then step_nats_reconnected show ?case by metis
next
  case (others c w w')
  with step_then step_world show ?case by metis
qed

section \<open>Property\<close>

text \<open>C3: over the whole life of a client, whatever operations and callbacks run one after another and
  whatever the environment answers: the invariant of the client holds (the registry's two indices
  agree, the counters of the health snapshot are the registry's, the session's handles and state
  fit together, the identities of the watches are fresh), and every subscription, watcher and
  connection that was ever made is held by the client or was given back: unsubscribed, stopped,
  drained or closed (or the NATS client itself reports the connection closed).\<close>

theorem history_invariant:
  assumes "history X D w0 c w" and "defaults_ok D"
  shows "client_inv c \<and> (\<exists>evs. adds w0 w evs \<and>
    made_subs evs \<subseteq> held_subs (cl_subs c) \<union> dropped_subs evs \<and>
    started evs \<subseteq> watched (cl_watches c) \<union> stopped evs \<and>
    set (opened evs) \<subseteq> set_option (m_nc (cl_session c)) \<union> set (released evs) \<union> reported_closed X)"
proof -
  obtain cfg os c0 where "new_client D cfg os = Inr c0" and s: "run_step X c0 w0 c w"
    using history_step [OF assms] by blast
  then have "held_subs (cl_subs c0) = {}" using new_client_inv assms(2) by blast
  with s show ?thesis
    by (auto simp: run_step_def accounts_def watch_accounts_def conn_accounts_def)
qed

lemma sample_new_client: "\<exists>c. new_client sample_defaults sample_client_config [] = Inr c"
proof -
  have "to_session_config sample_client_config = sample_config"
    by (simp add: to_session_config_def to_session_tls_def sample_client_config_def sample_config_def)
  moreover have "patterns_from_config (to_pattern_config (ac_subjects sample_client_config)) = Inr default_patterns"
    using default_patterns_valid
    by (simp add: patterns_from_config_def to_pattern_config_def sample_client_config_def override_def Let_def
        default_patterns_def)
  moreover have "new_builder default_patterns = Inr default_builder"
    by (simp add: new_builder_def default_patterns_valid default_builder_def)
  ultimately show ?thesis
    by (simp add: new_client_def no_options_def new_manager_def sample_normalized Let_def)
qed

theorem history_invariant_witness:
  "\<exists>c c' w' r. new_client sample_defaults sample_client_config [] = Inr c \<and>
     client_start sim_ext rev None c (sim_world []) = (r, c', w') \<and> client_inv c'"
proof -
  obtain c where c: "new_client sample_defaults sample_client_config [] = Inr c"
    using sample_new_client by blast
  obtain r c' w' where s: "client_start sim_ext rev None c (sim_world []) = (r, c', w')" by (metis prod_cases3)
  have ord: "order_ok (rev :: string list \<Rightarrow> string list)" by (simp add: order_ok_def)
  have "history sim_ext sample_defaults (sim_world []) c' w'"
    by (rule history.started [OF history.created [OF c] ord s])
  from history_invariant [OF this sample_defaults_ok] c s show ?thesis by blast
qed

end
