(* ===== verification/Session_Protocol.thy ===== *)
theory Session_Protocol
  imports Lifecycle_Outcomes
begin

text \<open>
  Concurrent use of the session manager: any number of goroutines in \<^verbatim>\<open>Start\<close> and \<^verbatim>\<open>Close\<close>, and the
  callbacks of the NATS client, interleaved at the operations on the mutex
  (\<^verbatim>\<open>internal/session/session.go\<close>, \<^verbatim>\<open>internal/session/callbacks.go\<close>). Each step is one of the
  stretches of code that \<open>mgr_start\<close> and \<open>mgr_close\<close> are composed of.
\<close>

section \<open>The protocol\<close>

text \<open>
  Where a goroutine stands between two steps. \<^verbatim>\<open>Start\<close>: the flag is set and the channel made; the
  connection is set up or has failed; the result is entered and only the deferred function is
  left. \<^verbatim>\<open>Close\<close>: waiting for the channel of a start; about to drain a connection; about to enter
  the end.
\<close>

datatype start_phase =
    Connecting nat
  | SetUp nat "start_failure + conn \<times> jetstream \<times> kv_handle"
  | Ending nat

datatype close_phase =
    Awaiting nat
  | Draining "conn option"
  | Drained "conn option" "gerr option"

fun start_channel :: "start_phase \<Rightarrow> nat" where
  "start_channel (Connecting ch) = ch"
| "start_channel (SetUp ch r) = ch"
| "start_channel (Ending ch) = ch"

text \<open>
  The goroutines are numbered. \<open>pr_lost\<close> is a ghost: the connections that the end of a \<^verbatim>\<open>Close\<close>
  has removed from the manager although it was another connection that this \<^verbatim>\<open>Close\<close> drained.
\<close>

record 'e protocol =
  pr_session :: manager
  pr_world :: "'e world"
  pr_starts :: "nat \<Rightarrow> start_phase option"
  pr_closes :: "nat \<Rightarrow> close_phase option"
  pr_lost :: "conn set"

definition goto :: "manager \<times> 'e world \<Rightarrow> 'e protocol \<Rightarrow> 'e protocol" where
  "goto mw s = s\<lparr>pr_session := fst mw, pr_world := snd mw\<rparr>"

definition set_start :: "nat \<Rightarrow> start_phase option \<Rightarrow> 'e protocol \<Rightarrow> 'e protocol" where
  "set_start i p s = s\<lparr>pr_starts := (pr_starts s)(i := p)\<rparr>"

definition set_close :: "nat \<Rightarrow> close_phase option \<Rightarrow> 'e protocol \<Rightarrow> 'e protocol" where
  "set_close j p s = s\<lparr>pr_closes := (pr_closes s)(j := p)\<rparr>"

text \<open>
  With \<open>serial\<close>, no start begins while a close is in progress; without it the callers are free.
\<close>

inductive proto_step :: "'e ext \<Rightarrow> bool \<Rightarrow> 'e protocol \<Rightarrow> 'e protocol \<Rightarrow> bool"
  for X :: "'e ext" and serial :: bool where
  start_returned: "start_begin X (pr_session s) (pr_world s) = (d, mw) \<Longrightarrow> (\<And>ch. d \<noteq> StartProceed ch) \<Longrightarrow>
    proto_step X serial s (goto mw s)"
| start_entered: "start_begin X (pr_session s) (pr_world s) = (StartProceed ch, mw) \<Longrightarrow> pr_starts s i = None \<Longrightarrow>
    (serial \<Longrightarrow> pr_closes s = (\<lambda>_. None)) \<Longrightarrow>
    proto_step X serial s (set_start i (Some (Connecting ch)) (goto mw s))"
| start_set_up: "pr_starts s i = Some (Connecting ch) \<Longrightarrow>
    start_setup X (m_effective (pr_session s)) ctx (pr_world s) = (r, w) \<Longrightarrow>
    proto_step X serial s (set_start i (Some (SetUp ch r)) (goto (pr_session s, w) s))"
| start_failed: "pr_starts s i = Some (SetUp ch (Inl f)) \<Longrightarrow> start_fail f (pr_session s) (pr_world s) = mw \<Longrightarrow>
    proto_step X serial s (set_start i (Some (Ending ch)) (goto mw s))"
| start_committed: "pr_starts s i = Some (SetUp ch (Inr (nc, js, kv))) \<Longrightarrow>
    start_commit X nc js kv (pr_session s) (pr_world s) = (r, mw) \<Longrightarrow>
    proto_step X serial s (set_start i (Some (Ending ch)) (goto mw s))"
| start_ended: "pr_starts s i = Some (Ending ch) \<Longrightarrow> start_defer ch (pr_session s) (pr_world s) = mw \<Longrightarrow>
    proto_step X serial s (set_start i None (goto mw s))"
| close_returned: "close_begin (pr_session s) (pr_world s) = (CloseNothing, mw) \<Longrightarrow>
    proto_step X serial s (goto mw s)"
| close_entered: "close_begin (pr_session s) (pr_world s) = (CloseProceed ch nc, mw) \<Longrightarrow> pr_closes s j = None \<Longrightarrow>
    proto_step X serial s (set_close j (Some (case ch of None \<Rightarrow> Draining nc | Some n \<Rightarrow> Awaiting n)) (goto mw s))"
| close_abandoned: "pr_closes s j = Some (Awaiting ch) \<Longrightarrow>
    close_abandon cause (pr_session s) (pr_world s) = (r, mw) \<Longrightarrow>
    proto_step X serial s (set_close j None (goto mw s))"
| close_resumed: "pr_closes s j = Some (Awaiting ch) \<Longrightarrow>
    (\<And>i p. pr_starts s i = Some p \<Longrightarrow> start_channel p \<noteq> ch) \<Longrightarrow>
    proto_step X serial s (set_close j (Some (Draining (m_nc (pr_session s)))) s)"
| close_drained: "pr_closes s j = Some (Draining nc) \<Longrightarrow>
    close_drain X (m_effective (pr_session s)) ctx nc (pr_world s) = (err, w) \<Longrightarrow>
    proto_step X serial s (set_close j (Some (Drained nc err)) (goto (pr_session s, w) s))"
| close_finished: "pr_closes s j = Some (Drained nc err) \<Longrightarrow>
    close_finish err (pr_session s) (pr_world s) = (r, mw) \<Longrightarrow>
    proto_step X serial s (set_close j None (goto mw
      (s\<lparr>pr_lost := pr_lost s \<union> (set_option (m_nc (pr_session s)) - set_option nc)\<rparr>)))"
| lost_connection: "on_disconnect err (pr_session s) (pr_world s) = (b, mw) \<Longrightarrow> proto_step X serial s (goto mw s)"
| connection_closed: "on_closed (pr_session s) (pr_world s) = (b, mw) \<Longrightarrow> proto_step X serial s (goto mw s)"
| reconnected: "rebind_after_reconnect X nc (pr_session s) (pr_world s) = (b, mw) \<Longrightarrow> proto_step X serial s (goto mw s)"
| environment: "adds (pr_world s) w [] \<Longrightarrow> proto_step X serial s (goto (pr_session s, w) s)"

text \<open>The beginning: a manager that nobody is using yet, or not any more.\<close>

definition protocol_start :: "manager \<Rightarrow> 'e world \<Rightarrow> 'e protocol" where
  "protocol_start m w = \<lparr>pr_session = m, pr_world = w, pr_starts = (\<lambda>_. None), pr_closes = (\<lambda>_. None), pr_lost = {}\<rparr>"

inductive proto_run :: "'e ext \<Rightarrow> bool \<Rightarrow> manager \<Rightarrow> 'e world \<Rightarrow> 'e protocol \<Rightarrow> bool"
  for X :: "'e ext" and serial :: bool and m0 :: manager and w0 :: "'e world" where
  begun: "mgr_ok m0 \<Longrightarrow> idle m0 \<Longrightarrow> proto_run X serial m0 w0 (protocol_start m0 w0)"
| step: "proto_run X serial m0 w0 s \<Longrightarrow> proto_step X serial s s' \<Longrightarrow> proto_run X serial m0 w0 s'"

lemma moved [simp]:
  "pr_session (goto mw s) = fst mw" "pr_world (goto mw s) = snd mw" "pr_starts (goto mw s) = pr_starts s"
  "pr_closes (goto mw s) = pr_closes s" "pr_lost (goto mw s) = pr_lost s"
  "pr_session (set_start i p s) = pr_session s" "pr_world (set_start i p s) = pr_world s"
  "pr_starts (set_start i p s) = (pr_starts s)(i := p)" "pr_closes (set_start i p s) = pr_closes s"
  "pr_lost (set_start i p s) = pr_lost s"
  "pr_session (set_close j q s) = pr_session s" "pr_world (set_close j q s) = pr_world s"
  "pr_starts (set_close j q s) = pr_starts s" "pr_closes (set_close j q s) = (pr_closes s)(j := q)"
  "pr_lost (set_close j q s) = pr_lost s"
  by (simp_all add: goto_def set_start_def set_close_def)

section \<open>The flags\<close>

text \<open>
  One start at most is in progress, exactly while the flag is set, and the manager's channel is
  its own. The two closing flags are set only while somebody is in progress who will clear them.
\<close>

definition clears :: "close_phase \<Rightarrow> bool" where
  "clears q \<longleftrightarrow> (\<forall>ch. q \<noteq> Awaiting ch)"

definition one_start :: "(nat \<Rightarrow> start_phase option) \<Rightarrow> nat option \<Rightarrow> bool" where
  "one_start S channel \<longleftrightarrow> (case channel of
     None \<Rightarrow> S = (\<lambda>_. None)
   | Some ch \<Rightarrow> \<exists>i p. S = [i \<mapsto> p] \<and> start_channel p = ch)"

definition proto_ok :: "'e protocol \<Rightarrow> bool" where
  "proto_ok s \<longleftrightarrow> mgr_ok (pr_session s) \<and> one_start (pr_starts s) (m_start_done (pr_session s)) \<and>
     (m_closing (pr_session s) \<or> m_close_requested (pr_session s) \<longrightarrow>
        m_start_done (pr_session s) \<noteq> None \<or> (\<exists>j q. pr_closes s j = Some q \<and> clears q))"

lemma one_start_None [simp]: "one_start S None \<longleftrightarrow> S = (\<lambda>_. None)"
  by (simp add: one_start_def)

lemma one_start_empty [simp]: "one_start (\<lambda>_. None) channel \<longleftrightarrow> channel = None"
proof (cases channel)
  case (Some ch)
  have "[i \<mapsto> p] i \<noteq> (\<lambda>_. None) i" for i :: nat and p :: start_phase by simp
  then have "(\<lambda>_. None) \<noteq> [i \<mapsto> p]" for i :: nat and p :: start_phase by metis
  then have "\<not> one_start (\<lambda>_. None) (Some ch)" unfolding one_start_def option.case by blast
  then show ?thesis by (simp add: Some)
qed simp

lemma one_start_Some:
  assumes "one_start S channel" and "S i = Some p"
  shows "channel = Some (start_channel p) \<and> S = [i \<mapsto> p]"
proof -
  obtain ch k q where "channel = Some ch" "S = [k \<mapsto> q]" "start_channel q = ch"
    using assms by (cases channel) (auto simp: one_start_def)
  with assms(2) show ?thesis by (cases "k = i") auto
qed

lemma one_start_at [simp]: "one_start [i \<mapsto> p] (Some (start_channel p))"
  by (auto simp: one_start_def)

lemma proto_start:
  assumes "proto_ok s" and "pr_starts s i = Some p"
  shows "m_start_done (pr_session s) = Some (start_channel p)" and "pr_starts s = [i \<mapsto> p]"
proof -
  have "one_start (pr_starts s) (m_start_done (pr_session s))" using assms(1) by (simp add: proto_ok_def)
  from one_start_Some [OF this assms(2)]
  show "m_start_done (pr_session s) = Some (start_channel p)" "pr_starts s = [i \<mapsto> p]" by simp_all
qed

text \<open>The flags each stretch of code leaves alone.\<close>

definition same_flags :: "manager \<Rightarrow> manager \<Rightarrow> bool" where
  "same_flags m m' \<longleftrightarrow> m_start_done m' = m_start_done m \<and> m_closing m' = m_closing m \<and>
     m_close_requested m' = m_close_requested m \<and> m_nc m' = m_nc m"

lemma same_flags_steps:
  "start_begin X m w = (d, m', w') \<Longrightarrow> (\<And>ch. d \<noteq> StartProceed ch) \<Longrightarrow> same_flags m m'"
  "start_fail f m w = (m', w') \<Longrightarrow> same_flags m m'"
  "close_abandon cause m w = (r, m', w') \<Longrightarrow> same_flags m m'"
  "on_disconnect e m w = (b, m', w') \<Longrightarrow> same_flags m m'"
  "on_closed m w = (b, m', w') \<Longrightarrow> same_flags m m'"
  "rebind_after_reconnect X nc m w = (b, m', w') \<Longrightarrow> same_flags m m'"
  subgoal by (cases rule: start_begin_cases, assumption) (auto simp: same_flags_def)
  by (auto simp: same_flags_def start_fail_def close_abandon_def on_disconnect_def on_closed_def
      rebind_after_reconnect_def rebind_commit_def health_defs Let_def split: if_splits prod.splits sum.splits)

lemma proto_ok_same:
  assumes "proto_ok s" and "same_flags (pr_session s) m" and "mgr_ok m"
  shows "proto_ok (goto (m, w) s)"
  using assms by (simp add: proto_ok_def same_flags_def)

text \<open>The flags the others change.\<close>

lemma flags_steps:
  "start_commit X nc js kv m w = (r, m', w') \<Longrightarrow> m_start_done m' = m_start_done m \<and>
     (m_closing m' \<longrightarrow> m_closing m) \<and> (m_close_requested m' \<longrightarrow> m_close_requested m) \<and>
     (m_nc m' = m_nc m \<or> m_nc m' = Some nc \<and> \<not> m_close_requested m \<and> \<not> m_closing m)"
  "m_start_done m = Some ch \<Longrightarrow> start_defer ch m w = (m', w') \<Longrightarrow> m_start_done m' = None \<and>
     \<not> m_closing m' \<and> \<not> m_close_requested m' \<and> m_nc m' = m_nc m"
  "close_begin m w = (CloseNothing, m', w') \<Longrightarrow> m_start_done m' = m_start_done m \<and> m_nc m' = m_nc m \<and>
     (m_closing m' \<longrightarrow> m_closing m) \<and> (m_close_requested m' \<longrightarrow> m_close_requested m)"
  "close_begin m w = (CloseProceed waits held, m', w') \<Longrightarrow> waits = m_start_done m \<and> held = m_nc m \<and>
     m_start_done m' = m_start_done m \<and> m_nc m' = m_nc m"
  "close_finish e m w = (r, m', w') \<Longrightarrow> m_start_done m' = m_start_done m \<and> m_nc m' = None \<and>
     \<not> m_closing m' \<and> \<not> m_close_requested m'"
  by (auto simp: start_commit_def start_defer_def close_begin_def close_finish_def health_defs Let_def
      split: if_splits prod.splits)

lemma proto_ok_start:
  assumes "proto_ok s" and "mgr_ok m" and "m_start_done m = m_start_done (pr_session s)"
    and "pr_starts s i = Some p" and "start_channel q = start_channel p"
  shows "proto_ok (set_start i (Some q) (goto (m, w) s))"
proof -
  from proto_start [OF assms(1,4)] one_start_at [of i q] assms(2,3,5) show ?thesis by (simp add: proto_ok_def)
qed

lemma proto_ok_clear:
  assumes "proto_ok s" and "mgr_ok m" and "m_start_done m = m_start_done (pr_session s)"
    and "\<not> m_closing m" and "\<not> m_close_requested m"
  shows "proto_ok (set_close j None (goto (m, w) (s\<lparr>pr_lost := l\<rparr>)))"
  using assms by (simp add: proto_ok_def)

lemma proto_ok_close:
  assumes "proto_ok s" and "clears q \<or> m_start_done m \<noteq> None" and "mgr_ok m"
    and "m_start_done m = m_start_done (pr_session s)"
  shows "proto_ok (set_close j (Some q) (goto (m, w) s))"
  using assms by (auto simp: proto_ok_def)

lemma proto_ok_unawait:
  assumes "proto_ok s" and "pr_closes s j = Some (Awaiting ch)" and "same_flags (pr_session s) m" and "mgr_ok m"
  shows "proto_ok (set_close j None (goto (m, w) s))"
proof -
  have "(\<exists>k q. pr_closes s k = Some q \<and> clears q) \<Longrightarrow> \<exists>k q. k \<noteq> j \<and> pr_closes s k = Some q \<and> clears q"
    using assms(2) by (metis clears_def option.inject)
  with assms show ?thesis by (auto simp: proto_ok_def same_flags_def)
qed

lemma flags_done: "mgr_ok m \<Longrightarrow> m_starting m \<longleftrightarrow> m_start_done m \<noteq> None"
  by (auto simp: mgr_ok_def flags_ok_def)

lemma proto_ok_enter:
  assumes "proto_ok s" and "start_begin X (pr_session s) (pr_world s) = (StartProceed ch, m, w)"
  shows "proto_ok (set_start i (Some (Connecting ch)) (goto (m, w) s))"
proof -
  have m: "mgr_ok (pr_session s)" using assms(1) by (simp add: proto_ok_def)
  from assms(2) have b: "\<not> m_starting (pr_session s)" "m_start_done m = Some ch"
    by (cases rule: start_begin_cases; simp)+
  then have "pr_starts s = (\<lambda>_. None)" using assms(1) flags_done [OF m] by (simp add: proto_ok_def)
  with b(2) start_begin_ok [OF m assms(2)] one_start_at [of i "Connecting ch"] show ?thesis by (simp add: proto_ok_def)
qed

lemma proto_ok_leave:
  assumes "proto_ok s" and "pr_starts s i = Some (Ending ch)"
    and "start_defer ch (pr_session s) (pr_world s) = (m, w)"
  shows "proto_ok (set_start i None (goto (m, w) s))"
proof -
  have d: "m_start_done (pr_session s) = Some ch" "pr_starts s = [i \<mapsto> Ending ch]" "mgr_ok (pr_session s)"
    using proto_start [OF assms(1,2)] assms(1) by (simp_all add: proto_ok_def)
  with flags_steps(2) [OF d(1) assms(3)] start_defer_ok [OF d(3,1) assms(3)] show ?thesis
    by (simp add: proto_ok_def)
qed

lemma proto_ok_step:
  assumes "proto_step X serial s s'" and "proto_ok s"
  shows "proto_ok s'"
proof -
  have m: "mgr_ok (pr_session s)" using assms(2) by (simp add: proto_ok_def)
  note same = proto_ok_same [OF assms(2)]
  from assms(1) show ?thesis
  proof cases
    case (start_returned d mw)
    then show ?thesis using same same_flags_steps(1) start_begin_ok [OF m] by (cases mw) blast
  next
    case (start_entered ch mw i)
    then show ?thesis using proto_ok_enter [OF assms(2)] by (cases mw) blast
  next
    case (start_set_up i ch ctx r w)
    then show ?thesis using proto_ok_start [OF assms(2) m] by simp
  next
    case (start_failed i ch f mw)
    then obtain m' w' where b: "start_fail f (pr_session s) (pr_world s) = (m', w')" "mw = (m', w')"
      by (cases mw) simp
    then show ?thesis using start_failed(1,2) same_flags_steps(2) [OF b(1)]
        proto_ok_start [OF assms(2) start_fail_ok [OF m b(1)]] by (simp add: same_flags_def)
  next
    case (start_committed i ch nc js kv r mw)
    then obtain m' w' where b: "start_commit X nc js kv (pr_session s) (pr_world s) = (r, m', w')" "mw = (m', w')"
      by (cases mw) simp
    then show ?thesis using start_committed(1,2) flags_steps(1) [OF b(1)]
        proto_ok_start [OF assms(2) start_commit_ok [OF m b(1)]] by simp
  next
    case (start_ended i ch mw)
    then show ?thesis using proto_ok_leave [OF assms(2)] by (cases mw) simp
  next
    case (close_returned mw)
    then show ?thesis using assms(2) flags_steps(3) close_begin_ok [OF m] by (cases mw) (fastforce simp: proto_ok_def)
  next
    case (close_entered ch nc mw j)
    then obtain m' w' where b: "close_begin (pr_session s) (pr_world s) = (CloseProceed ch nc, m', w')" "mw = (m', w')"
      by (cases mw) simp
    with close_entered(1) show ?thesis
      using proto_ok_close [OF assms(2) _ close_begin_ok [OF m b(1)]] flags_steps(4) [OF b(1)]
      by (auto simp: clears_def split: option.splits)
  next
    case (close_abandoned j ch cause r mw)
    then obtain m' w' where b: "close_abandon cause (pr_session s) (pr_world s) = (r, m', w')" "mw = (m', w')"
      by (cases mw) simp
    then show ?thesis unfolding close_abandoned(1)
      using proto_ok_unawait [OF assms(2) close_abandoned(2) same_flags_steps(3) close_abandon_ok [OF m]] by blast
  next
    case (close_resumed j ch)
    then show ?thesis using assms(2) by (fastforce simp: proto_ok_def clears_def)
  next
    case (close_drained j nc ctx err w)
    then show ?thesis using proto_ok_close [OF assms(2) _ m] by (simp add: clears_def)
  next
    case (close_finished j nc err r mw)
    then show ?thesis using proto_ok_clear [OF assms(2)] close_finish_ok m flags_steps(5) by (cases mw) blast
  next
    case (lost_connection err b mw)
    then show ?thesis using same same_flags_steps(4) on_disconnect_ok [OF m] by (cases mw) blast
  next
    case (connection_closed b mw)
    then show ?thesis using same same_flags_steps(5) on_closed_ok [OF m] by (cases mw) blast
  next
    case (reconnected nc b mw)
    then show ?thesis using same same_flags_steps(6) rebind_after_reconnect_ok [OF m] by (cases mw) blast
  next
    case (environment w)
    then show ?thesis using same m by (simp add: same_flags_def)
  qed
qed

lemma proto_run_ok: "proto_run X serial m0 w0 s \<Longrightarrow> proto_ok s"
proof (induction rule: proto_run.induct)
  case begun
  then show ?case by (simp add: proto_ok_def protocol_start_def idle_def)
qed (rule proto_ok_step)

section \<open>The connections\<close>

definition set_up_conns :: "'e protocol \<Rightarrow> conn set" where
  "set_up_conns s = {nc. \<exists>i ch js kv. pr_starts s i = Some (SetUp ch (Inr (nc, js, kv)))}"

definition drained_conns :: "'e protocol \<Rightarrow> conn set" where
  "drained_conns s = {nc. \<exists>j err. pr_closes s j = Some (Drained (Some nc) err)}"

definition held_conns :: "'e protocol \<Rightarrow> conn set" where
  "held_conns s = set_option (m_nc (pr_session s)) \<union> set_up_conns s"

definition accounted :: "'e ext \<Rightarrow> manager \<Rightarrow> 'e world \<Rightarrow> 'e protocol \<Rightarrow> bool" where
  "accounted X m0 w0 s \<longleftrightarrow> (\<exists>evs. adds w0 (pr_world s) evs \<and> drained_conns s \<subseteq> set (released evs) \<and>
     set_option (m_nc m0) \<union> set (opened evs) \<subseteq>
       held_conns s \<union> set (released evs) \<union> pr_lost s \<union> reported_closed X)"

text \<open>The connection that a start in progress will replace is one that is reported closed.\<close>

fun replaces :: "start_phase \<Rightarrow> bool" where
  "replaces (Ending ch) = False"
| "replaces p = True"

definition replaceable :: "'e ext \<Rightarrow> 'e protocol \<Rightarrow> bool" where
  "replaceable X s \<longleftrightarrow> (\<forall>i p. pr_starts s i = Some p \<and> replaces p \<longrightarrow>
     set_option (m_nc (pr_session s)) \<subseteq> reported_closed X)"

lemma accountedI:
  assumes "accounted X m0 w0 s" and "adds (pr_world s) (pr_world s') evs"
    and "held_conns s \<union> set (opened evs) \<subseteq> held_conns s' \<union> set (released evs) \<union> pr_lost s' \<union> reported_closed X"
    and "pr_lost s \<subseteq> pr_lost s'" and "drained_conns s' \<subseteq> drained_conns s \<union> set (released evs)"
  shows "accounted X m0 w0 s'"
proof -
  obtain xs where xs: "adds w0 (pr_world s) xs" "drained_conns s \<subseteq> set (released xs)"
    "set_option (m_nc m0) \<union> set (opened xs) \<subseteq> held_conns s \<union> set (released xs) \<union> pr_lost s \<union> reported_closed X"
    using assms(1) by (auto simp: accounted_def)
  have "drained_conns s' \<subseteq> set (released (xs @ evs))" using assms(5) xs(2) by auto
  moreover have "set_option (m_nc m0) \<union> set (opened (xs @ evs)) \<subseteq>
      held_conns s' \<union> set (released (xs @ evs)) \<union> pr_lost s' \<union> reported_closed X"
    using assms(3,4) xs(3) unfolding opened_simps released_simps set_append by blast
  ultimately show ?thesis unfolding accounted_def using adds_trans [OF xs(1) assms(2)] by blast
qed

lemma plain_adds: "only plain w w' \<Longrightarrow> \<exists>evs. adds w w' evs \<and> opened evs = []"
  using nothing_opened by (fastforce simp: only_def plain_def)

text \<open>Steps that make nothing and keep every connection where it is.\<close>

lemma accounted_plain:
  assumes "accounted X m0 w0 s" and "only plain (pr_world s) (pr_world s')"
    and "held_conns s \<subseteq> held_conns s'" and "pr_lost s \<subseteq> pr_lost s'" and "drained_conns s' \<subseteq> drained_conns s"
  shows "accounted X m0 w0 s'"
proof -
  obtain evs where "adds (pr_world s) (pr_world s') evs" "opened evs = []" using plain_adds [OF assms(2)] by blast
  then show ?thesis by (intro accountedI [OF assms(1)]) (use assms(3-5) in auto)
qed

lemma only_locked:
  "start_begin X m w = (d, mw) \<Longrightarrow> only plain w (snd mw)"
  "start_fail f m w = mw \<Longrightarrow> only plain w (snd mw)"
  "start_defer ch m w = mw \<Longrightarrow> only plain w (snd mw)"
  "close_begin m w = (cd, mw) \<Longrightarrow> only plain w (snd mw)"
  "close_abandon cause m w = (r, mw) \<Longrightarrow> only plain w (snd mw)"
  "close_finish e m w = (r, mw) \<Longrightarrow> only plain w (snd mw)"
  "on_disconnect e m w = (b, mw) \<Longrightarrow> only plain w (snd mw)"
  "on_closed m w = (b, mw) \<Longrightarrow> only plain w (snd mw)"
  "rebind_after_reconnect X nc m w = (b, mw) \<Longrightarrow> only plain w (snd mw)"
proof -
  have "only plain w (snd (snd (start_begin X m w)))"
    by (simp add: start_begin_def Let_def case_prod_beta split: option.split)
  then show "start_begin X m w = (d, mw) \<Longrightarrow> only plain w (snd mw)" by simp
  have "only plain w (snd (start_fail f m w))" by (simp add: start_fail_def case_prod_beta event_kinds)
  then show "start_fail f m w = mw \<Longrightarrow> only plain w (snd mw)" by simp
  have "only plain w (snd (start_defer ch m w))" by (simp add: start_defer_def Let_def case_prod_beta)
  then show "start_defer ch m w = mw \<Longrightarrow> only plain w (snd mw)" by simp
  have "only plain w (snd (snd (close_begin m w)))" by (simp add: close_begin_def case_prod_beta)
  then show "close_begin m w = (cd, mw) \<Longrightarrow> only plain w (snd mw)" by simp
  have "only plain w (snd (snd (close_abandon cause m w)))" by (simp add: close_abandon_def case_prod_beta)
  then show "close_abandon cause m w = (r, mw) \<Longrightarrow> only plain w (snd mw)" by simp
  have "only plain w (snd (snd (close_finish e m w)))" by (simp add: close_finish_def case_prod_beta)
  then show "close_finish e m w = (r, mw) \<Longrightarrow> only plain w (snd mw)" by simp
  show "on_disconnect e m w = (b, mw) \<Longrightarrow> only plain w (snd mw)" using only_callbacks(3) [of w w e m] by simp
  show "on_closed m w = (b, mw) \<Longrightarrow> only plain w (snd mw)" using only_callbacks(4) [of w w m] by simp
  show "rebind_after_reconnect X nc m w = (b, mw) \<Longrightarrow> only plain w (snd mw)" using only_callbacks(5) [of w w X nc m] by simp
qed

text \<open>The steps that move a connection.\<close>

lemma set_up_moved:
  assumes "pr_starts s i = p"
  shows "set_up_conns s \<subseteq> set_up_conns (set_start i q (goto mw s)) \<union> {nc. \<exists>ch js kv. p = Some (SetUp ch (Inr (nc, js, kv)))}"
proof
  fix nc
  assume "nc \<in> set_up_conns s"
  then obtain k ch js kv where k: "pr_starts s k = Some (SetUp ch (Inr (nc, js, kv)))" by (auto simp: set_up_conns_def)
  show "nc \<in> set_up_conns (set_start i q (goto mw s)) \<union> {nc. \<exists>ch js kv. p = Some (SetUp ch (Inr (nc, js, kv)))}"
  proof (cases "k = i")
    case True
    with k assms show ?thesis by auto
  next
    case False
    with k have "pr_starts (set_start i q (goto mw s)) k = Some (SetUp ch (Inr (nc, js, kv)))" by simp
    then show ?thesis by (auto simp only: set_up_conns_def)
  qed
qed

lemma accounted_set_up:
  assumes "accounted X m0 w0 s" and "pr_starts s i = Some (Connecting ch)"
    and "start_setup X cfg ctx (pr_world s) = (r, w)"
  shows "accounted X m0 w0 (set_start i (Some (SetUp ch r)) (goto (pr_session s, w) s))"
proof -
  have keep: "set_up_conns s \<subseteq> set_up_conns (set_start i (Some (SetUp ch r)) (goto (pr_session s, w) s))"
    using set_up_moved [OF assms(2)] by simp
  from assms(3) obtain evs where evs: "adds (pr_world s) w evs"
    "set (opened evs) \<subseteq> {nc. \<exists>js kv. r = Inr (nc, js, kv)} \<union> set (released evs)"
  proof (cases rule: start_setup_cases)
    case (failed f evs)
    then show ?thesis by (intro that [of evs]) simp_all
  next
    case (ready nc js kv evs)
    then show ?thesis by (intro that [of evs]) auto
  qed
  have new: "nc \<in> set_up_conns (set_start i (Some (SetUp ch r)) (goto (pr_session s, w) s))"
    if "r = Inr (nc, js, kv)" for nc js kv using that by (auto simp: set_up_conns_def)
  show ?thesis
    by (rule accountedI [OF assms(1), of _ evs])
      (use evs new keep in \<open>auto simp: held_conns_def drained_conns_def\<close>)
qed

lemma accounted_commit:
  assumes "accounted X m0 w0 s" and "replaceable X s" and "pr_starts s i = Some (SetUp ch (Inr (nc, js, kv)))"
    and "start_commit X nc js kv (pr_session s) (pr_world s) = (r, m, w)"
  shows "accounted X m0 w0 (set_start i (Some (Ending ch)) (goto (m, w) s))"
proof -
  have old: "set_option (m_nc (pr_session s)) \<subseteq> reported_closed X"
    using assms(2,3) by (fastforce simp: replaceable_def)
  obtain evs where evs: "adds (pr_world s) w evs" "opened evs = []"
    "nc \<in> set_option (m_nc m) \<union> set (released evs)" "m_nc m = m_nc (pr_session s) \<or> m_nc m = Some nc"
  proof (cases "m_close_requested (pr_session s) \<or> m_closing (pr_session s)")
    case True
    with assms(4) show ?thesis
      by (intro that [of "(if m_metrics (pr_session s) then [EvSetState ''closed''] else []) @ [EvCloseConn nc]"])
        (auto simp: start_commit_def set_closed_def set_state_def close_conn_def adds_def split: prod.splits)
  next
    case False
    then have "\<not> m_closing (pr_session s)" "\<not> m_close_requested (pr_session s)" by simp_all
    then obtain url where q: "m_nc m = Some nc"
      "adds (pr_world s) w (if m_metrics (pr_session s) then [EvSetState ''connected'', EvIncConnect ''success''] else [])"
      by (rule start_commit_quiet [OF assms(4)]) simp
    show ?thesis by (rule that [OF q(2)]) (simp_all add: q(1))
  qed
  have "set_up_conns s \<subseteq> insert nc (set_up_conns (set_start i (Some (Ending ch)) (goto (m, w) s)))"
    using set_up_moved [OF assms(3)] by auto
  with evs old show ?thesis
    by (intro accountedI [OF assms(1), of _ evs]) (auto simp: held_conns_def drained_conns_def)
qed

lemma accounted_drained:
  assumes "accounted X m0 w0 s" and "close_drain X cfg ctx nc (pr_world s) = (err, w)"
  shows "accounted X m0 w0 (set_close j (Some (Drained nc err)) (goto (pr_session s, w) s))"
proof -
  from assms(2) obtain evs where "adds (pr_world s) w evs" "opened evs = []" "set_option nc \<subseteq> set (released evs)"
    by (cases rule: close_drain_cases) auto
  then show ?thesis
    by (intro accountedI [OF assms(1), of _ evs])
      (auto simp: held_conns_def set_up_conns_def drained_conns_def split: if_splits)
qed

lemma accounted_finished:
  assumes "accounted X m0 w0 s" and "pr_closes s j = Some (Drained nc err)"
    and "close_finish err (pr_session s) (pr_world s) = (r, m, w)"
  shows "accounted X m0 w0 (set_close j None (goto (m, w)
    (s\<lparr>pr_lost := pr_lost s \<union> (set_option (m_nc (pr_session s)) - set_option nc)\<rparr>)))"
proof -
  obtain evs where evs: "adds (pr_world s) w evs" "opened evs = []" using plain_adds [OF only_locked(6) [OF assms(3)]] by auto
  obtain xs where xs: "adds w0 (pr_world s) xs" "drained_conns s \<subseteq> set (released xs)"
    "set_option (m_nc m0) \<union> set (opened xs) \<subseteq> held_conns s \<union> set (released xs) \<union> pr_lost s \<union> reported_closed X"
    using assms(1) by (auto simp: accounted_def)
  have nc: "set_option nc \<subseteq> set (released xs)" using assms(2) xs(2) by (cases nc) (auto simp: drained_conns_def)
  let ?s = "set_close j None (goto (m, w) (s\<lparr>pr_lost := pr_lost s \<union> (set_option (m_nc (pr_session s)) - set_option nc)\<rparr>))"
  have "held_conns s \<subseteq> held_conns ?s \<union> pr_lost ?s \<union> set_option nc" "drained_conns ?s \<subseteq> drained_conns s"
    "pr_lost s \<subseteq> pr_lost ?s"
    by (auto simp: held_conns_def set_up_conns_def drained_conns_def split: if_splits)
  with xs nc evs adds_trans [OF xs(1) evs(1)] show ?thesis
    unfolding accounted_def by (intro exI [of _ "xs @ evs"]) auto
qed

lemma nc_kept:
  "start_begin X m w = (d, mw) \<Longrightarrow> m_nc (fst mw) = m_nc m"
  "start_fail f m w = mw \<Longrightarrow> m_nc (fst mw) = m_nc m"
  "start_defer ch m w = mw \<Longrightarrow> m_nc (fst mw) = m_nc m"
  "close_begin m w = (cd, mw) \<Longrightarrow> m_nc (fst mw) = m_nc m"
  "close_abandon cause m w = (r, mw) \<Longrightarrow> m_nc (fst mw) = m_nc m"
  "on_disconnect e m w = (b, mw) \<Longrightarrow> m_nc (fst mw) = m_nc m"
  "on_closed m w = (b, mw) \<Longrightarrow> m_nc (fst mw) = m_nc m"
  "rebind_after_reconnect X nc m w = (b, mw) \<Longrightarrow> m_nc (fst mw) = m_nc m"
  subgoal by (cases mw) (auto elim: start_begin_cases)
  by (auto simp: start_fail_def start_defer_def close_begin_def close_abandon_def on_disconnect_def on_closed_def
      rebind_after_reconnect_def rebind_commit_def health_defs Let_def split: if_splits prod.splits sum.splits)

lemma replaceable_move:
  assumes "replaceable X s" and "set_option (m_nc (pr_session s')) \<subseteq> set_option (m_nc (pr_session s))"
    and "\<And>i p. pr_starts s' i = Some p \<Longrightarrow> replaces p \<Longrightarrow> \<exists>p0. pr_starts s i = Some p0 \<and> replaces p0"
  shows "replaceable X s'"
  using assms unfolding replaceable_def by blast

lemma replaceable_step:
  assumes "proto_step X serial s s'" and "proto_ok s" and "replaceable X s"
  shows "replaceable X s'"
  using assms(1)
proof cases
  case (start_returned d mw)
  with nc_kept(1) [OF start_returned(2)] show ?thesis by (auto intro: replaceable_move [OF assms(3)])
next
  case (start_entered ch mw i)
  have "set_option (m_nc (pr_session s)) \<subseteq> reported_closed X"
    using start_begin_live [of "pr_session s" _ X "pr_world s" "StartProceed ch" "fst mw" "snd mw"] start_entered(2) by (cases "m_nc (pr_session s)") auto
  with nc_kept(1) [OF start_entered(2)] start_entered(1) show ?thesis by (simp add: replaceable_def)
next
  case (start_set_up i ch ctx r w)
  then show ?thesis by (auto intro!: replaceable_move [OF assms(3)] split: if_splits)
next
  case (start_failed i ch f mw)
  with nc_kept(2) [OF start_failed(3)] show ?thesis by (auto intro!: replaceable_move [OF assms(3)] split: if_splits)
next
  case (start_committed i ch nc js kv r mw)
  then show ?thesis using proto_start(2) [OF assms(2) start_committed(2)] by (simp add: replaceable_def)
next
  case (start_ended i ch mw)
  then have "pr_starts s' = (\<lambda>_. None)" using proto_start(2) [OF assms(2) start_ended(2)] by simp
  then show ?thesis by (simp add: replaceable_def)
next
  case (close_returned mw)
  with nc_kept(4) [OF close_returned(2)] show ?thesis by (auto intro: replaceable_move [OF assms(3)])
next
  case (close_entered ch nc mw j)
  with nc_kept(4) [OF close_entered(2)] show ?thesis by (auto intro: replaceable_move [OF assms(3)])
next
  case (close_abandoned j ch cause r mw)
  with nc_kept(5) [OF close_abandoned(3)] show ?thesis by (auto intro: replaceable_move [OF assms(3)])
next
  case (close_finished j nc err r mw)
  then have "m_nc (pr_session s') = None"
    using flags_steps(5) [of err "pr_session s" "pr_world s" r "fst mw" "snd mw"] by simp
  with close_finished(1) show ?thesis by (auto intro: replaceable_move [OF assms(3)])
next
  case (lost_connection err b mw)
  with nc_kept(6) [OF lost_connection(2)] show ?thesis by (auto intro: replaceable_move [OF assms(3)])
next
  case (connection_closed b mw)
  with nc_kept(7) [OF connection_closed(2)] show ?thesis by (auto intro: replaceable_move [OF assms(3)])
next
  case (reconnected nc b mw)
  with nc_kept(8) [OF reconnected(2)] show ?thesis by (auto intro: replaceable_move [OF assms(3)])
qed (auto intro: replaceable_move [OF assms(3)])

text \<open>The accounting is kept by every step.\<close>

definition quiet_move :: "manager \<Rightarrow> 'e world \<Rightarrow> manager \<times> 'e world \<Rightarrow> bool" where
  "quiet_move m w mw \<longleftrightarrow> only plain w (snd mw) \<and> m_nc (fst mw) = m_nc m"

lemma quiet_moves:
  "start_begin X m w = (d, mw) \<Longrightarrow> quiet_move m w mw"
  "start_fail f m w = mw \<Longrightarrow> quiet_move m w mw"
  "start_defer ch m w = mw \<Longrightarrow> quiet_move m w mw"
  "close_begin m w = (cd, mw) \<Longrightarrow> quiet_move m w mw"
  "close_abandon cause m w = (r, mw) \<Longrightarrow> quiet_move m w mw"
  "on_disconnect e m w = (b, mw) \<Longrightarrow> quiet_move m w mw"
  "on_closed m w = (b, mw) \<Longrightarrow> quiet_move m w mw"
  "rebind_after_reconnect X nc m w = (b, mw) \<Longrightarrow> quiet_move m w mw"
  by (simp_all only: quiet_move_def nc_kept only_locked simp_thms)

lemma accounted_goto:
  assumes "accounted X m0 w0 s" and "quiet_move (pr_session s) (pr_world s) mw"
  shows "accounted X m0 w0 (goto mw s)"
  by (rule accounted_plain [OF assms(1)])
    (use assms(2) in \<open>simp_all add: quiet_move_def held_conns_def set_up_conns_def drained_conns_def\<close>)

lemma accounted_start:
  assumes "accounted X m0 w0 s" and "quiet_move (pr_session s) (pr_world s) mw"
    and "\<And>ch nc js kv. pr_starts s i \<noteq> Some (SetUp ch (Inr (nc, js, kv)))"
  shows "accounted X m0 w0 (set_start i p (goto mw s))"
proof (rule accounted_plain [OF assms(1)])
  have "set_up_conns s \<subseteq> set_up_conns (set_start i p (goto mw s))" using set_up_moved [OF refl, of s i] assms(3) by simp
  then show "held_conns s \<subseteq> held_conns (set_start i p (goto mw s))"
    using assms(2) by (auto simp: held_conns_def quiet_move_def)
qed (use assms(2) in \<open>simp_all add: quiet_move_def drained_conns_def\<close>)

lemma accounted_close:
  assumes "accounted X m0 w0 s" and "quiet_move (pr_session s) (pr_world s) mw"
    and "\<And>nc err. q \<noteq> Some (Drained nc err)"
  shows "accounted X m0 w0 (set_close j q (goto mw s))"
proof (rule accounted_plain [OF assms(1)])
  show "drained_conns (set_close j q (goto mw s)) \<subseteq> drained_conns s"
    using assms(3) by (auto simp: drained_conns_def split: if_splits)
qed (use assms(2) in \<open>simp_all add: quiet_move_def held_conns_def set_up_conns_def\<close>)

lemma accounted_step:
  assumes "proto_step X serial s s'" and "accounted X m0 w0 s" and "replaceable X s" and "proto_ok s"
  shows "accounted X m0 w0 s'"
  using assms(1)
proof cases
  case (start_returned d mw)
  then show ?thesis using accounted_goto [OF assms(2) quiet_moves(1)] by simp
next
  case (start_entered ch mw i)
  then show ?thesis using accounted_start [OF assms(2) quiet_moves(1) [OF start_entered(2)]] by simp
next
  case (start_set_up i ch ctx r w)
  then show ?thesis using accounted_set_up [OF assms(2)] by simp
next
  case (start_failed i ch f mw)
  then show ?thesis using accounted_start [OF assms(2) quiet_moves(2) [OF start_failed(3)]] by simp
next
  case (start_committed i ch nc js kv r mw)
  then show ?thesis using accounted_commit [OF assms(2,3)] by (cases mw) simp
next
  case (start_ended i ch mw)
  then show ?thesis using accounted_start [OF assms(2) quiet_moves(3) [OF start_ended(3)]] by simp
next
  case (close_returned mw)
  then show ?thesis using accounted_goto [OF assms(2) quiet_moves(4)] by simp
next
  case (close_entered ch nc mw j)
  then show ?thesis using accounted_close [OF assms(2) quiet_moves(4) [OF close_entered(2)]] by (simp split: option.split)
next
  case (close_abandoned j ch cause r mw)
  then show ?thesis using accounted_close [OF assms(2) quiet_moves(5) [OF close_abandoned(3)]] by simp
next
  case (close_resumed j ch)
  have "accounted X m0 w0 (set_close j (Some (Draining (m_nc (pr_session s)))) (goto (pr_session s, pr_world s) s))"
    by (rule accounted_close [OF assms(2)]) (simp_all add: quiet_move_def)
  with close_resumed(1) show ?thesis by (simp add: goto_def)
next
  case (close_drained j nc ctx err w)
  then show ?thesis using accounted_drained [OF assms(2)] by simp
next
  case (close_finished j nc err r mw)
  then show ?thesis using accounted_finished [OF assms(2) close_finished(2)] by (cases mw) simp
next
  case (lost_connection err b mw)
  then show ?thesis using accounted_goto [OF assms(2) quiet_moves(6)] by simp
next
  case (connection_closed b mw)
  then show ?thesis using accounted_goto [OF assms(2) quiet_moves(7)] by simp
next
  case (reconnected nc b mw)
  then show ?thesis using accounted_goto [OF assms(2) quiet_moves(8)] by simp
next
  case (environment w)
  then have "only plain (pr_world s) w" by (auto simp: only_def)
  with environment show ?thesis using accounted_goto [OF assms(2)] by (simp add: quiet_move_def)
qed

lemma proto_run_accounted: "proto_run X serial m0 w0 s \<Longrightarrow> replaceable X s \<and> accounted X m0 w0 s"
proof (induction rule: proto_run.induct)
  case begun
  show ?case
    by (auto simp: replaceable_def accounted_def protocol_start_def held_conns_def set_up_conns_def drained_conns_def
        intro!: exI [of _ "[]"])
next
  case (step s s')
  with replaceable_step accounted_step proto_run_ok [OF step(1)] show ?case by blast
qed

section \<open>The operations alone\<close>

text \<open>\<^verbatim>\<open>Start\<close> and \<^verbatim>\<open>Close\<close>, run without interference, are runs of the protocol.\<close>

definition at_rest :: "'e protocol \<Rightarrow> bool" where
  "at_rest s \<longleftrightarrow> pr_starts s = (\<lambda>_. None) \<and> pr_closes s = (\<lambda>_. None)"

lemma start_run:
  assumes run: "proto_run X serial m0 w0 s" and rest: "at_rest s"
    and start: "mgr_start X mctx (pr_session s) (pr_world s) = (r, mw)"
  shows "proto_run X serial m0 w0 (goto mw s)"
proof -
  define ctx where "ctx = (case mctx of None \<Rightarrow> CtxBackground | Some c \<Rightarrow> c)"
  obtain ce w1 where ce: "query (x_ctx_err X ctx) (pr_world s) = (ce, w1)" by fastforce
  have "adds (pr_world s) w1 []" using query_trace [OF ce] by (simp add: adds_def)
  note r1 = proto_run.step [OF run environment [OF this]]
  obtain d mw2 where b: "start_begin X (pr_session s) w1 = (d, mw2)" by (rule prod.exhaust)
  show ?thesis
  proof (cases "ce = None \<and> (\<exists>ch. d = StartProceed ch)")
    case False
    then have "mw = (pr_session s, w1) \<or> mw = mw2 \<and> (\<forall>ch. d \<noteq> StartProceed ch)"
      using start ce b by (cases mw2) (auto simp: mgr_start_def ctx_def [symmetric] Let_def split: option.splits start_decision.splits)
    moreover have "proto_run X serial m0 w0 (goto mw2 s)" if "\<forall>ch. d \<noteq> StartProceed ch"
      using proto_run.step [OF r1 start_returned [of X _ d mw2]] b that by (simp add: goto_def)
    ultimately show ?thesis using r1 by auto
  next
    case True
    then obtain ch where d: "ce = None" "d = StartProceed ch" by blast
    let ?s2 = "set_start 0 (Some (Connecting ch)) (goto mw2 s)"
    have r2: "proto_run X serial m0 w0 ?s2"
      using proto_run.step [OF r1 start_entered [of X _ ch mw2 0 serial]] b d rest by (simp add: at_rest_def goto_def)
    obtain u w3 where u: "start_setup X (m_effective (fst mw2)) ctx (snd mw2) = (u, w3)" by fastforce
    let ?s3 = "set_start 0 (Some (SetUp ch u)) (goto (fst mw2, w3) ?s2)"
    have r3: "proto_run X serial m0 w0 ?s3"
      using proto_run.step [OF r2 start_set_up [of _ 0 ch X ctx u w3]] u by simp
    obtain r4 mw4 where k: "(case u of Inl f \<Rightarrow> (let (m', w') = start_fail f (fst mw2) w3 in (Some (sf_error f), m', w'))
        | Inr (nc, js, kv) \<Rightarrow> start_commit X nc js kv (fst mw2) w3) = (r4, mw4)" by (rule prod.exhaust)
    have r4: "proto_run X serial m0 w0 (set_start 0 (Some (Ending ch)) (goto mw4 ?s3))"
    proof (cases u)
      case (Inl f)
      with k have "start_fail f (fst mw2) w3 = mw4" by (auto split: prod.splits)
      with proto_run.step [OF r3 start_failed [of _ 0 ch f]] Inl show ?thesis by simp
    next
      case (Inr h)
      then obtain nc js kv where h: "u = Inr (nc, js, kv)" by (cases h) auto
      with proto_run.step [OF r3 start_committed [of _ 0 ch nc js kv X r4 mw4]] k show ?thesis by simp
    qed
    have "mw = start_defer ch (fst mw4) (snd mw4)"
      using start ce b d u k by (cases mw2; cases mw4; cases u)
        (auto simp: mgr_start_def ctx_def [symmetric] Let_def split: prod.splits)
    then have "proto_run X serial m0 w0 (set_start 0 None (goto mw (set_start 0 (Some (Ending ch)) (goto mw4 ?s3))))"
      using proto_run.step [OF r4 start_ended [of _ 0 ch]] by simp
    moreover have "set_start 0 None (goto mw (set_start 0 (Some (Ending ch)) (goto mw4 ?s3))) = goto mw s"
      by (rule protocol.equality) (use rest in \<open>simp_all add: at_rest_def goto_def set_start_def\<close>)
    ultimately show ?thesis by simp
  qed
qed

lemma close_run:
  assumes run: "proto_run X serial m0 w0 s" and rest: "at_rest s"
    and closing: "mgr_close X others mctx (pr_session s) (pr_world s) = (r, mw)"
  shows "proto_run X serial m0 w0 (goto mw s)"
proof -
  define ctx where "ctx = (case mctx of None \<Rightarrow> CtxBackground | Some c \<Rightarrow> c)"
  obtain d mw1 where b: "close_begin (pr_session s) (pr_world s) = (d, mw1)" by (rule prod.exhaust)
  show ?thesis
  proof (cases d)
    case CloseNothing
    then have "mw = mw1" using closing b by (cases mw1) (simp add: mgr_close_def)
    with proto_run.step [OF run close_returned [of s mw1]] b CloseNothing show ?thesis by simp
  next
    case (CloseProceed waits held)
    have "m_start_done (pr_session s) = None" using proto_run_ok [OF run] rest by (simp add: proto_ok_def at_rest_def)
    then have waits: "waits = None"
      using flags_steps(4) [of "pr_session s" "pr_world s" waits held "fst mw1" "snd mw1"] b CloseProceed by simp
    let ?s1 = "set_close 0 (Some (Draining held)) (goto mw1 s)"
    have r1: "proto_run X serial m0 w0 ?s1"
      using proto_run.step [OF run close_entered [of s waits held mw1 0]] b CloseProceed waits rest by (simp add: at_rest_def)
    obtain err w2 where e: "close_drain X (m_effective (fst mw1)) ctx held (snd mw1) = (err, w2)" by fastforce
    let ?s2 = "set_close 0 (Some (Drained held err)) (goto (fst mw1, w2) ?s1)"
    have r2: "proto_run X serial m0 w0 ?s2"
      using proto_run.step [OF r1 close_drained [of _ 0 held X ctx err w2]] e by simp
    have f: "close_finish err (fst mw1) w2 = (r, mw)"
      using closing b CloseProceed waits e by (cases mw1) (auto simp: mgr_close_def ctx_def [symmetric] Let_def split: prod.splits)
    have "m_nc (fst mw1) = held"
      using flags_steps(4) [of "pr_session s" "pr_world s" waits held "fst mw1" "snd mw1"] b CloseProceed by simp
    then have "proto_run X serial m0 w0 (set_close 0 None (goto mw ?s2))"
      using proto_run.step [OF r2 close_finished [of _ 0 held err r mw]] f by (simp add: goto_def set_close_def)
    moreover have "set_close 0 None (goto mw ?s2) = goto mw s"
      by (rule protocol.equality) (use rest in \<open>simp_all add: at_rest_def goto_def set_close_def\<close>)
    ultimately show ?thesis by simp
  qed
qed

section \<open>Starts that wait for closes\<close>

text \<open>
  When no start begins while a close is in progress, a close that waits does so for the start that
  is running, and a close that drains has the manager to itself.
\<close>

fun drains :: "close_phase \<Rightarrow> conn option \<Rightarrow> bool" where
  "drains (Awaiting ch) nc = False"
| "drains (Draining c) nc = (c = nc)"
| "drains (Drained c err) nc = (c = nc)"

definition serial_ok :: "'e protocol \<Rightarrow> bool" where
  "serial_ok s \<longleftrightarrow> pr_lost s = {} \<and>
     (\<forall>j ch i p. pr_closes s j = Some (Awaiting ch) \<and> pr_starts s i = Some p \<longrightarrow> start_channel p = ch) \<and>
     (\<forall>j q nc. pr_closes s j = Some q \<and> drains q nc \<longrightarrow>
        pr_starts s = (\<lambda>_. None) \<and> set_option (m_nc (pr_session s)) \<subseteq> set_option nc)"

lemma serial_goto:
  assumes "serial_ok s" and "m_nc (fst mw) = m_nc (pr_session s)"
  shows "serial_ok (goto mw s)"
  using assms by (simp add: serial_ok_def)

lemma serial_start:
  assumes "serial_ok s" and "pr_starts s i = Some p" and "\<forall>q. p' = Some q \<longrightarrow> start_channel q = start_channel p"
    and "pr_starts s = [i \<mapsto> p]"
  shows "serial_ok (set_start i p' (goto mw s))"
proof -
  have "\<not> drains q nc" if "pr_closes s j = Some q" for j q nc
  proof
    assume "drains q nc"
    with assms(1) that have "pr_starts s = (\<lambda>_. None)" unfolding serial_ok_def by blast
    with assms(2) show False by simp
  qed
  moreover have "start_channel q = ch" if "pr_closes s j = Some (Awaiting ch)" "p' = Some q" for j q ch
    using assms(1-3) that by (fastforce simp: serial_ok_def)
  ultimately show ?thesis using assms(1,4) by (auto simp: serial_ok_def)
qed

lemma serial_close:
  assumes "serial_ok s" and "set_option (m_nc (fst mw)) \<subseteq> set_option (m_nc (pr_session s))"
    and "\<And>ch i p. q = Some (Awaiting ch) \<Longrightarrow> pr_starts s i = Some p \<Longrightarrow> start_channel p = ch"
    and "\<And>p nc. q = Some p \<Longrightarrow> drains p nc \<Longrightarrow>
      pr_starts s = (\<lambda>_. None) \<and> set_option (m_nc (fst mw)) \<subseteq> set_option nc"
  shows "serial_ok (set_close j q (goto mw s))"
  using assms unfolding serial_ok_def by (auto split: if_splits)

lemma serial_step:
  assumes "proto_step X True s s'" and "proto_ok s" and "serial_ok s"
  shows "serial_ok s'"
  using assms(1)
proof cases
  case (start_returned d mw)
  with nc_kept(1) [OF start_returned(2)] show ?thesis by (simp add: serial_goto [OF assms(3)])
next
  case (start_entered ch mw i)
  then show ?thesis using assms(3) by (simp add: serial_ok_def)
next
  case (start_set_up i ch ctx r w)
  then show ?thesis using serial_start [OF assms(3) start_set_up(2)] proto_start(2) [OF assms(2) start_set_up(2)] by simp
next
  case (start_failed i ch f mw)
  then show ?thesis using serial_start [OF assms(3) start_failed(2)] proto_start(2) [OF assms(2) start_failed(2)] by simp
next
  case (start_committed i ch nc js kv r mw)
  then show ?thesis using serial_start [OF assms(3) start_committed(2)] proto_start(2) [OF assms(2) start_committed(2)] by simp
next
  case (start_ended i ch mw)
  then show ?thesis using serial_start [OF assms(3) start_ended(2)] proto_start(2) [OF assms(2) start_ended(2)] by simp
next
  case (close_returned mw)
  with nc_kept(4) [OF close_returned(2)] show ?thesis by (simp add: serial_goto [OF assms(3)])
next
  case (close_entered ch nc mw j)
  have f: "ch = m_start_done (pr_session s)" "nc = m_nc (pr_session s)" "m_nc (fst mw) = m_nc (pr_session s)"
    using flags_steps(4) [of "pr_session s" "pr_world s" ch nc "fst mw" "snd mw"] close_entered(2) by simp_all
  show ?thesis unfolding close_entered(1)
  proof (rule serial_close [OF assms(3)], goal_cases)
    case 1
    show ?case using f by simp
  next
    case (2 c i p)
    then show ?case using f proto_start(1) [OF assms(2) 2(2)] by (auto split: option.splits)
  next
    case (3 p c)
    then have "m_start_done (pr_session s) = None" using f by (auto split: option.splits)
    then have "pr_starts s = (\<lambda>_. None)" using assms(2) by (simp add: proto_ok_def)
    with 3 f show ?case by (auto split: option.splits)
  qed
next
  case (close_abandoned j ch cause r mw)
  with nc_kept(5) [OF close_abandoned(3)] serial_close [OF assms(3), of mw None j] show ?thesis by simp
next
  case (close_resumed j ch)
  have "pr_starts s i = None" for i
    using assms(3) close_resumed(2,3) by (cases "pr_starts s i") (auto simp: serial_ok_def)
  then have "pr_starts s = (\<lambda>_. None)" by blast
  then have "serial_ok (set_close j (Some (Draining (m_nc (pr_session s)))) (goto (pr_session s, pr_world s) s))"
    by (intro serial_close [OF assms(3)]) auto
  with close_resumed(1) show ?thesis by (simp add: goto_def)
next
  case (close_drained j nc ctx err w)
  show ?thesis unfolding close_drained(1)
  proof (rule serial_close [OF assms(3)])
    fix p c
    assume p: "Some (Drained nc err) = Some p" "drains p c"
    then have "drains (Draining nc) c" by auto
    with assms(3) close_drained(2) show "pr_starts s = (\<lambda>_. None) \<and>
        set_option (m_nc (fst (pr_session s, w))) \<subseteq> set_option c"
      unfolding serial_ok_def fst_conv by blast
  qed auto
next
  case (close_finished j nc err r mw)
  have "drains (Drained nc err) nc" by simp
  with assms(3) close_finished(2) have "set_option (m_nc (pr_session s)) \<subseteq> set_option nc"
    unfolding serial_ok_def by blast
  then have "serial_ok (s\<lparr>pr_lost := pr_lost s \<union> (set_option (m_nc (pr_session s)) - set_option nc)\<rparr>)"
    using assms(3) by (simp add: serial_ok_def)
  moreover have "m_nc (fst mw) = None"
    using flags_steps(5) [of err "pr_session s" "pr_world s" r "fst mw" "snd mw"] close_finished(3) by simp
  ultimately show ?thesis unfolding close_finished(1) by (intro serial_close) simp_all
next
  case (lost_connection err b mw)
  with nc_kept(6) [OF lost_connection(2)] show ?thesis by (simp add: serial_goto [OF assms(3)])
next
  case (connection_closed b mw)
  with nc_kept(7) [OF connection_closed(2)] show ?thesis by (simp add: serial_goto [OF assms(3)])
next
  case (reconnected nc b mw)
  with nc_kept(8) [OF reconnected(2)] show ?thesis by (simp add: serial_goto [OF assms(3)])
next
  case (environment w)
  then show ?thesis by (simp add: serial_goto [OF assms(3)])
qed

lemma proto_run_serial: "proto_run X True m0 w0 s \<Longrightarrow> serial_ok s"
proof (induction rule: proto_run.induct)
  case begun
  show ?case by (simp add: serial_ok_def protocol_start_def)
next
  case (step s s')
  with serial_step proto_run_ok [OF step(1)] show ?case by blast
qed

section \<open>A close that waits while another start begins\<close>

definition connects :: "'e ext \<Rightarrow> session_config \<Rightarrow> gctx \<Rightarrow> bool" where
  "connects X cfg ctx \<longleftrightarrow> (\<forall>w. \<exists>nc js kv. fst (start_setup X cfg ctx w) = Inr (nc, js, kv))"

lemma start_begin_fresh:
  assumes "idle m" and "m_nc m = None" and "\<not> nc_retry_on_failed_connect (sc_nats (m_effective m))"
  obtains m' w' evs where "start_begin X m w = (StartProceed (m_channels m), m', w')" "adds w w' evs" "released evs = []"
    "m_start_done m' = Some (m_channels m)" "\<not> m_closing m'" "\<not> m_close_requested m'" "m_nc m' = None"
    "m_effective m' = m_effective m" "m_channels m' = Suc (m_channels m)"
proof -
  obtain d m' w' where b: "start_begin X m w = (d, m', w')" by (metis prod_cases3)
  from b show thesis
  proof (cases rule: start_begin_cases)
    case proceed
    with b assms show thesis
      by (intro that [of m' w' "if m_metrics m then [EvSetState ''connecting''] else []"]) (auto simp: idle_def)
  qed (use assms in \<open>auto simp: idle_def\<close>)
qed

text \<open>A first start is overtaken by a close, which waits for it; the start gives up and ends.\<close>

lemma overtaken_start:
  assumes "mgr_ok m" and "idle m" and "m_nc m = None" and "\<not> nc_retry_on_failed_connect (sc_nats (m_effective m))"
    and "connects X (m_effective m) ctx"
  obtains s ch where "proto_run X False m w s" "pr_starts s = (\<lambda>_. None)" "pr_closes s = [0 \<mapsto> Awaiting ch]"
    "idle (pr_session s)" "m_nc (pr_session s) = None" "m_effective (pr_session s) = m_effective m"
    "ch < m_channels (pr_session s)" "pr_lost s = {}"
proof -
  let ?ch = "m_channels m"
  let ?s0 = "protocol_start m w"
  obtain m1 w1 where b: "start_begin X m w = (StartProceed ?ch, m1, w1)" and m1: "m_start_done m1 = Some ?ch"
    "\<not> m_closing m1" "m_nc m1 = None" "m_effective m1 = m_effective m" "m_channels m1 = Suc ?ch"
    using start_begin_fresh [OF assms(2-4)] by blast
  define s1 where "s1 = set_start 0 (Some (Connecting ?ch)) (goto (m1, w1) ?s0)"
  have r1: "proto_run X False m w s1" unfolding s1_def
    by (rule proto_run.step [OF proto_run.begun [OF assms(1,2)] start_entered])
      (use b in \<open>simp_all add: protocol_start_def\<close>)
  obtain m2 w2 where c: "close_begin m1 w1 = (CloseProceed (Some ?ch) None, m2, w2)" and m2: "m_start_done m2 = Some ?ch"
    "m_closing m2" "m_close_requested m2" "m_nc m2 = None" "m_effective m2 = m_effective m" "m_channels m2 = Suc ?ch"
    using m1 by (auto simp: close_begin_def set_state_def)
  define s2 where "s2 = set_close 0 (Some (Awaiting ?ch)) (goto (m2, w2) s1)"
  have r2: "proto_run X False m w s2" unfolding s2_def
    using proto_run.step [OF r1 close_entered [of s1 "Some ?ch" None "(m2, w2)" 0]] c
    by (simp add: s1_def protocol_start_def)
  obtain nc js kv w3 where u: "start_setup X (m_effective m) ctx w2 = (Inr (nc, js, kv), w3)"
    using assms(5) unfolding connects_def by (metis prod.collapse)
  define s3 where "s3 = set_start 0 (Some (SetUp ?ch (Inr (nc, js, kv)))) (goto (m2, w3) s2)"
  have r3: "proto_run X False m w s3" unfolding s3_def
    using proto_run.step [OF r2 start_set_up [of s2 0 ?ch X ctx "Inr (nc, js, kv)" w3]] u m2(5) by (simp add: s1_def s2_def)
  obtain r m3 w4 where k: "start_commit X nc js kv m2 w3 = (r, m3, w4)" by (metis prod_cases3)
  then have m3: "m_start_done m3 = Some ?ch" "\<not> m_closing m3" "\<not> m_close_requested m3" "m_nc m3 = None"
    "m_effective m3 = m_effective m" "m_channels m3 = Suc ?ch"
    using m2 by (auto simp: start_commit_def health_defs split: prod.splits)
  define s4 where "s4 = set_start 0 (Some (Ending ?ch)) (goto (m3, w4) s3)"
  have r4: "proto_run X False m w s4" unfolding s4_def
    using proto_run.step [OF r3 start_committed [of s3 0 ?ch nc js kv X r "(m3, w4)"]] k by (simp add: s3_def)
  have d: "start_defer ?ch m3 w4 = (m3\<lparr>m_start_done := None, m_starting := False\<rparr>, w4)"
    using m3 by (simp add: start_defer_def)
  define s5 where "s5 = set_start 0 None (goto (m3\<lparr>m_start_done := None, m_starting := False\<rparr>, w4) s4)"
  have r5: "proto_run X False m w s5" unfolding s5_def
    using proto_run.step [OF r4 start_ended [of s4 0 ?ch]] d by (simp add: s4_def)
  show thesis
    by (rule that [OF r5, of ?ch])
      (use m3 in \<open>auto simp: s5_def s4_def s3_def s2_def s1_def protocol_start_def idle_def\<close>)
qed

text \<open>The close resumes while a second start is connecting, so it finds nothing to drain.\<close>

lemma drained_nothing:
  assumes run: "proto_run X False m0 w0 s" and none: "pr_starts s = (\<lambda>_. None)" and wait: "pr_closes s = [0 \<mapsto> Awaiting ch]"
    and idle: "idle (pr_session s)" and nc0: "m_nc (pr_session s) = None" and ch: "ch < m_channels (pr_session s)"
    and retry: "\<not> nc_retry_on_failed_connect (sc_nats (m_effective (pr_session s)))"
    and con: "connects X (m_effective (pr_session s)) ctx"
  obtains s' c nc js kv evs where "proto_run X False m0 w0 s'" "pr_starts s' = [0 \<mapsto> SetUp c (Inr (nc, js, kv))]"
    "pr_closes s' = [0 \<mapsto> Drained None None]" "m_start_done (pr_session s') = Some c" "\<not> m_closing (pr_session s')"
    "\<not> m_close_requested (pr_session s')" "adds (pr_world s) (pr_world s') evs" "opened evs = [nc]" "released evs = []"
proof -
  let ?m = "pr_session s" and ?c = "m_channels (pr_session s)"
  obtain m1 w1 e1 where b: "start_begin X ?m (pr_world s) = (StartProceed ?c, m1, w1)"
    and e1: "adds (pr_world s) w1 e1" "released e1 = []" and m1: "m_start_done m1 = Some ?c" "\<not> m_closing m1"
    "\<not> m_close_requested m1" "m_nc m1 = None" "m_effective m1 = m_effective ?m"
    using start_begin_fresh [OF idle nc0 retry] by blast
  obtain e1' where "adds (pr_world s) w1 e1'" "opened e1' = []" using plain_adds [OF only_locked(1) [OF b]] by auto
  then have e1o: "opened e1 = []" using adds_unique [OF e1(1)] by blast
  define s1 where "s1 = set_start 0 (Some (Connecting ?c)) (goto (m1, w1) s)"
  have r1: "proto_run X False m0 w0 s1" unfolding s1_def
    by (rule proto_run.step [OF run start_entered]) (use b none in simp_all)
  obtain nc js kv w2 where u: "start_setup X (m_effective ?m) ctx w1 = (Inr (nc, js, kv), w2)"
    using con unfolding connects_def by (metis prod.collapse)
  from u obtain e2 where e2: "adds w1 w2 e2" "opened e2 = [nc]" "released e2 = []"
    by (cases rule: start_setup_cases) auto
  define s2 where "s2 = set_start 0 (Some (SetUp ?c (Inr (nc, js, kv)))) (goto (m1, w2) s1)"
  have r2: "proto_run X False m0 w0 s2" unfolding s2_def
    using proto_run.step [OF r1 start_set_up [of s1 0 ?c X ctx "Inr (nc, js, kv)" w2]] u m1(5) by (simp add: s1_def)
  have "proto_step X False s2 (set_close 0 (Some (Draining (m_nc (pr_session s2)))) s2)"
    by (rule close_resumed [of s2 0 ch]) (use wait none ch in \<open>auto simp: s1_def s2_def split: if_splits\<close>)
  then have r3: "proto_run X False m0 w0 (set_close 0 (Some (Draining None)) s2)"
    using proto_run.step [OF r2] m1(4) by (simp add: s2_def)
  define s4 where "s4 = set_close 0 (Some (Drained None None)) (goto (m1, w2) (set_close 0 (Some (Draining None)) s2))"
  have r4: "proto_run X False m0 w0 s4" unfolding s4_def
    using proto_run.step [OF r3 close_drained [of _ 0 None X ctx None w2]]
    by (simp add: s2_def close_drain_def drain_connection_def)
  show thesis
    by (rule that [OF r4, of ?c nc js kv "e1 @ e2"])
      (use none wait m1 e1o e2 e1(2) adds_trans [OF e1(1) e2(1)] in \<open>auto simp: s4_def s2_def s1_def\<close>)
qed

text \<open>The second start succeeds; then the close takes the new connection out of the manager.\<close>

lemma second_start_lost:
  assumes run: "proto_run X False m0 w0 s" and starts: "pr_starts s = [0 \<mapsto> SetUp c (Inr (nc, js, kv))]"
    and closes: "pr_closes s = [0 \<mapsto> Drained None None]" and c: "m_start_done (pr_session s) = Some c"
    and open_: "\<not> m_closing (pr_session s)" "\<not> m_close_requested (pr_session s)"
  obtains s' evs where "proto_run X False m0 w0 s'" "pr_starts s' = (\<lambda>_. None)" "pr_closes s' = (\<lambda>_. None)"
    "adds (pr_world s) (pr_world s') evs" "opened evs = []" "released evs = []" "nc \<in> pr_lost s'"
    "m_nc (pr_session s') = None" "hs_state (m_health (pr_session s')) = StateClosed"
proof -
  let ?m = "pr_session s"
  obtain r m2 w3 where k: "start_commit X nc js kv ?m (pr_world s) = (r, m2, w3)" by (metis prod_cases3)
  from k open_ obtain url where m2: "m2 = ?m\<lparr>m_nc := Some nc, m_js := Some js, m_kv := Some kv, m_health := (m_health ?m)
       \<lparr>hs_connected_url := url, hs_jetstream_ready := True, hs_kv_ready := True,
        hs_last_error := [], hs_state := StateConnected\<rparr>\<rparr>"
    and e3: "adds (pr_world s) w3 (if m_metrics ?m then [EvSetState ''connected'', EvIncConnect ''success''] else [])"
    by (rule start_commit_quiet)
  define s5 where "s5 = set_start 0 (Some (Ending c)) (goto (m2, w3) s)"
  have r5: "proto_run X False m0 w0 s5" unfolding s5_def
    using proto_run.step [OF run start_committed [of s 0 c nc js kv X r "(m2, w3)"]] k starts by simp
  have d: "start_defer c m2 w3 = (m2\<lparr>m_start_done := None, m_starting := False\<rparr>, w3)"
    using open_ c by (simp add: start_defer_def m2)
  define s6 where "s6 = set_start 0 None (goto (m2\<lparr>m_start_done := None, m_starting := False\<rparr>, w3) s5)"
  have r6: "proto_run X False m0 w0 s6" unfolding s6_def
    using proto_run.step [OF r5 start_ended [of s5 0 c]] d by (simp add: s5_def)
  obtain r' m3 w4 where f: "close_finish None (pr_session s6) w3 = (r', m3, w4)" by (metis prod_cases3)
  note fin = close_finish_effect [OF f]
  define s7 where "s7 = set_close 0 None (goto (m3, w4)
    (s6\<lparr>pr_lost := pr_lost s6 \<union> (set_option (m_nc (pr_session s6)) - set_option None)\<rparr>))"
  have r7: "proto_run X False m0 w0 s7" unfolding s7_def
    using proto_run.step [OF r6 close_finished [of s6 0 None None r' "(m3, w4)"]] f closes by (simp add: s6_def s5_def)
  show thesis
    by (rule that [OF r7, of "(if m_metrics ?m then [EvSetState ''connected'', EvIncConnect ''success''] else []) @
        (if m_metrics m2 then [EvSetState ''closed''] else [])"])
      (use starts closes e3 fin in \<open>auto simp: s7_def s6_def s5_def m2 adds_def\<close>)
qed

section \<open>Properties\<close>

text \<open>C7: whatever goroutines call \<^verbatim>\<open>Start\<close> and \<^verbatim>\<open>Close\<close> and however they and the callbacks of the NATS
  client interleave: the invariant of the manager holds, at most one start is in progress, and
  every connection ever opened is held by the manager or by that start, or was drained or closed,
  or is reported closed by the NATS client, or was taken out of the manager by a close that had
  drained another one. When nobody is in progress any more the manager is idle: no flag is stuck,
  so that a later start or close is not refused.\<close>

theorem session_protocol_invariant:
  assumes "proto_run X serial m0 w0 s"
  shows "mgr_ok (pr_session s) \<and> (\<forall>i k. pr_starts s i \<noteq> None \<and> pr_starts s k \<noteq> None \<longrightarrow> i = k) \<and>
    (\<exists>evs. adds w0 (pr_world s) evs \<and> set_option (m_nc m0) \<union> set (opened evs) \<subseteq>
       held_conns s \<union> set (released evs) \<union> pr_lost s \<union> reported_closed X) \<and>
    (pr_starts s = (\<lambda>_. None) \<and> pr_closes s = (\<lambda>_. None) \<longrightarrow> idle (pr_session s))"
proof (intro conjI allI impI)
  note ok = proto_run_ok [OF assms]
  show "mgr_ok (pr_session s)" using ok by (simp add: proto_ok_def)
  show "\<exists>evs. adds w0 (pr_world s) evs \<and> set_option (m_nc m0) \<union> set (opened evs) \<subseteq>
      held_conns s \<union> set (released evs) \<union> pr_lost s \<union> reported_closed X"
    using proto_run_accounted [OF assms] by (auto simp: accounted_def)
  show "i = k" if "pr_starts s i \<noteq> None \<and> pr_starts s k \<noteq> None" for i k
    using that proto_start(2) [OF ok, of i] by (auto split: if_splits)
  show "idle (pr_session s)" if "pr_starts s = (\<lambda>_. None) \<and> pr_closes s = (\<lambda>_. None)"
  proof -
    have "m_start_done (pr_session s) = None" using that ok by (simp add: proto_ok_def)
    then show ?thesis using that ok flags_done by (auto simp: proto_ok_def idle_def)
  qed
qed

lemma sample_idle: "idle sample_manager"
  by (simp add: idle_def sample_manager_def)

theorem session_protocol_invariant_witness:
  "\<exists>s. proto_run sim_ext False sample_manager (sim_world []) s \<and> pr_starts s 5 \<noteq> None \<and> mgr_ok (pr_session s)"
proof -
  have "\<not> nc_retry_on_failed_connect (sc_nats (m_effective sample_manager))" "m_nc sample_manager = None"
    by (simp_all add: sample_manager_def sample_effective_def)
  then obtain m1 w1 where b: "start_begin sim_ext sample_manager (sim_world []) = (StartProceed (m_channels sample_manager), m1, w1)"
    using start_begin_fresh [OF sample_idle] by metis
  let ?s = "set_start 5 (Some (Connecting (m_channels sample_manager))) (goto (m1, w1) (protocol_start sample_manager (sim_world [])))"
  have "proto_run sim_ext False sample_manager (sim_world []) ?s"
    by (rule proto_run.step [OF proto_run.begun [OF sample_manager_ok sample_idle] start_entered])
      (use b in \<open>simp_all add: protocol_start_def\<close>)
  from session_protocol_invariant [OF this] this show ?thesis by (intro exI [of _ ?s]) simp
qed



text \<open>C9: without that restriction a connection leaks. A close waits for a start; that start gives up and
  ends; before the close goes on, another start begins; the close finds no connection to drain;
  the other start enters its connection and succeeds; and the close clears the manager. In any
  environment in which connecting succeeds, this leaves a connection that was opened and never
  drained or closed, in a manager that is closed and holds none.\<close>

theorem waiting_close_leaks:
  assumes "mgr_ok m" and "idle m" and "m_nc m = None" and "\<not> nc_retry_on_failed_connect (sc_nats (m_effective m))"
    and "connects X (m_effective m) ctx"
  shows "\<exists>s nc w1 xs ys. proto_run X False m w s \<and> pr_starts s = (\<lambda>_. None) \<and> pr_closes s = (\<lambda>_. None) \<and>
    m_nc (pr_session s) = None \<and> hs_state (m_health (pr_session s)) = StateClosed \<and>
    adds w w1 xs \<and> adds w1 (pr_world s) ys \<and> opened ys = [nc] \<and> released ys = []"
proof -
  obtain s1 ch where s1: "proto_run X False m w s1" "pr_starts s1 = (\<lambda>_. None)" "pr_closes s1 = [0 \<mapsto> Awaiting ch]"
    "idle (pr_session s1)" "m_nc (pr_session s1) = None" "ch < m_channels (pr_session s1)"
    "m_effective (pr_session s1) = m_effective m"
    using overtaken_start [OF assms] by metis
  obtain xs where xs: "adds w (pr_world s1) xs" using proto_run_accounted [OF s1(1)] by (auto simp: accounted_def)
  obtain s2 c nc js kv ys where s2: "proto_run X False m w s2" "pr_starts s2 = [0 \<mapsto> SetUp c (Inr (nc, js, kv))]"
    "pr_closes s2 = [0 \<mapsto> Drained None None]" "m_start_done (pr_session s2) = Some c" "\<not> m_closing (pr_session s2)"
    "\<not> m_close_requested (pr_session s2)" "adds (pr_world s1) (pr_world s2) ys" "opened ys = [nc]" "released ys = []"
    using drained_nothing [OF s1(1-6)] assms(4,5) s1(7) by metis
  obtain s3 zs where s3: "proto_run X False m w s3" "pr_starts s3 = (\<lambda>_. None)" "pr_closes s3 = (\<lambda>_. None)"
    "adds (pr_world s2) (pr_world s3) zs" "opened zs = []" "released zs = []"
    "m_nc (pr_session s3) = None" "hs_state (m_health (pr_session s3)) = StateClosed"
    using second_start_lost [OF s2(1-6)] by metis
  have "adds (pr_world s1) (pr_world s3) (ys @ zs)" "opened (ys @ zs) = [nc]" "released (ys @ zs) = []"
    using adds_trans [OF s2(7) s3(4)] s2(8,9) s3(5,6) by simp_all
  with s3 xs show ?thesis by blast
qed

definition kind_ext :: "sim ext" where
  "kind_ext = sim_ext\<lparr>x_ctx_err := (\<lambda>ctx s. (None, s)),
     x_connect := (\<lambda>servers opts ctx s. (Inr (sm_next s), s\<lparr>sm_next := Suc (sm_next s)\<rparr>)),
     x_jetstream := (\<lambda>nc flavour d s. (Inr 8, s)), x_bind_kv := (\<lambda>js ctx bucket s. (Inr 9, s))\<rparr>"

lemma kind_connects: "connects kind_ext sample_effective CtxBackground"
  by (simp add: connects_def start_setup_def sample_connects sample_jetstream bind_or_create_kv_def perform_def query_def
      kind_ext_def Let_def)

theorem waiting_close_leaks_witness:
  "\<exists>s. proto_run kind_ext False sample_manager (sim_world []) s \<and> m_nc (pr_session s) = None \<and>
     hs_state (m_health (pr_session s)) = StateClosed"
proof -
  have "\<not> nc_retry_on_failed_connect (sc_nats (m_effective sample_manager))" "m_nc sample_manager = None"
    "connects kind_ext (m_effective sample_manager) CtxBackground"
    using kind_connects by (simp_all add: sample_manager_def sample_effective_def)
  with waiting_close_leaks [OF sample_manager_ok sample_idle, of kind_ext] show ?thesis by blast
qed



end
