(* ===== verification/Json_Strings.thy ===== *)
theory Json_Strings
  imports Json_Codec
begin

text \<open>
  Strings through the codec: what the encoder writes for a string is a string literal to the
  scanner, is delimited as one by the reader, and is read back as the string with every invalid
  byte replaced, so unchanged when the string is valid UTF-8.
\<close>

section \<open>UTF-8\<close>

definition utf8_valid :: "string \<Rightarrow> bool" where
  "utf8_valid s \<longleftrightarrow> list_all (\<lambda>(r, bs). r \<noteq> rune_error \<or> length bs \<noteq> 1) (runes s)"

definition to_valid :: "string \<Rightarrow> string" where
  "to_valid s = concat (map (encode_rune \<circ> fst) (runes s))"

definition rune_of :: "nat \<times> string \<Rightarrow> bool" where
  "rune_of p \<longleftrightarrow> runes (snd p) = [p]"

lemma runes_members: "p \<in> set (runes s) \<Longrightarrow> rune_of p"
proof -
  assume "p \<in> set (runes s)"
  then obtain xs ys where "runes s = xs @ p # ys" by (meson split_list)
  then have "runes (concat (map snd (p # ys))) = p # ys" using runes_append_split by blast
  then have "runes (concat (map snd (p # ys))) = [p] @ ys" by simp
  from runes_append_split [OF this] show ?thesis by (simp add: rune_of_def)
qed

lemma rune_of_decode: "rune_of (r, bs) \<Longrightarrow> bs \<noteq> [] \<and> decode_rune bs = (r, length bs)"
proof -
  assume "rune_of (r, bs)"
  then have r: "runes bs = [(r, bs)]" by (simp add: rune_of_def)
  then obtain c cs where bs: "bs = c # cs" by (cases bs) auto
  from r have "r = fst (decode_rune bs)" "take (snd (decode_rune bs)) bs = bs" by (simp_all add: bs runes_Cons)
  moreover have "snd (decode_rune bs) \<le> length bs" using decode_rune_width [of bs] bs by simp
  ultimately show ?thesis using bs by (metis length_take list.distinct(1) min.absorb2 min.commute prod.collapse)
qed

lemma char_byte: "of_char c < (256::nat)"
  using of_char_mod_256 [of c, where ?'a = nat] by (metis mod_less_divisor zero_less_numeral)

text \<open>The three shapes of an encoding of more than one byte.\<close>

lemma multi_cases:
  assumes "decode_bytes bs = (r, length bs)" and "length bs \<noteq> 1" and "bs \<noteq> []"
  obtains (two) b0 b1 where "bs = [b0, b1]" "194 \<le> b0" "b0 < 224" "second_byte b0 b1" "r = b0 mod 32 * 64 + b1 mod 64"
  | (three) b0 b1 b2 where "bs = [b0, b1, b2]" "224 \<le> b0" "b0 < 240" "second_byte b0 b1" "cont_byte b2"
      "r = b0 mod 16 * 4096 + b1 mod 64 * 64 + b2 mod 64"
  | (four) b0 b1 b2 b3 where "bs = [b0, b1, b2, b3]" "240 \<le> b0" "b0 \<le> 244" "second_byte b0 b1" "cont_byte b2" "cont_byte b3"
      "r = b0 mod 8 * 262144 + b1 mod 64 * 4096 + b2 mod 64 * 64 + b3 mod 64"
proof -
  obtain b0 cs where bs: "bs = b0 # cs" using assms(3) by (cases bs) auto
  obtain b1 ds where cs: "cs = b1 # ds" using assms(2) bs by (cases cs) auto
  have b0: "194 \<le> b0" "b0 \<le> 244" "second_byte b0 b1" using assms(1) by (auto simp: bs cs split: if_splits)
  consider "b0 < 224" | "224 \<le> b0 \<and> b0 < 240" | "240 \<le> b0" by linarith
  then show thesis
  proof cases
    case 1
    with assms(1) b0 show thesis by (intro two [of b0 b1]) (simp_all add: bs cs)
  next
    case 2
    with assms(1) b0 obtain b2 where "ds = [b2]" by (cases ds) (auto simp: bs cs split: if_splits)
    with 2 assms(1) b0 show thesis by (intro three [of b0 b1 b2]) (auto simp: bs cs split: if_splits)
  next
    case 3
    with assms(1) b0 obtain b2 es where ds: "ds = b2 # es" by (cases ds) (auto simp: bs cs split: if_splits)
    with 3 assms(1) b0 obtain b3 where "es = [b3]" by (cases es) (auto simp: bs cs split: if_splits)
    with 3 assms(1) b0 ds show thesis by (intro four [of b0 b1 b2 b3]) (auto simp: bs cs split: if_splits)
  qed
qed

text \<open>Such a rune is what its bytes decode to wherever they stand, and what they are written as.\<close>

lemma multi_decode:
  assumes "decode_bytes bs = (r, length bs)" and "length bs \<noteq> 1" and "bs \<noteq> []"
  shows "decode_bytes (bs @ xs) = (r, length bs)"
  using assms
proof (cases rule: multi_cases)
  case (two b0 b1)
  show ?thesis unfolding two(1,5) using two(2-4) by simp
next
  case (three b0 b1 b2)
  show ?thesis unfolding three(1,6) using three(2-5) by simp
next
  case (four b0 b1 b2 b3)
  show ?thesis unfolding four(1,7) using four(2-6) by simp
qed

lemma multi_bytes:
  assumes "decode_bytes bs = (r, length bs)" and "length bs \<noteq> 1" and "bs \<noteq> []"
  shows "\<forall>b \<in> set bs. 128 \<le> b"
  using assms by (cases rule: multi_cases) (auto simp: second_byte_def cont_byte_def split: if_splits)

lemma low_bits: "n * q \<le> (b::nat) \<Longrightarrow> b < n * Suc q \<Longrightarrow> b = n * q + b mod n"
  using div_nat_eqI [of n q b] mult_div_mod_eq [of n b] by simp

lemma second_low: "second_byte b0 b1 \<Longrightarrow> b1 = 128 + b1 mod 64"
  using low_bits [of 64 2 b1] by (auto simp: second_byte_def split: if_splits)

lemma cont_low: "cont_byte b \<Longrightarrow> b = 128 + b mod 64"
  using low_bits [of 64 2 b] by (auto simp: cont_byte_def)

lemma digit_split:
  fixes x c n :: nat
  assumes "c < n"
  shows "(x * n + c) div n = x" and "(x * n + c) mod n = c"
  using assms by (simp_all add: div_nat_eqI)

lemma multi_encode:
  assumes "decode_bytes (map of_char bs) = (r, length bs)" and "length bs \<noteq> 1" and "bs \<noteq> []"
  shows "encode_rune r = bs \<and> 128 \<le> r"
proof -
  have "decode_bytes (map of_char bs) = (r, length (map of_char bs :: nat list))" "length (map of_char bs :: nat list) \<noteq> 1"
    "(map of_char bs :: nat list) \<noteq> []" using assms by simp_all
  then have "encode_rune r = map char_of (map of_char bs :: nat list) \<and> 128 \<le> r"
  proof (cases rule: multi_cases)
    case (two b0 b1)
    define a b where "a = b0 mod 32" and "b = b1 mod 64"
    have "b0 = 192 + a" "a < 32" "2 \<le> a" using two(2,3) low_bits [of 32 6 b0] by (simp_all add: a_def)
    moreover have "b1 = 128 + b" "b < 64" using second_low [OF two(4)] by (simp_all add: b_def)
    moreover have r: "r = a * 64 + b" using two(5) by (simp add: a_def b_def)
    moreover have "r div 64 = a" "r mod 64 = b" using r \<open>b < 64\<close> by simp_all
    ultimately show ?thesis unfolding two(1) by (simp add: encode_rune_def Let_def)
  next
    case (three b0 b1 b2)
    define a b c where "a = b0 mod 16" and "b = b1 mod 64" and "c = b2 mod 64"
    have a: "b0 = 224 + a" "a < 16" using three(2,3) low_bits [of 16 14 b0] by (simp_all add: a_def)
    have b: "b1 = 128 + b" "b < 64" using second_low [OF three(4)] by (simp_all add: b_def)
    have c: "b2 = 128 + c" "c < 64" using cont_low [OF three(5)] by (simp_all add: c_def)
    have r: "r = (a * 64 + b) * 64 + c" using three(6) by (simp add: a_def b_def c_def)
    have d: "r div 64 = a * 64 + b" "r mod 64 = c" unfolding r by (rule digit_split [OF c(2)])+
    have "r div 4096 = a" "r div 64 mod 64 = b"
      using digit_split [OF b(2), of a] div_mult2_eq [of r 64 64] by (simp_all only: d) simp_all
    moreover have n: "2048 \<le> r" "r < 65536" "((55296 \<le> r \<and> r \<le> 57343) \<or> 1114111 < r) = False"
      using three(4) a b c r by (auto simp: second_byte_def split: if_splits)
    ultimately show ?thesis unfolding three(1) encode_rune_def Let_def n(3) if_False using a b c d by simp
  next
    case (four b0 b1 b2 b3)
    define a b c d where "a = b0 mod 8" and "b = b1 mod 64" and "c = b2 mod 64" and "d = b3 mod 64"
    have a: "b0 = 240 + a" "a < 5" using four(2,3) low_bits [of 8 30 b0] by (simp_all add: a_def)
    have b: "b1 = 128 + b" "b < 64" using second_low [OF four(4)] by (simp_all add: b_def)
    have c: "b2 = 128 + c" "c < 64" using cont_low [OF four(5)] by (simp_all add: c_def)
    have d: "b3 = 128 + d" "d < 64" using cont_low [OF four(6)] by (simp_all add: d_def)
    have r: "r = ((a * 64 + b) * 64 + c) * 64 + d" using four(7) by (simp add: a_def b_def c_def d_def)
    have e: "r div 64 = (a * 64 + b) * 64 + c" "r mod 64 = d" unfolding r by (rule digit_split [OF d(2)])+
    have f: "r div 64 div 64 = a * 64 + b" "r div 64 mod 64 = c" unfolding e(1) by (rule digit_split [OF c(2)])+
    have g: "r div 64 div 64 div 64 = a" "r div 64 div 64 mod 64 = b" unfolding f(1) by (rule digit_split [OF b(2)])+
    have "r div 4096 mod 64 = b" "r div 262144 = a"
      using g div_mult2_eq [of r 64 64] div_mult2_eq [of r 4096 64] by (simp_all add: div_mult2_eq [symmetric])
    moreover have "65536 \<le> r" "r \<le> 1114111"
      using four(4) a b c d r by (auto simp: second_byte_def split: if_splits)
    moreover from this have n: "((55296 \<le> r \<and> r \<le> 57343) \<or> 1114111 < r) = False" by simp
    ultimately show ?thesis unfolding four(1) encode_rune_def Let_def n if_False using a b c d e f by simp
  qed
  then show ?thesis by (simp add: comp_def)
qed

section \<open>Pieces of a string literal\<close>

text \<open>
  A literal is a sequence of pieces, each the text of one rune: a plain character, a backslash
  and a letter, a \<^verbatim>\<open>\u\<close> escape, or an encoding of several bytes.
\<close>

inductive piece :: "string \<Rightarrow> string \<Rightarrow> bool" where
  piece_plain: "\<lbrakk>32 \<le> (of_char c :: nat); (of_char c :: nat) < 128; c \<noteq> dquote; c \<noteq> bslash\<rbrakk> \<Longrightarrow> piece [c] [c]"
| piece_letter: "\<lbrakk>esc_char x; simple_escape x = Some v\<rbrakk> \<Longrightarrow> piece [bslash, x] v"
| piece_hex: "\<lbrakk>n < 65536; n < 55296 \<or> 57343 < n\<rbrakk> \<Longrightarrow> piece (u_escape n) (encode_rune n)"
| piece_multi: "\<lbrakk>decode_bytes (map of_char bs) = (r, length bs); length bs \<noteq> 1; bs \<noteq> []\<rbrakk> \<Longrightarrow> piece bs bs"

lemma rune_cases:
  assumes "rune_of (r, bs)"
  obtains (ascii) c where "bs = [c]" "r = of_char c" "r < 128"
  | (broken) c where "bs = [c]" "r = rune_error" "128 \<le> (of_char c :: nat)"
  | (multi) "decode_bytes (map of_char bs) = (r, length bs)" "length bs \<noteq> 1" "bs \<noteq> []" "128 \<le> r" "encode_rune r = bs"
proof (cases "length bs = 1")
  case True
  then obtain c where bs: "bs = [c]" by (cases bs) auto
  with rune_of_decode [OF assms] have d: "decode_bytes [of_char c] = (r, 1)" by (simp add: decode_rune_def)
  show thesis
  proof (cases "(of_char c :: nat) < 128")
    case True
    with d bs show thesis by (intro ascii [of c]) auto
  next
    case False
    with d bs show thesis by (intro broken [of c]) (auto split: if_splits)
  qed
next
  case False
  with rune_of_decode [OF assms] have "decode_bytes (map of_char bs) = (r, length bs)" "bs \<noteq> []"
    by (simp_all add: decode_rune_def)
  with False multi_encode [of bs r] show thesis by (intro multi) simp_all
qed

lemma rune_error_piece: "piece (u_escape rune_error) (encode_rune rune_error)"
  by (rule piece_hex) (simp_all add: rune_error_def)

lemma encode_ascii: "(of_char c :: nat) < 128 \<Longrightarrow> encode_rune (of_char c) = [c]"
  by (simp add: encode_rune_def)

lemma char_codes:
  "(of_char c :: nat) = 34 \<longleftrightarrow> c = CHR 0x22" "(of_char c :: nat) = 92 \<longleftrightarrow> c = CHR 0x5C"
  "(of_char c :: nat) = 8 \<longleftrightarrow> c = CHR 0x08" "(of_char c :: nat) = 12 \<longleftrightarrow> c = CHR 0x0C"
  "(of_char c :: nat) = 10 \<longleftrightarrow> c = CHR 0x0A" "(of_char c :: nat) = 13 \<longleftrightarrow> c = CHR 0x0D"
  "(of_char c :: nat) = 9 \<longleftrightarrow> c = CHR 0x09"
  using of_char_eq_iff [of c "CHR 0x22", where ?'a = nat] of_char_eq_iff [of c "CHR 0x5C", where ?'a = nat]
    of_char_eq_iff [of c "CHR 0x08", where ?'a = nat] of_char_eq_iff [of c "CHR 0x0C", where ?'a = nat]
    of_char_eq_iff [of c "CHR 0x0A", where ?'a = nat] of_char_eq_iff [of c "CHR 0x0D", where ?'a = nat]
    of_char_eq_iff [of c "CHR 0x09", where ?'a = nat]
  by simp_all

lemma char_of_codes: "char_of (34 :: nat) = CHR 0x22" "char_of (92 :: nat) = CHR 0x5C"
  by (simp_all add: char_codes flip: of_char_eq_iff [where ?'a = nat])

lemma piece_escape_ascii:
  assumes "(of_char c :: nat) < 128"
  shows "piece (escape_rune (of_char c, [c])) [c]"
proof -
  let ?n = "of_char c :: nat"
  note hex = piece_hex [of ?n, unfolded encode_ascii [OF assms]]
  note letter = piece_letter [unfolded bslash_def] esc_char_def simple_escape_def dquote_def bslash_def char_of_codes
  consider "?n = 34" | "?n = 92" | "?n = 8" | "?n = 12" | "?n = 10" | "?n = 13" | "?n = 9"
    | "?n < 32 \<or> ?n = 60 \<or> ?n = 62 \<or> ?n = 38" "?n \<notin> {34, 92, 8, 12, 10, 13, 9}"
    | "32 \<le> ?n" "?n \<notin> {34, 92, 60, 62, 38}" by fastforce
  then show ?thesis
  proof cases
    case 8
    with assms have "escape_rune (?n, [c]) = u_escape ?n" by (auto simp: escape_rune_def)
    with hex assms show ?thesis by simp
  next
    case 9
    with assms have "escape_rune (?n, [c]) = [c]" by (auto simp: escape_rune_def)
    moreover have "c \<noteq> dquote" "c \<noteq> bslash" using 9 by (auto simp: dquote_def bslash_def)
    ultimately show ?thesis using 9 assms by (simp add: piece_plain)
  qed (simp_all add: char_codes escape_rune_def letter)
qed

lemma piece_escape:
  assumes "rune_of (r, bs)"
  shows "piece (escape_rune (r, bs)) (encode_rune r)"
  using assms
proof (cases rule: rune_cases)
  case (ascii c)
  then show ?thesis using piece_escape_ascii [of c] encode_ascii [of c] by simp
next
  case (broken c)
  then show ?thesis using rune_error_piece by (simp add: escape_rune_def rune_error_def)
next
  case multi
  show ?thesis
  proof (cases "r = 0x2028 \<or> r = 0x2029")
    case True
    with multi have "escape_rune (r, bs) = u_escape r" by (auto simp: escape_rune_def rune_error_def)
    with True show ?thesis using piece_hex [of r] by auto
  next
    case False
    with multi have "escape_rune (r, bs) = bs" by (auto simp: escape_rune_def)
    with multi show ?thesis using piece_multi [of bs r] by simp
  qed
qed

lemma hex_lower_code: "n < 16 \<Longrightarrow> of_char (hex_lower n) = (if n < 10 then 48 + n else 87 + n :: nat)"
  by (simp add: hex_lower_def)

lemma hex_lower_lt: "n < 16 \<Longrightarrow> hex_val (hex_lower n) = n \<and> hex_digit (hex_lower n)"
  by (auto simp: hex_lower_code hex_val_def hex_digit_def dec_digit_def Let_def)

lemma take_u_hex:
  assumes "n < 65536" and "n < 55296 \<or> 57343 < n"
  shows "take_u (drop 2 (u_escape n) @ s) = Some (n, 4)"
proof -
  have horner: "\<lbrakk>m = a * 16 + d; a = b * 16 + e; b = c * 16 + f\<rbrakk> \<Longrightarrow> m = (c * 16 + f) * 256 + e * 16 + d"
    for m a b c d e f :: nat by simp
  have "n = (n div 4096 * 16 + n div 256 mod 16) * 256 + n div 16 mod 16 * 16 + n mod 16"
  proof (rule horner)
    show "n = n div 16 * 16 + n mod 16" by simp
    show "n div 16 = n div 256 * 16 + n div 16 mod 16"
      using div_mult_mod_eq [of "n div 16" 16] by (simp add: div_mult2_eq [symmetric])
    show "n div 256 = n div 4096 * 16 + n div 256 mod 16"
      using div_mult_mod_eq [of "n div 256" 16] by (simp add: div_mult2_eq [symmetric])
  qed
  moreover have "n div 4096 < 16" using assms(1) by (simp add: div_less_iff_less_mult)
  ultimately have "get_u4 (drop 2 (u_escape n) @ s) = Some n"
    by (simp add: get_u4_def u_escape_def hex_lower_lt)
  with assms(2) show ?thesis by (auto simp: take_u_def)
qed

lemma unescape_piece:
  assumes "piece e v"
  shows "unescape (Suc n) (e @ s) = map_option (append v) (unescape n s)"
  using assms
proof cases
  case (piece_plain c)
  then show ?thesis by simp
next
  case (piece_letter x)
  then have "x \<noteq> CHR ''u''" by (auto simp: esc_char_def)
  with piece_letter show ?thesis by simp
next
  case (piece_hex m)
  then show ?thesis using take_u_hex [of m s] by (simp add: u_escape_def)
next
  case (piece_multi r)
  let ?bs = "map of_char e :: nat list"
  have d: "decode_bytes (?bs @ map of_char s) = (r, length e)"
    using multi_decode [of ?bs r] piece_multi by simp
  have b: "\<forall>b \<in> set ?bs. 128 \<le> b" using multi_bytes [of ?bs r] piece_multi by simp
  obtain c cs where e: "e = c # cs" using piece_multi by (cases e) auto
  with b have c: "c \<noteq> bslash" "c \<noteq> dquote" "128 \<le> (of_char c :: nat)" by (auto simp: bslash_def dquote_def)
  have "decode_rune (c # cs @ s) = (r, length e)" using d by (simp add: decode_rune_def e)
  moreover have "encode_rune r = e" using multi_encode [of e r] piece_multi by simp
  moreover have "drop (length e) (c # cs @ s) = s" by (simp add: e)
  ultimately show ?thesis using c piece_multi(1) by (simp add: e)
qed

lemma scan_high:
  "\<forall>b \<in> set e. 128 \<le> (of_char b :: nat) \<Longrightarrow> scan_all \<lparr>sc_step = InString, sc_stack = st\<rparr> e = goto InString st"
  by (induction e) auto

lemma scan_piece:
  assumes "piece e v"
  shows "scan_all \<lparr>sc_step = InString, sc_stack = st\<rparr> e = goto InString st"
  using assms
proof cases
  case (piece_hex m)
  then show ?thesis by (simp add: u_escape_def bslash_def esc_char_def hex_lower_lt)
next
  case (piece_multi r)
  then show ?thesis using multi_bytes [of "map of_char e" r] by (intro scan_high) simp
qed (simp_all add: dquote_def bslash_def)

lemma span_plain:
  "\<forall>b \<in> set e. b \<noteq> dquote \<and> b \<noteq> bslash \<Longrightarrow>
   span_string False (e @ s) = map_prod (append e) id (span_string False s)"
  by (induction e) (auto simp: case_prod_beta map_prod_def)

lemma hex_lower_plain: "hex_lower (n mod 16) \<noteq> CHR 0x22" "hex_lower (n mod 16) \<noteq> CHR 0x5C"
  using hex_lower_code [of "n mod 16"] by (auto split: if_splits)

lemma span_piece:
  assumes "piece e v"
  shows "span_string False (e @ s) = map_prod (append e) id (span_string False s)"
  using assms
proof cases
  case (piece_letter x)
  then show ?thesis by (simp add: bslash_def dquote_def case_prod_beta map_prod_def)
next
  case (piece_hex m)
  have "\<forall>b \<in> set (drop 2 (u_escape m)). b \<noteq> dquote \<and> b \<noteq> bslash"
    by (simp add: u_escape_def hex_lower_plain dquote_def bslash_def)
  note tail = span_plain [OF this, of s]
  have e: "e = [CHR 0x5C, CHR ''u''] @ drop 2 (u_escape m)" using piece_hex by (simp add: u_escape_def bslash_def)
  show ?thesis unfolding e append_assoc
    by (simp add: tail case_prod_beta map_prod_def dquote_def bslash_def)
next
  case (piece_multi r)
  then have "\<forall>b \<in> set e. 128 \<le> (of_char b :: nat)" using multi_bytes [of "map of_char e" r] by simp
  then show ?thesis by (intro span_plain) (auto simp: dquote_def bslash_def)
qed (use span_plain [of e s] in simp)

section \<open>String literals\<close>

inductive literal :: "string \<Rightarrow> string \<Rightarrow> bool" where
  literal_pieces: "list_all2 piece es vs \<Longrightarrow> literal (dquote # concat es @ [dquote]) (concat vs)"

lemma piece_nonempty: "piece e v \<Longrightarrow> e \<noteq> []"
  by (cases rule: piece.cases) (simp_all add: u_escape_def)

lemma unescape_pieces:
  "list_all2 piece es vs \<Longrightarrow> length es \<le> n \<Longrightarrow> unescape n (concat es) = Some (concat vs)"
proof (induction es vs arbitrary: n rule: list_all2_induct)
  case (Cons e es v vs)
  then obtain k where n: "n = Suc k" "length es \<le> k" by (cases n) auto
  with Cons show ?case by (simp add: unescape_piece del: unescape.simps)
qed simp

lemma scan_pieces:
  "list_all2 piece es vs \<Longrightarrow> scan_all \<lparr>sc_step = InString, sc_stack = st\<rparr> (concat es) = goto InString st"
  by (induction es vs rule: list_all2_induct) (simp_all add: scan_all_append scan_piece)

lemma span_pieces:
  "list_all2 piece es vs \<Longrightarrow> span_string False (concat es @ dquote # s) = (concat es @ [dquote], s)"
  by (induction es vs rule: list_all2_induct) (simp_all add: span_piece)

lemma pieces_length: "list_all2 piece es vs \<Longrightarrow> length es \<le> length (concat es)"
proof (induction es vs rule: list_all2_induct)
  case (Cons e es v vs)
  have "Suc 0 \<le> length e" using piece_nonempty [OF Cons.hyps(1)] by (cases e) simp_all
  with Cons.IH show ?case unfolding concat.simps length_append list.size by linarith
qed simp

lemma literal_unquote:
  assumes "literal lit v"
  shows "unquote_json lit = Some v"
  using assms
proof cases
  case (literal_pieces es vs)
  have "unescape (length lit) (concat es) = Some (concat vs)"
    using literal_pieces pieces_length [of es vs] by (intro unescape_pieces) auto
  with literal_pieces show ?thesis by (simp add: unquote_json_def butlast_append)
qed

lemma literal_span:
  assumes "literal lit v"
  shows "span_value (lit @ s) = (lit, s)"
  using assms by cases (simp add: span_value_def span_pieces)

lemma literal_scan:
  assumes "literal lit v"
  shows "scan_all \<lparr>sc_step = InString, sc_stack = st\<rparr> (tl lit) = goto EndValue st"
  using assms by cases (simp add: scan_all_append scan_pieces, simp add: dquote_def)

lemma literal_hd: "literal lit v \<Longrightarrow> \<exists>r. lit = dquote # r"
  by (auto elim: literal.cases)

text \<open>What is written for a string is a literal of its valid form.\<close>

lemma quote_literal: "literal (quote_json s) (to_valid s)"
proof -
  have "list_all2 piece (map escape_rune (runes s)) (map (encode_rune \<circ> fst) (runes s))"
    by (auto simp: list_all2_map1 list_all2_map2 list_all2_same intro!: piece_escape runes_members)
  from literal_pieces [OF this] show ?thesis by (simp add: quote_json_def to_valid_def)
qed

lemma to_valid_id:
  assumes "utf8_valid s"
  shows "to_valid s = s"
proof -
  have "encode_rune r = bs" if "(r, bs) \<in> set (runes s)" for r bs
    using runes_members [OF that]
  proof (cases rule: rune_cases)
    case (ascii c)
    then show ?thesis using encode_ascii by simp
  next
    case (broken c)
    with assms that show ?thesis by (auto simp: utf8_valid_def list_all_iff)
  qed
  then have "map (encode_rune \<circ> fst) (runes s) = map snd (runes s)" by auto
  then show ?thesis by (simp only: to_valid_def concat_runes)
qed

lemma to_valid_eq_Nil [simp]: "to_valid s = [] \<longleftrightarrow> s = []"
proof -
  have "encode_rune r \<noteq> []" for r by (simp add: encode_rune_def Let_def)
  then show ?thesis by (cases s) (auto simp: to_valid_def runes_Cons)
qed

end
