(* ===== verification/Time_Roundtrip.thy ===== *)
theory Time_Roundtrip
  imports Json_Strings
begin

text \<open>
  Times through the codec: the calendar is inverted by counting days, numbers are read back from
  the digits they are padded to, and so a time whose zone is a whole number of minutes is read
  back from the text that is written for it.
\<close>

section \<open>Calendar\<close>

text \<open>The cycles of a day number, with their ranges.\<close>

lemma year_cycles:
  fixes n :: int
  obtains a b c d e where "n = 146097 * a + 36524 * b + 1461 * c + 365 * d + e"
    "year_of_day n = 400 * a + 100 * b + 4 * c + d + 1"
    "0 \<le> b" "b \<le> 3" "0 \<le> c" "c \<le> 24" "0 \<le> d" "d \<le> 3" "0 \<le> e" "e \<le> 365"
    "e = 365 \<longrightarrow> d = 3 \<and> (c = 24 \<longrightarrow> b = 3)"
proof -
  define a r where "a = n div 146097" and "r = n mod 146097"
  have r: "0 \<le> r" "r < 146097" "n = 146097 * a + r" by (simp_all add: r_def a_def)
  define b where "b = min 3 (r div 36524)"
  define s where "s = r - b * 36524"
  have b: "0 \<le> b" "b \<le> 3" using r by (simp_all add: b_def pos_imp_zdiv_nonneg_iff)
  have s: "0 \<le> s" "b < 3 \<longrightarrow> s < 36524" "s < 36525"
    using r div_mult_mod_eq [of r 36524] pos_mod_bound [of 36524 r] pos_mod_sign [of 36524 r]
    by (auto simp: s_def b_def min_def)
  define c t where "c = s div 1461" and "t = s mod 1461"
  have t: "0 \<le> t" "t < 1461" "s = 1461 * c + t" by (simp_all add: t_def c_def)
  have c: "0 \<le> c" "c \<le> 24" using s(1,3) t by linarith+
  define d where "d = min 3 (t div 365)"
  have d: "0 \<le> d" "d \<le> 3" using t by (simp_all add: d_def pos_imp_zdiv_nonneg_iff)
  have e: "0 \<le> t - 365 * d" "d < 3 \<longrightarrow> t - 365 * d < 365"
    using t div_mult_mod_eq [of t 365] pos_mod_bound [of 365 t] pos_mod_sign [of 365 t]
    by (auto simp: d_def min_def)
  have y: "year_of_day n = 400 * a + 100 * b + 4 * c + d + 1"
    by (simp add: year_of_day_def Let_def a_def b_def c_def d_def r_def s_def t_def)
  show thesis
  proof (rule that [OF _ y b c d])
    show "n = 146097 * a + 36524 * b + 1461 * c + 365 * d + (t - 365 * d)" using r(3) t(3) by (simp add: s_def)
    show "t - 365 * d = 365 \<longrightarrow> d = 3 \<and> (c = 24 \<longrightarrow> b = 3)"
    proof
      assume l: "t - 365 * d = 365"
      have d3: "d = 3" using e(2) d(2) l by linarith
      moreover have "b = 3" if "c = 24" using that d3 l b(2) s(2) t(3) by linarith
      ultimately show "d = 3 \<and> (c = 24 \<longrightarrow> b = 3)" by simp
    qed
    show "t - 365 * d \<le> 365" using e(2) d(2) t(2) by linarith
  qed (rule e(1))
qed

lemma year_bounds:
  fixes n :: int
  defines "y \<equiv> year_of_day n"
  shows "0 \<le> n - days_before_year y \<and> n - days_before_year y < 365 + (if leap_year y then 1 else 0)"
proof -
  obtain a b c d e where n: "n = 146097 * a + 36524 * b + 1461 * c + 365 * d + e"
    and y: "y = 400 * a + 100 * b + 4 * c + d + 1"
    and r: "0 \<le> b" "b \<le> 3" "0 \<le> c" "c \<le> 24" "0 \<le> d" "d \<le> 3" "0 \<le> e" "e \<le> 365"
    and leap: "e = 365 \<longrightarrow> d = 3 \<and> (c = 24 \<longrightarrow> b = 3)"
    unfolding y_def by (rule year_cycles [of n])
  have q: "(y - 1) div 4 = 100 * a + 25 * b + c" "(y - 1) div 100 = 4 * a + b" "(y - 1) div 400 = a"
    using r unfolding y by (intro int_div_pos_eq [where r = d] int_div_pos_eq [where r = "4 * c + d"]
      int_div_pos_eq [where r = "100 * b + 4 * c + d"]; simp)+
  have e: "n - days_before_year y = e" unfolding days_before_year_def q unfolding n y by simp
  have "leap_year y" if "e = 365"
  proof -
    have "d = 3" and cb: "c = 24 \<longrightarrow> b = 3" using leap that by simp_all
    then have "y mod 4 = 0" unfolding y by (intro int_mod_pos_eq [where q = "100 * a + 25 * b + c + 1"]) simp_all
    moreover have "y mod 400 = 0" if "c = 24"
      using that cb \<open>d = 3\<close> unfolding y by (intro int_mod_pos_eq [where q = "a + 1"]) simp_all
    moreover have "y mod 100 = 4 * c + 4" if "c \<noteq> 24"
      using that r \<open>d = 3\<close> unfolding y by (intro int_mod_pos_eq [where q = "4 * a + b"]) simp_all
    ultimately show ?thesis using r by (cases "c = 24") (simp_all add: leap_year_def)
  qed
  then show ?thesis unfolding e using r(7,8) by (cases "e = 365") auto
qed

lemma split_month_sum:
  assumes "split_month ls m0 k = (m, d)" and "0 \<le> k" and "k < sum_list ls"
  shows "m0 \<le> m \<and> m < m0 + int (length ls) \<and> 1 \<le> d \<and> d \<le> ls ! nat (m - m0) \<and>
    sum_list (take (nat (m - m0)) ls) + (d - 1) = k"
  using assms
proof (induction ls arbitrary: m0 k)
  case (Cons l ls)
  show ?case
  proof (cases "k < l")
    case True
    with Cons.prems show ?thesis by auto
  next
    case False
    with Cons.prems Cons.IH [of "m0 + 1" "k - l"]
    have *: "m0 + 1 \<le> m" "m < m0 + 1 + int (length ls)" "1 \<le> d" "d \<le> ls ! nat (m - (m0 + 1))"
      "sum_list (take (nat (m - (m0 + 1))) ls) + (d - 1) = k - l" by auto
    then have "nat (m - m0) = Suc (nat (m - (m0 + 1)))" by simp
    with * show ?thesis by auto
  qed
qed simp

lemma civil_of_day_inverse:
  assumes "civil_of_day n = (y, m, d)"
  shows "days_of_civil y m d = n \<and> 1 \<le> m \<and> m \<le> 12 \<and> 1 \<le> d \<and> d \<le> days_in_month y m"
proof -
  let ?k = "n - days_before_year y"
  have y: "y = year_of_day n" and s: "split_month (month_lengths (leap_year y)) 1 ?k = (m, d)"
    using assms by (auto simp: civil_of_day_def Let_def split: prod.splits)
  have "0 \<le> ?k" "?k < sum_list (month_lengths (leap_year y))"
    using year_bounds [of n] by (auto simp: y month_lengths_def split: if_splits)
  from split_month_sum [OF s this] show ?thesis
    by (auto simp: days_of_civil_def days_before_month_def days_in_month_def month_lengths_def)
qed

lemma days_in_month_le:
  assumes "1 \<le> m" and "m \<le> 12"
  shows "days_in_month y m \<le> 31"
proof -
  have "m \<in> {1, 2, 3, 4, 5, 6, 7, 8, 9, 10, 11, 12}" using assms by (simp add: numeral_eq_iff) presburger
  then show ?thesis by (auto simp: days_in_month_def month_lengths_def)
qed

section \<open>Numbers\<close>

lemma digit_char_simps [simp]:
  assumes "d < 10"
  shows "digit_at (digit_char d)" and "digit_val (digit_char d) = int d"
  using assms by (simp_all add: digit_at_def digit_val_def of_char_digit_char)

lemma digit_char_0: "digit_char 0 = CHR ''0''"
  by (simp add: digit_char_def flip: of_char_eq_iff [where ?'a = nat])

text \<open>A number padded to a width is the digits of that width.\<close>

fun digits :: "nat \<Rightarrow> nat \<Rightarrow> string" where
  "digits 0 n = []"
| "digits (Suc w) n = digits w (n div 10) @ [digit_char (n mod 10)]"

lemma digits_length [simp]: "length (digits w n) = w"
  by (induction w arbitrary: n) simp_all

lemma digits_0: "digits w 0 = replicate w (CHR ''0'')"
  by (induction w) (simp_all add: digit_char_0 replicate_append_same)

lemma show_digits:
  "n < 10 ^ w \<Longrightarrow> 0 < w \<Longrightarrow> length (show_nat n) \<le> w \<and> digits w n = replicate (w - length (show_nat n)) (CHR ''0'') @ show_nat n"
proof (induction w arbitrary: n)
  case (Suc w)
  show ?case
  proof (cases "n < 10")
    case True
    then show ?thesis by (simp add: show_nat.simps [of n] digits_0)
  next
    case False
    with Suc.prems have "n div 10 < 10 ^ w" "0 < w" by (cases w; auto simp: div_less_iff_less_mult mult.commute)+
    with Suc.IH [of "n div 10"] False show ?thesis by (simp add: show_nat.simps [of n])
  qed
qed simp

lemma pad_digits: "n < 10 ^ w \<Longrightarrow> 0 < w \<Longrightarrow> pad_num w n = digits w n"
  using show_digits [of n w] by (simp add: pad_num_def Let_def)

lemma digits_digit: "c \<in> set (digits w n) \<Longrightarrow> digit_at c"
  by (induction w arbitrary: n) auto

lemma read_digits: "n < 10 ^ w \<Longrightarrow> read_nat 0 (digits w n) = n"
proof (induction w arbitrary: n)
  case (Suc w)
  then have "n div 10 < 10 ^ w" by (simp add: div_less_iff_less_mult mult.commute)
  with Suc.IH [of "n div 10"] show ?case by (simp add: read_nat_append of_char_digit_char)
qed simp

lemma two_digits:
  fixes n :: nat
  assumes "n < 10 ^ Suc (Suc w)"
  obtains a b c where "n = (a * 10 + b) * 10 + c" "a < 10 ^ w" "b < 10" "c < 10"
    "digits (Suc (Suc w)) n = digits w a @ [digit_char b, digit_char c]"
proof (rule that [of "n div 10 div 10" "n div 10 mod 10" "n mod 10"])
  show "n = (n div 10 div 10 * 10 + n div 10 mod 10) * 10 + n mod 10" unfolding div_mult_mod_eq ..
  show "n div 10 div 10 < 10 ^ w"
    using assms by (simp only: div_less_iff_less_mult zero_less_numeral power_Suc2)
qed simp_all

lemma get_num_pad:
  assumes "n < 100"
  shows "get_num f (pad_num 2 n @ s) = Some (int n, s)"
proof -
  have "n < 10 ^ Suc (Suc 0)" using assms by simp
  then obtain a b c where n: "n = (a * 10 + b) * 10 + c" "a < 10 ^ 0" "b < 10" "c < 10"
    "digits (Suc (Suc 0)) n = digits 0 a @ [digit_char b, digit_char c]" by (rule two_digits)
  moreover have "pad_num 2 n = digits (Suc (Suc 0)) n" using assms by (simp add: pad_digits numeral_2_eq_2 del: digits.simps)
  ultimately show ?thesis by (simp del: digits.simps(2))
qed

lemma get_year_pad:
  assumes "n < 10000"
  shows "get_year (pad_num 4 n @ s) = Some (int n, s)"
proof -
  have n: "n < 10 ^ Suc (Suc (Suc (Suc 0)))" using assms by simp
  obtain a b c where n: "n = (a * 10 + b) * 10 + c" "a < 10 ^ Suc (Suc 0)" "b < 10" "c < 10"
    "digits (Suc (Suc (Suc (Suc 0)))) n = digits (Suc (Suc 0)) a @ [digit_char b, digit_char c]"
    by (rule two_digits [OF n])
  obtain d e f where a: "a = (d * 10 + e) * 10 + f" "d < 10 ^ 0" "e < 10" "f < 10"
    "digits (Suc (Suc 0)) a = digits 0 d @ [digit_char e, digit_char f]" by (rule two_digits [OF n(2)])
  have "pad_num 4 n = digits 4 n" using assms by (simp add: pad_digits)
  moreover have "(4 :: nat) = Suc (Suc (Suc (Suc 0)))" by simp
  ultimately have "pad_num 4 n = digits (Suc (Suc (Suc (Suc 0)))) n" by metis
  with n a show ?thesis by (simp del: digits.simps(2))
qed

section \<open>Fractions and zones\<close>

lemma trailing_zeros: "\<exists>k. s = rev (dropWhile (\<lambda>c. c = z) (rev s)) @ replicate k z"
proof (induction s rule: rev_induct)
  case (snoc x xs)
  then obtain k where k: "xs = rev (dropWhile (\<lambda>c. c = z) (rev xs)) @ replicate k z" ..
  show ?case
  proof (cases "x = z")
    case True
    have "xs @ [x] = rev (dropWhile (\<lambda>c. c = z) (rev xs)) @ replicate (Suc k) z"
      using k True by (metis append.assoc replicate_Suc replicate_append_same)
    moreover have "dropWhile (\<lambda>c. c = z) (rev (xs @ [x])) = dropWhile (\<lambda>c. c = z) (rev xs)" using True by simp
    ultimately show ?thesis by metis
  next
    case False
    then show ?thesis by (intro exI [of _ 0]) simp
  qed
qed simp

lemma get_fraction_text:
  assumes "n < 1000000000" and "z = c # r" and "\<not> digit_at c" and "c \<noteq> CHR ''.''" and "c \<noteq> CHR '',''"
  shows "get_fraction (fraction_text n @ z) = (int n, z)"
proof (cases "n = 0")
  case True
  with assms show ?thesis by (cases r) (simp_all add: fraction_text_def)
next
  case False
  define t where "t = rev (dropWhile (\<lambda>c. c = CHR ''0'') (rev (digits 9 n)))"
  obtain k where p: "digits 9 n = t @ replicate k (CHR ''0'')" unfolding t_def using trailing_zeros [of "digits 9 n"] ..
  have read: "read_nat 0 (digits 9 n) = n" using assms(1) by (intro read_digits) simp
  have "t \<noteq> []"
  proof
    assume "t = []"
    then have r: "digits 9 n = replicate k (CHR ''0'')" using p by (simp only: append_Nil)
    then have "k = 9" by (metis digits_length length_replicate)
    with r have "digits 9 n = digits 9 0" by (simp only: digits_0)
    moreover have "read_nat 0 (digits 9 0) = 0" by (rule read_digits) simp
    ultimately show False using read False by metis
  qed
  then obtain d ds where t: "t = d # ds" by (cases t) auto
  have dig: "\<forall>x \<in> set t. digit_at x" using digits_digit [of _ 9 n] unfolding p by simp
  have "length t + k = 9" using p digits_length [of 9 n] by (metis length_append length_replicate)
  then have "take 9 t = t" "9 - length t = k" by simp_all
  then have "nanos_of_digits t = int n" using read unfolding p by (simp add: nanos_of_digits_def Let_def)
  moreover have "takeWhile digit_at (t @ z) = t" "dropWhile digit_at (t @ z) = z"
    using dig assms(2,3) by (simp_all add: takeWhile_append dropWhile_append)
  moreover have "fraction_text n = CHR ''.'' # t" using False assms(1) by (simp add: fraction_text_def pad_digits t_def)
  ultimately show ?thesis using dig by (simp add: t)
qed

lemma zone_head: "\<exists>c r. zone_text off = c # r \<and> \<not> digit_at c \<and> c \<noteq> CHR ''.'' \<and> c \<noteq> CHR '',''"
  by (simp add: zone_text_def Let_def digit_at_def)

lemma get_zone_text:
  assumes "60 dvd off" and "\<bar>off\<bar> < 86400"
  shows "get_zone (zone_text off) = Some (off, [])"
proof (cases "off = 0")
  case True
  then show ?thesis by (simp add: zone_text_def get_zone_def)
next
  case False
  define m where "m = nat (\<bar>off\<bar> div 60)"
  have m: "int m * 60 = \<bar>off\<bar>" using assms(1) by (simp add: m_def pos_imp_zdiv_nonneg_iff)
  then have lt: "m < 1440" using assms(2) by linarith
  then have h: "m div 60 < 24" by (simp add: div_less_iff_less_mult)
  have len: "length (pad_num 2 k) = 2" if "k < 100" for k using that by (simp add: pad_digits)
  obtain a b where pa: "pad_num 2 (m div 60) = [a, b]" using len [of "m div 60"] h by (auto simp: length_Suc_conv numeral_2_eq_2)
  have "m mod 60 < 100" by (rule less_trans [of _ 60]) simp_all
  note h2 = this len [OF this]
  obtain c d where pc: "pad_num 2 (m mod 60) = [c, d]" using h2(2) by (auto simp: length_Suc_conv numeral_2_eq_2)
  have ga: "get_num True [a, b] = Some (int (m div 60), [])" using get_num_pad [of "m div 60" True "[]"] h by (simp add: pa)
  have gc: "get_num True [c, d] = Some (int (m mod 60), [])"
    using get_num_pad [OF h2(1), of True "[]"] by (simp add: pc)
  have z: "zone_text off = (if off < 0 then CHR ''-'' else CHR ''+'') # a # b # CHR '':'' # c # d # []"
    using False pa pc by (simp add: zone_text_def Let_def m_def)
  have "int (m div 60) * 60 + int (m mod 60) = int m" by (metis div_mult_mod_eq of_nat_add of_nat_mult of_nat_numeral)
  moreover have "\<not> int (m div 60) > 24" "\<not> int (m mod 60) > 60" using h mod_less_divisor [of 60 m] by linarith+
  ultimately show ?thesis using m False unfolding z get_zone_def
    by (simp add: ga gc del: get_num.simps)
qed

section \<open>Times\<close>

text \<open>A time the encoder can write, in a zone of whole minutes, is read back as it was.\<close>

lemma parse_time_text:
  assumes "civil_of_day (wall_nanos t div nanos_per_second div 86400) = (y, m, d)" and "0 \<le> y" and "y \<le> 9999"
    and "60 dvd t_offset t" and "\<bar>t_offset t\<bar> < 86400"
  shows "parse_time (time_text t) = Some t"
proof -
  let ?w = "wall_nanos t"
  define secs where "secs = ?w div nanos_per_second"
  define sod where "sod = secs mod 86400"
  define ns where "ns = ?w mod nanos_per_second"
  define h mi se where "h = sod div 3600" and "mi = sod mod 3600 div 60" and "se = sod mod 60"
  have c: "days_of_civil y m d = secs div 86400" "1 \<le> m" "m \<le> 12" "1 \<le> d" "d \<le> days_in_month y m"
    using civil_of_day_inverse [OF assms(1)] by (simp_all add: secs_def)
  have d31: "d \<le> 31" using c(5) days_in_month_le [OF c(2,3), of y] by linarith
  have sod: "0 \<le> sod" "sod < 86400" by (simp_all add: sod_def)
  have h: "0 \<le> h" "h < 24" using sod by (simp_all add: h_def pos_imp_zdiv_nonneg_iff)
  have mi: "0 \<le> mi" "mi < 60" by (simp_all add: mi_def pos_imp_zdiv_nonneg_iff)
  have se: "0 \<le> se" "se < 60" by (simp_all add: se_def)
  have ns: "0 \<le> ns" "ns < 1000000000" by (simp_all add: ns_def nanos_per_second_def)
  have "sod mod 3600 mod 60 = sod mod 60" by (rule mod_mod_cancel) simp
  then have hms: "h * 3600 + mi * 60 + se = sod"
    unfolding h_def mi_def se_def by (metis add.assoc div_mult_mod_eq)
  have "secs div 86400 * 86400 + sod = secs" by (simp add: sod_def)
  moreover have "secs * nanos_per_second + ns = ?w" by (simp add: secs_def ns_def)
  ultimately have w: "(secs div 86400 * 86400 + sod - t_offset t) * nanos_per_second + ns = t_nanos t"
    by (simp add: wall_nanos_def left_diff_distrib)
  have w': "(secs div 86400 * 86400 + h * 3600 + mi * 60 + se - t_offset t) * nanos_per_second + ns = t_nanos t"
    using w unfolding hms [symmetric] by (simp only: add.assoc)
  obtain z zs where z: "zone_text (t_offset t) = z # zs" "\<not> digit_at z" "z \<noteq> CHR ''.''" "z \<noteq> CHR '',''"
    using zone_head by blast
  have written: "time_text t = pad_num 4 (nat y) @ CHR ''-'' # pad_num 2 (nat m) @ CHR ''-'' # pad_num 2 (nat d) @ CHR ''T'' #
    pad_num 2 (nat h) @ CHR '':'' # pad_num 2 (nat mi) @ CHR '':'' # pad_num 2 (nat se) @
    fraction_text (nat ns) @ zone_text (t_offset t)"
    by (simp add: time_text_def Let_def assms(1) secs_def sod_def ns_def h_def mi_def se_def)
  have pads: "get_year (pad_num 4 (nat y) @ s) = Some (y, s)" "get_num f (pad_num 2 (nat m) @ s) = Some (m, s)"
    "get_num f (pad_num 2 (nat d) @ s) = Some (d, s)" "get_num f (pad_num 2 (nat h) @ s) = Some (h, s)"
    "get_num f (pad_num 2 (nat mi) @ s) = Some (mi, s)" "get_num f (pad_num 2 (nat se) @ s) = Some (se, s)" for f s
    using assms(2,3) c d31 h mi se by (simp_all add: get_year_pad get_num_pad)
  have fraction: "get_fraction (fraction_text (nat ns) @ zone_text (t_offset t)) = (ns, zone_text (t_offset t))"
    using get_fraction_text [of "nat ns", OF _ z] ns by simp
  show ?thesis unfolding written parse_time_def
    using c h mi se w'
    by (simp add: pads fraction get_zone_text [OF assms(4,5)] del: get_num.simps get_year.simps)
qed

lemma marshal_time_inverse:
  assumes "marshal_time t = Inr s" and "60 dvd t_offset t"
  shows "unmarshal_time s old = Some t"
proof -
  obtain y m d where civil: "civil_of_day (wall_nanos t div nanos_per_second div 86400) = (y, m, d)"
    by (rule prod_cases3)
  with assms(1) have "0 \<le> y" "y \<le> 9999" "\<bar>t_offset t\<bar> div 3600 \<le> 23" and s: "s = [CHR 0x22] @ time_text t @ [CHR 0x22]"
    by (auto simp: marshal_time_def split: if_splits)
  moreover from this(3) have "\<bar>t_offset t\<bar> < 86400" by linarith
  ultimately have "parse_time (time_text t) = Some t" using civil assms(2) by (intro parse_time_text) simp_all
  then show ?thesis by (simp add: s unmarshal_time_def butlast_append)
qed

end
