(* ===== verification/Json_Moves.thy ===== *)
theory Json_Moves
  imports Json_Strings
begin

text \<open>
  The moves of the JSON scanner: one rule for each kind of character it accepts, so that what
  holds of all its steps is shown by cases on a relation, not on its seventeen states.
\<close>

section \<open>States\<close>

definition closing :: "scan_step \<Rightarrow> bool" where
  "closing st \<longleftrightarrow> st = EndValue \<or> st = AfterInt \<or> st = Digits1 \<or> st = Digits0 \<or> st = ExpDigits"

fun in_string :: "scan_step \<Rightarrow> bool" where
  "in_string InString = True"
| "in_string InStringEsc = True"
| "in_string (InStringEscU n) = True"
| "in_string _ = False"

lemmas step_defs = step_end_value_def step_begin_value_def step_begin_string_def step_after_int_def push_state_def pop_state_def

lemmas char_defs = json_space_def dec_digit_def hex_digit_def esc_char_def dquote_def bslash_def

text \<open>
  Characters that only continue or begin a number or a literal, and the moves of the scanner: one
  rule for each kind of character it accepts.
\<close>

definition plain_char :: "char \<Rightarrow> bool" where
  "plain_char c \<longleftrightarrow> \<not> json_space c \<and> c \<notin> {dquote, CHR ''{'', CHR ''['', CHR ''}'', CHR '']'', CHR '','', CHR '':'',
     CHR ''<'', CHR ''>'', CHR ''&'', CHR 0xE2}"

definition scalar_step :: "scan_step \<Rightarrow> bool" where
  "scalar_step st \<longleftrightarrow> \<not> in_string st \<and> st \<notin> {BeginValueOrEmpty, BeginValue, BeginStringOrEmpty, BeginString, EndTop}"

fun literal_ok :: "scan_step \<Rightarrow> bool" where
  "literal_ok (InLiteral lit) = list_all plain_char lit"
| "literal_ok _ = True"

definition scan_inv :: "scanner \<Rightarrow> bool" where
  "scan_inv sc \<longleftrightarrow> (sc_step sc = BeginStringOrEmpty \<longrightarrow> sc_stack sc \<noteq> []) \<and>
     (sc_step sc = EndTop \<longrightarrow> sc_stack sc = []) \<and> literal_ok (sc_step sc)"

inductive move :: "scanner \<Rightarrow> char \<Rightarrow> scanner \<Rightarrow> bool" where
  m_space: "\<lbrakk>json_space c; \<not> in_string st;
     st' = (if st = EndTop \<or> closing st \<and> stack = [] then EndTop else if closing st then EndValue else st)\<rbrakk>
     \<Longrightarrow> move \<lparr>sc_step = st, sc_stack = stack\<rparr> c \<lparr>sc_step = st', sc_stack = stack\<rparr>"
| m_object: "\<lbrakk>st = BeginValue \<or> st = BeginValueOrEmpty; length stack < max_nesting_depth; c = CHR ''{''\<rbrakk>
     \<Longrightarrow> move \<lparr>sc_step = st, sc_stack = stack\<rparr> c \<lparr>sc_step = BeginStringOrEmpty, sc_stack = ParseObjectKey # stack\<rparr>"
| m_array: "\<lbrakk>st = BeginValue \<or> st = BeginValueOrEmpty; length stack < max_nesting_depth; c = CHR ''[''\<rbrakk>
     \<Longrightarrow> move \<lparr>sc_step = st, sc_stack = stack\<rparr> c \<lparr>sc_step = BeginValueOrEmpty, sc_stack = ParseArrayValue # stack\<rparr>"
| m_quote: "\<lbrakk>st \<in> {BeginValue, BeginValueOrEmpty, BeginString, BeginStringOrEmpty}; c = dquote\<rbrakk>
     \<Longrightarrow> move \<lparr>sc_step = st, sc_stack = stack\<rparr> c \<lparr>sc_step = InString, sc_stack = stack\<rparr>"
| m_scalar: "\<lbrakk>plain_char c; st = BeginValue \<or> st = BeginValueOrEmpty \<or> scalar_step st; st \<noteq> EndValue; scalar_step st'; literal_ok st';
     \<forall>stack. scan_char \<lparr>sc_step = st, sc_stack = stack\<rparr> c = goto st' stack\<rbrakk>
     \<Longrightarrow> move \<lparr>sc_step = st, sc_stack = stack\<rparr> c \<lparr>sc_step = st', sc_stack = stack\<rparr>"
| m_colon: "\<lbrakk>closing st; c = CHR '':''\<rbrakk> \<Longrightarrow>
     move \<lparr>sc_step = st, sc_stack = ParseObjectKey # rest\<rparr> c \<lparr>sc_step = BeginValue, sc_stack = ParseObjectValue # rest\<rparr>"
| m_comma: "\<lbrakk>closing st; c = CHR '',''\<rbrakk> \<Longrightarrow>
     move \<lparr>sc_step = st, sc_stack = ParseObjectValue # rest\<rparr> c \<lparr>sc_step = BeginString, sc_stack = ParseObjectKey # rest\<rparr>"
| m_element: "\<lbrakk>closing st; c = CHR '',''\<rbrakk> \<Longrightarrow>
     move \<lparr>sc_step = st, sc_stack = ParseArrayValue # rest\<rparr> c \<lparr>sc_step = BeginValue, sc_stack = ParseArrayValue # rest\<rparr>"
| m_close: "\<lbrakk>closing st; p = ParseObjectValue \<and> c = CHR ''}'' \<or> p = ParseArrayValue \<and> c = CHR '']''\<rbrakk> \<Longrightarrow>
     move \<lparr>sc_step = st, sc_stack = p # rest\<rparr> c (pop_state rest)"
| m_empty_object: "c = CHR ''}'' \<Longrightarrow> move \<lparr>sc_step = BeginStringOrEmpty, sc_stack = stack\<rparr> c (pop_state (tl stack))"
| m_empty_array: "c = CHR '']'' \<Longrightarrow>
     move \<lparr>sc_step = BeginValueOrEmpty, sc_stack = ParseArrayValue # rest\<rparr> c (pop_state rest)"
| m_string: "\<lbrakk>c \<noteq> dquote; c \<noteq> bslash; 32 \<le> (of_char c :: nat)\<rbrakk> \<Longrightarrow>
     move \<lparr>sc_step = InString, sc_stack = stack\<rparr> c \<lparr>sc_step = InString, sc_stack = stack\<rparr>"
| m_string_end: "c = dquote \<Longrightarrow> move \<lparr>sc_step = InString, sc_stack = stack\<rparr> c \<lparr>sc_step = EndValue, sc_stack = stack\<rparr>"
| m_escape: "c = bslash \<Longrightarrow> move \<lparr>sc_step = InString, sc_stack = stack\<rparr> c \<lparr>sc_step = InStringEsc, sc_stack = stack\<rparr>"
| m_letter: "esc_char c \<Longrightarrow> move \<lparr>sc_step = InStringEsc, sc_stack = stack\<rparr> c \<lparr>sc_step = InString, sc_stack = stack\<rparr>"
| m_u: "c = CHR ''u'' \<Longrightarrow> move \<lparr>sc_step = InStringEsc, sc_stack = stack\<rparr> c \<lparr>sc_step = InStringEscU 3, sc_stack = stack\<rparr>"
| m_hex: "hex_digit c \<Longrightarrow> move \<lparr>sc_step = InStringEscU n, sc_stack = stack\<rparr> c
     \<lparr>sc_step = (if n = 0 then InString else InStringEscU (n - 1)), sc_stack = stack\<rparr>"

lemma dec_digit_plain: "dec_digit c \<Longrightarrow> plain_char c \<and> c \<noteq> CHR ''.'' \<and> c \<noteq> CHR ''e'' \<and> c \<noteq> CHR ''E''"
  by (auto simp: plain_char_def char_defs)

lemma dec_digit_begin: "dec_digit c \<Longrightarrow> c \<noteq> CHR ''-'' \<and> c \<noteq> CHR ''t'' \<and> c \<noteq> CHR ''f'' \<and> c \<noteq> CHR ''n''"
  by (auto simp: dec_digit_def)

lemma plain_chars: "list_all plain_char ''0-.eE+truefalsn''"
  by (simp add: plain_char_def char_defs)

lemma end_move:
  assumes "step_end_value stack c = Some sc'" and "closing st"
  shows "move \<lparr>sc_step = st, sc_stack = stack\<rparr> c sc'"
proof (cases "json_space c")
  case True
  with assms have "sc' = \<lparr>sc_step = (if stack = [] then EndTop else EndValue), sc_stack = stack\<rparr>"
    by (auto simp: step_end_value_def split: list.splits)
  moreover have "\<not> in_string st" "st \<noteq> EndTop" using assms(2) by (auto simp: closing_def)
  ultimately show ?thesis using True assms(2) by (auto intro!: m_space)
next
  case False
  with assms(1) obtain p rest where stack: "stack = p # rest" by (cases stack) (simp_all add: step_end_value_def)
  show ?thesis
  proof (cases p)
    case ParseObjectKey
    with False assms stack show ?thesis by (auto simp: step_end_value_def split: if_splits intro: move.intros)
  next
    case ParseObjectValue
    with False assms stack show ?thesis
      using m_close [of st p c rest] by (auto simp: step_end_value_def split: if_splits intro: move.intros)
  next
    case ParseArrayValue
    with False assms stack show ?thesis
      using m_close [of st p c rest] by (auto simp: step_end_value_def split: if_splits intro: move.intros)
  qed
qed

lemma begin_move:
  assumes "step_begin_value stack c = Some sc'" and "st = BeginValue \<or> st = BeginValueOrEmpty"
    and "st = BeginValueOrEmpty \<longrightarrow> \<not> json_space c \<and> c \<noteq> CHR '']''"
  shows "move \<lparr>sc_step = st, sc_stack = stack\<rparr> c sc'"
proof -
  have scalar: "move \<lparr>sc_step = st, sc_stack = stack\<rparr> c \<lparr>sc_step = st', sc_stack = stack\<rparr>"
    if "plain_char c" "scalar_step st'" "literal_ok st'" "\<forall>stk. step_begin_value stk c = goto st' stk" for st' c
  proof (rule m_scalar [OF that(1) _ _ that(2,3)])
    show "\<forall>stk. scan_char \<lparr>sc_step = st, sc_stack = stk\<rparr> c = goto st' stk"
      using assms(2) by (rule disjE) (use that(1,4) in \<open>simp_all add: plain_char_def\<close>)
  qed (use assms(2) in auto)
  have st: "\<not> in_string st" "st \<noteq> EndTop" "\<not> closing st" using assms(2) by (auto simp: closing_def)
  have "json_space c \<or> c = CHR ''{'' \<or> c = CHR ''['' \<or> c = dquote \<or> c = CHR ''-'' \<or> c = CHR ''0''
    \<or> c = CHR ''t'' \<or> c = CHR ''f'' \<or> c = CHR ''n'' \<or> dec_digit c \<and> c \<noteq> CHR ''0''"
    by (rule ccontr) (use assms(1) in \<open>simp add: step_begin_value_def dquote_def split: if_splits\<close>)
  then consider "json_space c" | "c = CHR ''{''" | "c = CHR ''[''" | "c = dquote" | "c = CHR ''-''" | "c = CHR ''0''"
    | "c = CHR ''t''" | "c = CHR ''f''" | "c = CHR ''n''" | "dec_digit c" "c \<noteq> CHR ''0''"
    by blast
  then show ?thesis
  proof cases
    case 1
    with assms st show ?thesis using m_space [OF 1 st(1) refl, of stack] by (auto simp: step_begin_value_def)
  next
    case 2
    with assms m_object [of st stack c] show ?thesis
      by (auto simp: step_begin_value_def push_state_def json_space_def Suc_le_eq split: if_splits)
  next
    case 3
    with assms m_array [of st stack c] show ?thesis
      by (auto simp: step_begin_value_def push_state_def json_space_def Suc_le_eq split: if_splits)
  next
    case 4
    with assms m_quote [of st c stack] show ?thesis by (auto simp: step_begin_value_def json_space_def dquote_def)
  next
    case 10
    then have c: "plain_char c" "\<not> json_space c" using dec_digit_plain by (auto simp: plain_char_def)
    have "\<forall>stk. step_begin_value stk c = goto Digits1 stk"
      using 10 c dec_digit_begin [of c] by (simp add: step_begin_value_def dquote_def plain_char_def)
    with scalar [of c Digits1] c assms(1) show ?thesis by (simp add: scalar_step_def)
  qed (use assms(1) plain_chars in \<open>simp_all add: step_begin_value_def json_space_def\<close>,
      auto simp: step_begin_value_def json_space_def scalar_step_def intro!: scalar)
qed

lemma scalar_move:
  assumes "scan_char \<lparr>sc_step = st, sc_stack = stack\<rparr> c = Some sc'" and "scalar_step st" and "literal_ok st"
  shows "move \<lparr>sc_step = st, sc_stack = stack\<rparr> c sc'"
proof -
  note digit = dec_digit_plain
  have ends: ?thesis if "step_end_value stack c = Some sc'" "closing st" using end_move that by blast
  show ?thesis
  proof (cases st)
    case EndValue
    with assms ends show ?thesis by (simp add: closing_def)
  next
    case AfterNeg
    with assms(1) digit plain_chars show ?thesis by (auto simp: scalar_step_def split: if_splits intro!: m_scalar)
  next
    case Digits1
    with assms(1) digit plain_chars ends show ?thesis
      by (auto simp: scalar_step_def closing_def step_after_int_def dec_digit_def split: if_splits intro!: m_scalar)
  next
    case AfterInt
    with assms(1) plain_chars ends show ?thesis
      by (auto simp: scalar_step_def closing_def step_after_int_def split: if_splits intro!: m_scalar)
  next
    case AfterDot
    with assms(1) digit show ?thesis by (auto simp: scalar_step_def split: if_splits intro!: m_scalar)
  next
    case Digits0
    with assms(1) digit plain_chars ends show ?thesis
      by (auto simp: scalar_step_def closing_def dec_digit_def split: if_splits intro!: m_scalar)
  next
    case AfterExp
    with assms(1) digit plain_chars show ?thesis by (auto simp: scalar_step_def split: if_splits intro!: m_scalar)
  next
    case AfterExpSign
    with assms(1) digit show ?thesis by (auto simp: scalar_step_def split: if_splits intro!: m_scalar)
  next
    case ExpDigits
    with assms(1) digit ends show ?thesis by (auto simp: scalar_step_def closing_def split: if_splits intro!: m_scalar)
  next
    case (InLiteral lit)
    with assms(1,3) show ?thesis
      by (cases lit rule: remdups_adj.cases) (auto simp: scalar_step_def split: if_splits intro!: m_scalar)
  qed (use assms(2) in \<open>simp_all add: scalar_step_def\<close>)
qed

lemma scan_move:
  assumes "scan_char sc c = Some sc'" and "scan_inv sc"
  shows "move sc c sc'"
proof -
  obtain st stack where sc: "sc = \<lparr>sc_step = st, sc_stack = stack\<rparr>" by (cases sc) auto
  show ?thesis
  proof (cases "scalar_step st")
    case True
    with assms show ?thesis unfolding sc by (intro scalar_move) (simp_all add: scan_inv_def)
  next
    case False
    show ?thesis
    proof (cases st)
      case BeginValue
      with assms show ?thesis unfolding sc by (intro begin_move) simp_all
    next
      case BeginValueOrEmpty
      consider "json_space c" | "c = CHR '']''" | "\<not> json_space c" "c \<noteq> CHR '']''" by blast
      then show ?thesis
      proof cases
        case 1
        with assms BeginValueOrEmpty show ?thesis unfolding sc using m_space [of c st _ stack] by (simp add: closing_def)
      next
        case 2
        with assms BeginValueOrEmpty show ?thesis unfolding sc
          by (cases stack) (auto simp: step_end_value_def json_space_def split: parse_state.splits intro: move.intros)
      next
        case 3
        with assms BeginValueOrEmpty show ?thesis unfolding sc by (intro begin_move) simp_all
      qed
    next
      case BeginStringOrEmpty
      with assms show ?thesis unfolding sc using m_space [of c st _ stack]
        by (auto simp: step_begin_string_def step_end_value_def json_space_def dquote_def closing_def split: if_splits intro: move.intros)
    next
      case BeginString
      with assms show ?thesis unfolding sc using m_space [of c st _ stack]
        by (auto simp: step_begin_string_def dquote_def closing_def split: if_splits intro: m_quote)
    next
      case EndTop
      with assms show ?thesis unfolding sc using m_space [of c st _ stack] by (auto split: if_splits)
    next
      case InString
      with assms show ?thesis unfolding sc
        by (auto simp: dquote_def bslash_def split: if_splits intro: m_string_end m_escape m_string)
    next
      case InStringEsc
      with assms show ?thesis unfolding sc by (auto split: if_splits intro: m_letter m_u)
    next
      case (InStringEscU n)
      with assms show ?thesis unfolding sc using m_hex [of c n stack] by (auto split: if_splits)
    qed (use False in \<open>simp_all add: scalar_step_def\<close>)
  qed
qed

end
