(* ===== verification/Json_Values.thy ===== *)
theory Json_Values
  imports Json_Moves
begin

text \<open>
  Raw messages through the codec. A valid JSON text that \<open>compact\<close> has rewritten is still valid,
  inside an object too, and the reader delimits it as one value: the scanner on the compacted
  text follows the scanner on the original.
\<close>

text \<open>The deepest stack while a text is scanned, and so the nesting of a JSON text.\<close>

fun scan_height :: "scanner \<Rightarrow> string \<Rightarrow> nat" where
  "scan_height sc [] = length (sc_stack sc)"
| "scan_height sc (c # s) = (case scan_char sc c of None \<Rightarrow> length (sc_stack sc)
     | Some sc' \<Rightarrow> max (length (sc_stack sc)) (scan_height sc' s))"

definition nesting :: "string \<Rightarrow> nat" where
  "nesting s = scan_height scan_start s"

lemma scan_height_stack: "length (sc_stack sc) \<le> scan_height sc s"
  by (cases s) (auto split: option.splits)

section \<open>What one move does\<close>

declare scan_char.simps [simp del]

lemma not_plain [simp]:
  "\<not> plain_char dquote" "\<not> plain_char CHR ''{''" "\<not> plain_char CHR ''[''" "\<not> plain_char CHR ''}''" "\<not> plain_char CHR '']''"
  "\<not> plain_char CHR ''<''" "\<not> plain_char CHR ''>''" "\<not> plain_char CHR ''&''" "\<not> plain_char CHR 0xE2" "json_space c \<Longrightarrow> \<not> plain_char c"
  by (simp_all add: plain_char_def)

lemma not_space [simp]:
  "\<not> json_space dquote" "\<not> json_space CHR ''{''" "\<not> json_space CHR ''[''" "\<not> json_space CHR ''}''" "\<not> json_space CHR '']''"
  "\<not> json_space CHR '',''" "\<not> json_space CHR '':''" "\<not> json_space CHR ''<''" "\<not> json_space CHR ''>''" "\<not> json_space CHR ''&''"
  "\<not> json_space CHR 0xE2" "\<not> json_space CHR ''u''"
  by (simp_all add: json_space_def dquote_def)

lemma scalar_begin [simp]: "scalar_step st \<Longrightarrow> \<not> in_string st \<and> st \<noteq> EndTop \<and> st \<noteq> BeginStringOrEmpty \<and> st \<noteq> InStringEsc"
  by (auto simp: scalar_step_def)

lemma closing_scalar [simp]: "closing st \<Longrightarrow> \<not> in_string st \<and> st \<noteq> EndTop \<and> st \<noteq> BeginStringOrEmpty \<and> st \<noteq> InStringEsc \<and> literal_ok st"
  by (auto simp: closing_def)

lemma hex_not [simp]: "hex_digit c \<Longrightarrow> c \<noteq> dquote \<and> c \<noteq> bslash \<and> c \<noteq> CHR ''<'' \<and> c \<noteq> CHR ''>'' \<and> c \<noteq> CHR ''&'' \<and> c \<noteq> CHR 0xE2"
  by (auto simp: hex_digit_def dec_digit_def dquote_def bslash_def)

lemma esc_not [simp]: "esc_char c \<Longrightarrow> c \<noteq> CHR ''<'' \<and> c \<noteq> CHR ''>'' \<and> c \<noteq> CHR ''&'' \<and> c \<noteq> CHR 0xE2"
  by (auto simp: esc_char_def)

lemma quote_codes [simp]: "dquote \<noteq> bslash" "bslash \<noteq> dquote" "dquote \<noteq> CHR ''{''" "dquote \<noteq> CHR ''[''" "dquote \<noteq> CHR ''}''"
  "dquote \<noteq> CHR '']''" "dquote \<noteq> CHR ''<''" "dquote \<noteq> CHR ''>''" "dquote \<noteq> CHR ''&''" "dquote \<noteq> CHR 0xE2" "dquote \<noteq> CHR ''u''"
  "dquote \<noteq> CHR '',''" "dquote \<noteq> CHR '':''" "bslash \<noteq> CHR ''<''" "bslash \<noteq> CHR ''>''" "bslash \<noteq> CHR ''&''" "bslash \<noteq> CHR 0xE2"
  by (simp_all add: dquote_def bslash_def)

lemmas quote_codes' [simp] = quote_codes [THEN not_sym]

lemma scalar_not_string [simp]: "\<not> scalar_step InStringEsc" "\<not> scalar_step InString" "\<not> scalar_step (InStringEscU n)"
  "\<not> scalar_step EndTop" "\<not> scalar_step BeginStringOrEmpty" "\<not> scalar_step BeginString" "\<not> scalar_step BeginValue"
  "\<not> scalar_step BeginValueOrEmpty" "scalar_step EndValue"
  by (simp_all add: scalar_step_def)

lemma move_inv: "move sc c sc' \<Longrightarrow> scan_inv sc \<longrightarrow> scan_inv sc'"
  by (induction rule: move.induct) (auto simp: scan_inv_def pop_state_def)

lemma move_string:
  "move sc c sc' \<Longrightarrow> in_string (sc_step sc') = (if in_string (sc_step sc) then sc_step sc = InStringEsc \<or> c \<noteq> dquote else c = dquote)"
  by (induction rule: move.induct) (auto simp: pop_state_def)

lemma move_escape:
  "move sc c sc' \<Longrightarrow> sc_step sc' = InStringEsc \<longleftrightarrow> in_string (sc_step sc) \<and> sc_step sc \<noteq> InStringEsc \<and> c = bslash"
  by (induction rule: move.induct) (auto simp: pop_state_def)

lemma move_string_stack: "move sc c sc' \<Longrightarrow> in_string (sc_step sc) \<longrightarrow> sc_stack sc' = sc_stack sc"
  by (induction rule: move.induct) auto

lemma move_stack:
  "move sc c sc' \<Longrightarrow> \<not> in_string (sc_step sc) \<longrightarrow>
   length (sc_stack sc') = (if c = CHR ''{'' \<or> c = CHR ''['' then Suc (length (sc_stack sc))
      else if c = CHR ''}'' \<or> c = CHR '']'' then length (sc_stack sc) - 1 else length (sc_stack sc))"
  by (induction rule: move.induct) (auto simp: pop_state_def)

lemma move_close:
  "move sc c sc' \<Longrightarrow> scan_inv sc \<and> \<not> in_string (sc_step sc) \<and> (c = CHR ''}'' \<or> c = CHR '']'') \<longrightarrow>
   sc_stack sc \<noteq> [] \<and> sc' = pop_state (sc_stack sc')"
  by (induction rule: move.induct) (auto simp: scan_inv_def pop_state_def)

lemma move_html:
  "move sc c sc' \<Longrightarrow> c \<in> {CHR ''<'', CHR ''>'', CHR ''&'', CHR 0xE2} \<longrightarrow> sc_step sc = InString \<and> sc' = sc"
  by (induction rule: move.induct) auto

section \<open>The scanner on compacted text\<close>

text \<open>
  \<open>follows base a b\<close>: the scanner \<open>b\<close> stands inside \<open>base\<close> where \<open>a\<close> stands at the top; after a
  number \<open>b\<close> may not have seen the space that ended it.
\<close>

definition follows :: "parse_state list \<Rightarrow> scanner \<Rightarrow> scanner \<Rightarrow> bool" where
  "follows base a b \<longleftrightarrow> sc_stack b = sc_stack a @ base \<and>
     (sc_step b = sc_step a \<and> sc_step a \<noteq> EndTop \<or> (sc_step a = EndValue \<or> sc_step a = EndTop) \<and> closing (sc_step b))"

lemma follow_space: "move a c a' \<Longrightarrow> json_space c \<and> \<not> in_string (sc_step a) \<and> follows base a b \<longrightarrow> follows base a' b"
proof (induction rule: move.induct)
  case (m_space c st st' stack)
  then show ?case by (cases "closing st"; cases "stack = []") (auto simp: follows_def)
qed auto

lemma scan_closing:
  assumes "closing st" and "c \<in> {CHR '':'', CHR '','', CHR ''}'', CHR '']''}"
  shows "scan_char \<lparr>sc_step = st, sc_stack = stack\<rparr> c = step_end_value stack c"
proof -
  have "\<not> dec_digit c" "c \<noteq> CHR ''.''" "c \<noteq> CHR ''e''" "c \<noteq> CHR ''E''" using assms(2) by (auto simp: dec_digit_def)
  then show ?thesis using assms(1) unfolding closing_def
    by (elim disjE) (simp_all add: scan_char.simps step_after_int_def)
qed

lemma follow_step_closing: "follows base \<lparr>sc_step = st, sc_stack = stack\<rparr> b \<Longrightarrow> closing st \<Longrightarrow>
    \<exists>sb. b = \<lparr>sc_step = sb, sc_stack = stack @ base\<rparr> \<and> closing sb"
  by (cases b) (auto simp: follows_def)

lemma follow_step_same: "follows base \<lparr>sc_step = st, sc_stack = stack\<rparr> b \<Longrightarrow> st \<noteq> EndValue \<Longrightarrow> st \<noteq> EndTop \<Longrightarrow>
    b = \<lparr>sc_step = st, sc_stack = stack @ base\<rparr>"
  by (cases b) (auto simp: follows_def)

lemma follows_pop: "base \<noteq> [] \<Longrightarrow> follows base (pop_state rest) (pop_state (rest @ base))"
  by (simp add: follows_def pop_state_def closing_def)

lemma follow_move:
  assumes "move a c a'" and "follows base a b" and "base \<noteq> []" and "scan_inv a"
    and "length (sc_stack a') + length base \<le> max_nesting_depth" and "json_space c \<longrightarrow> in_string (sc_step a)"
  shows "\<exists>b'. scan_char b c = Some b' \<and> follows base a' b'"
  using assms
proof (induction rule: move.induct)
  case (m_object st stack c)
  then have "b = \<lparr>sc_step = st, sc_stack = stack @ base\<rparr>" by (intro follow_step_same) auto
  then have "scan_char b c = push_state BeginStringOrEmpty ParseObjectKey (stack @ base)"
    using m_object(1,3) by (elim disjE) (simp_all add: scan_char.simps step_begin_value_def)
  then show ?case using m_object(7) by (simp add: push_state_def follows_def)
next
  case (m_array st stack c)
  then have "b = \<lparr>sc_step = st, sc_stack = stack @ base\<rparr>" by (intro follow_step_same) auto
  then have "scan_char b c = push_state BeginValueOrEmpty ParseArrayValue (stack @ base)"
    using m_array(1,3) by (elim disjE) (simp_all add: scan_char.simps step_begin_value_def)
  then show ?case using m_array(7) by (simp add: push_state_def follows_def)
next
  case (m_quote st c stack)
  then have "b = \<lparr>sc_step = st, sc_stack = stack @ base\<rparr>" by (intro follow_step_same) auto
  moreover have "st = BeginValue \<or> st = BeginValueOrEmpty \<or> st = BeginString \<or> st = BeginStringOrEmpty"
    using m_quote(1) by blast
  ultimately have "scan_char b c = goto InString (stack @ base)" using m_quote(2)
    by (elim disjE) (simp_all add: scan_char.simps step_begin_value_def step_begin_string_def json_space_def dquote_def)
  then show ?case by (simp add: follows_def)
next
  case (m_scalar c st st' stack)
  then have "b = \<lparr>sc_step = st, sc_stack = stack @ base\<rparr>" by (intro follow_step_same) auto
  with m_scalar show ?case by (auto simp: follows_def)
next
  case (m_colon st c rest)
  then obtain sb where "b = \<lparr>sc_step = sb, sc_stack = ParseObjectKey # rest @ base\<rparr>" "closing sb"
    using follow_step_closing by fastforce
  with m_colon show ?case by (simp add: scan_closing step_end_value_def follows_def)
next
  case (m_comma st c rest)
  then obtain sb where "b = \<lparr>sc_step = sb, sc_stack = ParseObjectValue # rest @ base\<rparr>" "closing sb"
    using follow_step_closing by fastforce
  with m_comma show ?case by (simp add: scan_closing step_end_value_def follows_def)
next
  case (m_element st c rest)
  then obtain sb where "b = \<lparr>sc_step = sb, sc_stack = ParseArrayValue # rest @ base\<rparr>" "closing sb"
    using follow_step_closing by fastforce
  with m_element show ?case by (simp add: scan_closing step_end_value_def follows_def)
next
  case (m_close st p c rest)
  then obtain sb where "b = \<lparr>sc_step = sb, sc_stack = p # rest @ base\<rparr>" "closing sb"
    using follow_step_closing by fastforce
  with m_close show ?case by (auto simp: scan_closing step_end_value_def follows_pop)
next
  case (m_empty_object c stack)
  then have "b = \<lparr>sc_step = BeginStringOrEmpty, sc_stack = stack @ base\<rparr>" by (intro follow_step_same) auto
  with m_empty_object show ?case by (auto simp: scan_char.simps step_end_value_def follows_pop scan_inv_def)
next
  case (m_empty_array c rest)
  then have "b = \<lparr>sc_step = BeginValueOrEmpty, sc_stack = ParseArrayValue # rest @ base\<rparr>" 
    using follow_step_same by fastforce
  with m_empty_array show ?case by (auto simp: scan_char.simps step_end_value_def follows_pop)
next
  case (m_string c stack)
  then have "b = \<lparr>sc_step = InString, sc_stack = stack @ base\<rparr>" by (intro follow_step_same) auto
  with m_string show ?case by (simp add: scan_char.simps follows_def) (simp add: dquote_def bslash_def)
next
  case (m_string_end c stack)
  then have "b = \<lparr>sc_step = InString, sc_stack = stack @ base\<rparr>" by (intro follow_step_same) auto
  with m_string_end show ?case by (simp add: scan_char.simps follows_def dquote_def)
next
  case (m_escape c stack)
  then have "b = \<lparr>sc_step = InString, sc_stack = stack @ base\<rparr>" by (intro follow_step_same) auto
  with m_escape show ?case by (simp add: scan_char.simps follows_def bslash_def)
next
  case (m_letter c stack)
  then have "b = \<lparr>sc_step = InStringEsc, sc_stack = stack @ base\<rparr>" by (intro follow_step_same) auto
  with m_letter show ?case by (simp add: scan_char.simps follows_def)
next
  case (m_u c stack)
  then have "b = \<lparr>sc_step = InStringEsc, sc_stack = stack @ base\<rparr>" by (intro follow_step_same) auto
  with m_u show ?case by (simp add: scan_char.simps follows_def esc_char_def)
next
  case (m_hex c n stack)
  then have "b = \<lparr>sc_step = InStringEscU n, sc_stack = stack @ base\<rparr>" by (intro follow_step_same) auto
  with m_hex show ?case by (simp add: scan_char.simps follows_def)
qed auto

lemma string_step:
  assumes "sc_step a = InString" and "c \<noteq> dquote" and "c \<noteq> bslash" and "32 \<le> (of_char c :: nat)"
  shows "scan_char a c = Some a"
  using assms by (cases a) (simp add: scan_char.simps, simp add: dquote_def bslash_def)

lemma separator_steps:
  assumes "sc_step a = InString" and "take 1 s = [CHR 0x80]" and "take 1 (drop 1 s) = [CHR 0xA8] \<or> take 1 (drop 1 s) = [CHR 0xA9]"
  shows "scan_all a s = scan_all a (drop 2 s)" and "scan_height a (drop 2 s) \<le> scan_height a s"
    and "\<exists>n < 65536. (n < 55296 \<or> 57343 < n) \<and> 0x2000 + (of_char (s ! 1) - 0x80) = (n :: nat)"
proof -
  obtain d r where s: "s = CHR 0x80 # d # r" and d: "d = CHR 0xA8 \<or> d = CHR 0xA9"
    using assms(2,3) by (cases s; cases "tl s") auto
  have step: "scan_char a (CHR 0x80) = Some a" "scan_char a d = Some a"
    using d by (auto intro!: string_step assms(1) simp: dquote_def bslash_def)
  show "scan_all a s = scan_all a (drop 2 s)" "scan_height a (drop 2 s) \<le> scan_height a s"
    by (simp_all add: s step)
  show "\<exists>n < 65536. (n < 55296 \<or> 57343 < n) \<and> 0x2000 + (of_char (s ! 1) - 0x80) = (n :: nat)"
    using d by (auto simp: s)
qed

lemma u_escape_steps:
  "sc_step b = InString \<Longrightarrow> n < 65536 \<Longrightarrow> n < 55296 \<or> 57343 < n \<Longrightarrow> scan_all b (u_escape n @ s) = scan_all b s"
  using scan_piece [OF piece_hex, of n "sc_stack b"] by (cases b) (simp add: scan_all_append)

lemma follows_string: "follows base a b \<Longrightarrow> sc_step a = InString \<Longrightarrow> sc_step b = InString"
  by (auto simp: follows_def)

text \<open>
  One step of \<open>compact\<close> on text the scanner accepts, for the lemmas below: a byte that is
  escaped, a separator that is, or any other byte with the state it leads to.
\<close>

lemma compact_step:
  assumes "scan_all a (c # s) = Some ae" and "scan_inv a" and "inside = in_string (sc_step a)" and "esc \<longleftrightarrow> sc_step a = InStringEsc"
  obtains (escaped) n s' where "n < 65536" "n < 55296 \<or> 57343 < n" "inside" "\<not> esc" "sc_step a = InString" "length s' \<le> length s"
      "compact inside esc (c # s) = u_escape n @ compact True False s'" "scan_all a s' = Some ae"
      "scan_height a s' \<le> scan_height a (c # s)"
  | (kept) a' where "scan_char a c = Some a'" "move a c a'" "scan_all a' s = Some ae" "scan_inv a'"
      "in_string (sc_step a') = (if inside then esc \<or> c \<noteq> dquote else c = dquote)"
      "(sc_step a' = InStringEsc) = (inside \<and> \<not> esc \<and> c = bslash)"
      "compact inside esc (c # s) =
        (if inside then c # compact (esc \<or> c \<noteq> dquote) (\<not> esc \<and> c = bslash) s
         else if json_space c then compact False False s
         else c # compact (c = dquote) False s)"
proof -
  from assms(1) obtain a' where step: "scan_char a c = Some a'" and rest: "scan_all a' s = Some ae"
    by (auto split: option.splits)
  note move = scan_move [OF step assms(2)]
  have special: "sc_step a = InString \<and> a' = a" if "c \<in> {CHR ''<'', CHR ''>'', CHR ''&'', CHR 0xE2}"
    using move_html [OF move] that by blast
  consider (html) "c = CHR ''<'' \<or> c = CHR ''>'' \<or> c = CHR ''&''"
    | (separator) "\<not> (c = CHR ''<'' \<or> c = CHR ''>'' \<or> c = CHR ''&'')" "c = CHR 0xE2" "take 1 s = [CHR 0x80]"
      "take 1 (drop 1 s) = [CHR 0xA8] \<or> take 1 (drop 1 s) = [CHR 0xA9]"
    | (other) "\<not> (c = CHR ''<'' \<or> c = CHR ''>'' \<or> c = CHR ''&'')"
      "\<not> (c = CHR 0xE2 \<and> take 1 s = [CHR 0x80] \<and> (take 1 (drop 1 s) = [CHR 0xA8] \<or> take 1 (drop 1 s) = [CHR 0xA9]))"
    by blast
  then show thesis
  proof cases
    case html
    then have "sc_step a = InString" "a' = a" using special by auto
    moreover have "(of_char c :: nat) < 55296" using char_byte [of c] by linarith
    ultimately show thesis using html rest step assms(3,4) by (intro escaped [of "of_char c" s]) simp_all
  next
    case separator
    then have a: "sc_step a = InString" "a' = a" using special by auto
    with separator rest step assms(3,4) separator_steps [OF a(1) separator(3,4)] show thesis
      by (intro escaped [of "0x2000 + (of_char (s ! 1) - 0x80)" "drop 2 s"]) auto
  next
    case other
    show thesis
    proof (rule kept [OF step move rest])
      show "scan_inv a'" using move_inv [OF move] assms(2) by blast
      show "in_string (sc_step a') = (if inside then esc \<or> c \<noteq> dquote else c = dquote)"
        "(sc_step a' = InStringEsc) = (inside \<and> \<not> esc \<and> c = bslash)"
        using move_string [OF move] move_escape [OF move] assms(3,4) by auto
    show "compact inside esc (c # s) =
        (if inside then c # compact (esc \<or> c \<noteq> dquote) (\<not> esc \<and> c = bslash) s
         else if json_space c then compact False False s
         else c # compact (c = dquote) False s)"
        unfolding compact.simps(2) if_not_P [OF other(1)] if_not_P [OF other(2)] ..
    qed
  qed
qed

declare compact.simps(2) [simp del]

lemma compact_scan:
  assumes "scan_all a s = Some ae" and "scan_inv a" and "follows base a b" and "base \<noteq> []"
    and "scan_height a s + length base \<le> max_nesting_depth"
    and "inside = in_string (sc_step a)" and "esc \<longleftrightarrow> sc_step a = InStringEsc"
  shows "\<exists>be. scan_all b (compact inside esc s) = Some be \<and> follows base ae be"
  using assms
proof (induction s arbitrary: a b inside esc rule: length_induct)
  case (1 s)
  note IH = "1.IH" [rule_format]
  show ?case
  proof (cases s)
    case Nil
    with 1 show ?thesis by simp
  next
    case (Cons c t)
    note scan = "1.prems"(1) [unfolded Cons]
    from scan "1.prems"(2,6,7) show ?thesis
    proof (cases rule: compact_step)
      case (escaped n s')
      have "\<exists>be. scan_all b (compact True False s') = Some be \<and> follows base ae be"
        by (rule IH) (use escaped "1.prems" Cons in auto)
      then show ?thesis
        using escaped u_escape_steps [of b n] follows_string [OF "1.prems"(3)] Cons by simp
    next
      case (kept a')
      have height: "scan_height a' t + length base \<le> max_nesting_depth" using "1.prems"(5) kept(1) by (simp add: Cons)
      have step: "\<exists>be. scan_all b' (compact i e t) = Some be \<and> follows base ae be"
        if "follows base a' b'" "i = in_string (sc_step a')" "e \<longleftrightarrow> sc_step a' = InStringEsc" for b' i e
        by (rule IH [OF _ kept(3,4) that(1) "1.prems"(4) height that(2,3)]) (simp add: Cons)
      show ?thesis
      proof (cases "\<not> inside \<and> json_space c")
        case True
        then have "follows base a' b" using follow_space [OF kept(2), of base b] "1.prems"(3,6) by simp
        then show ?thesis using step [of b False False] True kept(5-7) by (auto simp: Cons)
      next
        case False
        have "length (sc_stack a') + length base \<le> max_nesting_depth"
          using height scan_height_stack [of a' t] by linarith
        then obtain b' where b': "scan_char b c = Some b'" "follows base a' b'"
          using follow_move [OF kept(2) "1.prems"(3,4,2)] False "1.prems"(6) by blast
        show ?thesis using step [OF b'(2) refl refl] False kept(5-7) b'(1)
          by (cases inside) (auto simp: Cons)
      qed
    qed
  qed
qed

section \<open>The extent of compacted text\<close>

lemma move_string_end:
  "move a c a' \<Longrightarrow> in_string (sc_step a) \<and> \<not> in_string (sc_step a') \<longrightarrow> sc_step a' = EndValue"
  by (induction rule: move.induct) auto

lemma move_ended:
  "move a c a' \<Longrightarrow> sc_stack a = [] \<and> (sc_step a = EndTop \<or> sc_step a = EndValue) \<longrightarrow>
   json_space c \<and> a' = \<lparr>sc_step = EndTop, sc_stack = []\<rparr>"
  by (induction rule: move.induct) (auto simp: closing_def)

lemma move_scalar:
  "move a c a' \<Longrightarrow> sc_stack a = [] \<and> (scalar_step (sc_step a) \<or> sc_step a = EndTop) \<longrightarrow>
   sc_stack a' = [] \<and> (scalar_step (sc_step a') \<or> sc_step a' = EndTop) \<and> (json_space c \<or> plain_char c)"
  by (induction rule: move.induct) auto

lemma ended_compact:
  "scan_all a s = Some ae \<Longrightarrow> scan_inv a \<Longrightarrow> sc_stack a = [] \<Longrightarrow> sc_step a = EndTop \<or> sc_step a = EndValue \<Longrightarrow>
   compact False False s = []"
proof (induction s arbitrary: a)
  case (Cons c s)
  from Cons.prems(1) obtain a' where step: "scan_char a c = Some a'" and rest: "scan_all a' s = Some ae"
    by (auto split: option.splits)
  note move = scan_move [OF step Cons.prems(2)]
  have "json_space c" and a': "a' = \<lparr>sc_step = EndTop, sc_stack = []\<rparr>" using move_ended [OF move] Cons.prems(3,4) by auto
  moreover have "compact False False s = []"
    using Cons.IH [OF rest] move_inv [OF move] Cons.prems(2) a' by simp
  ultimately show ?case by (auto simp: compact.simps(2))
qed simp

lemma span_nested_plain:
  "\<forall>b \<in> set e. b \<noteq> dquote \<and> b \<noteq> bslash \<Longrightarrow>
   span_nested True False d (e @ s) = map_prod (append e) id (span_nested True False d s)"
  by (induction e) (auto simp: case_prod_beta map_prod_def)

lemma u_escape_split:
  obtains e where "u_escape n = [bslash, CHR ''u''] @ e" and "\<forall>b \<in> set e. b \<noteq> dquote \<and> b \<noteq> bslash"
proof (rule that [of "drop 2 (u_escape n)"])
  show "\<forall>b \<in> set (drop 2 (u_escape n)). b \<noteq> dquote \<and> b \<noteq> bslash"
    using hex_lower_plain by (simp add: u_escape_def dquote_def bslash_def)
qed (simp add: u_escape_def)

lemma span_nested_escape:
  "span_nested True False d (u_escape n @ s) = map_prod (append (u_escape n)) id (span_nested True False d s)"
proof -
  obtain e where e: "u_escape n = [bslash, CHR ''u''] @ e" "\<forall>b \<in> set e. b \<noteq> dquote \<and> b \<noteq> bslash" by (rule u_escape_split)
  show ?thesis by (simp add: e(1) span_nested_plain [OF e(2)] case_prod_beta map_prod_def)
qed

lemma span_string_escape:
  "span_string False (u_escape n @ s) = map_prod (append (u_escape n)) id (span_string False s)"
proof -
  obtain e where e: "u_escape n = [bslash, CHR ''u''] @ e" "\<forall>b \<in> set e. b \<noteq> dquote \<and> b \<noteq> bslash" by (rule u_escape_split)
  show ?thesis by (simp add: e(1) span_plain [OF e(2)] case_prod_beta map_prod_def)
qed

lemma span_compact_nested:
  assumes "scan_all a s = Some ae" and "scan_inv a" and "sc_stack a \<noteq> []" and "sc_stack ae = []"
    and "inside = in_string (sc_step a)" and "esc \<longleftrightarrow> sc_step a = InStringEsc"
  shows "span_nested inside esc (length (sc_stack a)) (compact inside esc s @ r) = (compact inside esc s, r)"
  using assms
proof (induction s arbitrary: a inside esc rule: length_induct)
  case (1 s)
  show ?case
  proof (cases s)
    case Nil
    with 1 show ?thesis by simp
  next
    case (Cons c t)
    note scan = "1.prems"(1) [unfolded Cons]
    from scan "1.prems"(2,5,6) show ?thesis
    proof (cases rule: compact_step)
      case (escaped n s')
      then have "span_nested True False (length (sc_stack a)) (compact True False s' @ r) = (compact True False s', r)"
        using "1.IH" [rule_format, of s' a True False] "1.prems" Cons by simp
      with escaped Cons show ?thesis by (simp add: span_nested_escape)
    next
      case (kept a')
      have IH: "span_nested i e (length (sc_stack a')) (compact i e t @ r) = (compact i e t, r)"
        if "sc_stack a' \<noteq> []" "i = in_string (sc_step a')" "e \<longleftrightarrow> sc_step a' = InStringEsc" for i e
        using "1.IH" [rule_format, OF _ kept(3,4) that(1) "1.prems"(4) that(2,3)] by (simp add: Cons)
      show ?thesis
      proof (cases inside)
        case True
        then have "sc_stack a' = sc_stack a" using move_string_stack [OF kept(2)] "1.prems"(5) by simp
        with IH [OF _ refl refl] "1.prems"(3) kept(5-7) True show ?thesis by (auto simp: Cons)
      next
        case out: False
        note depth = move_stack [OF kept(2), rule_format] and ends = move_close [OF kept(2), rule_format]
        have esc: "\<not> esc" using out "1.prems"(5,6) by auto
        have flags: "in_string (sc_step a') = (c = dquote)" "sc_step a' \<noteq> InStringEsc" using kept(5,6) out by auto
        consider (space) "json_space c" | (opens) "c = CHR ''{'' \<or> c = CHR ''[''" | (closes) "c = CHR ''}'' \<or> c = CHR '']''"
          | (stays) "\<not> json_space c" "c \<notin> {CHR ''{'', CHR ''['', CHR ''}'', CHR '']''}" by auto
        then show ?thesis
        proof cases
          case space
          then have "c \<notin> {CHR ''{'', CHR ''['', CHR ''}'', CHR '']'', dquote}" by auto
          with depth "1.prems"(3,5) out have "length (sc_stack a') = length (sc_stack a)" by simp
          moreover from this "1.prems"(3) have "sc_stack a' \<noteq> []" by auto
          ultimately show ?thesis using IH [of False False] flags space out kept(7) \<open>c \<notin> _\<close> esc by (simp add: Cons)
        next
          case opens
          then have l: "length (sc_stack a') = Suc (length (sc_stack a))" using depth "1.prems"(5) out by auto
          then have "sc_stack a' \<noteq> []" by auto
          with IH [of False False] flags opens out kept(7) l show ?thesis by (auto simp: Cons)
        next
          case closes
          have l: "length (sc_stack a') = length (sc_stack a) - 1" using depth "1.prems"(5) out closes by auto
          have pop: "a' = pop_state (sc_stack a')" using ends "1.prems"(2,5) out closes by auto
          show ?thesis
          proof (cases "sc_stack a' = []")
            case True
            then have "compact False False t = []"
              using ended_compact [OF kept(3,4) True] pop by (metis pop_state_def scanner.select_convs(1))
            with True l flags closes out kept(7) show ?thesis by (auto simp: Cons)
          next
            case False
            then have "\<not> length (sc_stack a) \<le> 1" using l by auto
            with False IH [of False False] flags closes out kept(7) l show ?thesis by (auto simp: Cons)
          qed
        next
          case stays
          then have l: "length (sc_stack a') = length (sc_stack a)" using depth "1.prems"(5) out by auto
          moreover from this "1.prems"(3) have "sc_stack a' \<noteq> []" by auto
          ultimately show ?thesis using IH [of "c = dquote" False] flags stays out kept(7) by (simp add: Cons)
        qed
      qed
    qed
  qed
qed

lemma span_compact_string:
  assumes "scan_all a s = Some ae" and "scan_inv a" and "sc_stack a = []" and "\<not> in_string (sc_step ae)"
    and "in_string (sc_step a)" and "esc \<longleftrightarrow> sc_step a = InStringEsc"
  shows "span_string esc (compact True esc s @ r) = (compact True esc s, r)"
  using assms
proof (induction s arbitrary: a esc rule: length_induct)
  case (1 s)
  show ?case
  proof (cases s)
    case Nil
    with 1 show ?thesis by simp
  next
    case (Cons c t)
    from "1.prems"(5) have inside: "True = in_string (sc_step a)" by simp
    from "1.prems"(1) [unfolded Cons] "1.prems"(2) inside "1.prems"(6) show ?thesis
    proof (cases rule: compact_step)
      case (escaped n s')
      then have "span_string False (compact True False s' @ r) = (compact True False s', r)"
        using "1.IH" [rule_format, of s' a False] "1.prems" Cons by simp
      with escaped Cons show ?thesis by (simp add: span_string_escape)
    next
      case (kept a')
      have stack: "sc_stack a' = []" using move_string_stack [OF kept(2)] "1.prems"(3,5) by simp
      show ?thesis
      proof (cases "c = dquote \<and> \<not> esc")
        case True
        then have "sc_step a' = EndValue" using move_string_end [OF kept(2)] "1.prems"(5) kept(5) by simp
        then have "compact False False t = []" using ended_compact [OF kept(3,4) stack] by simp
        with True kept(7) show ?thesis by (simp add: Cons)
      next
        case False
        then have "in_string (sc_step a')" "(sc_step a' = InStringEsc) = (\<not> esc \<and> c = bslash)" using kept(5,6) by auto
        then have "span_string (\<not> esc \<and> c = bslash) (compact True (\<not> esc \<and> c = bslash) t @ r)
            = (compact True (\<not> esc \<and> c = bslash) t, r)"
          using "1.IH" [rule_format, of t a'] kept(3,4) stack "1.prems"(4) by (simp add: Cons)
        moreover have "compact True esc s = c # compact True (\<not> esc \<and> c = bslash) t" using kept(7) False by (auto simp: Cons)
        moreover have "(c = dquote \<and> \<not> esc) = False" using False by blast
        ultimately show ?thesis by (simp del: de_Morgan_conj)
      qed
    qed
  qed
qed

lemma compact_scalar:
  assumes "scan_all a s = Some ae" and "scan_inv a" and "sc_stack a = []" and "scalar_step (sc_step a) \<or> sc_step a = EndTop"
  shows "list_all plain_char (compact False False s)"
  using assms
proof (induction s arbitrary: a)
  case (Cons c t)
  from Cons.prems(4) have flags: "False = in_string (sc_step a)" "False = (sc_step a = InStringEsc)" by auto
  from Cons.prems(1,2) flags show ?case
  proof (cases rule: compact_step)
    case (kept a')
    have next': "sc_stack a' = []" "scalar_step (sc_step a') \<or> sc_step a' = EndTop" "json_space c \<or> plain_char c"
      using move_scalar [OF kept(2)] Cons.prems(3,4) by auto
    then have "list_all plain_char (compact False False t)" using Cons.IH [OF kept(3,4)] by blast
    moreover have "c \<noteq> dquote" using next'(3) by auto
    ultimately show ?thesis using next'(3) kept(7) by auto
  qed simp
qed simp

lemma plain_not_end: "plain_char c \<Longrightarrow> \<not> value_end c"
  by (auto simp: plain_char_def value_end_def)

section \<open>Values in an object\<close>

text \<open>
  The text of one value: inside at most one object the scanner accepts it up to a state that
  ends a value, and the reader takes all of it and no more.
\<close>

definition value_text :: "string \<Rightarrow> bool" where
  "value_text t \<longleftrightarrow> (\<forall>p. \<exists>b. scan_all \<lparr>sc_step = BeginValue, sc_stack = [p]\<rparr> t = Some b \<and> sc_stack b = [p] \<and> closing (sc_step b)) \<and>
     (\<forall>c r. value_end c \<longrightarrow> span_value (t @ c # r) = (t, c # r)) \<and> skip_space t = t"

lemma literal_value: "literal lit v \<Longrightarrow> value_text lit"
proof -
  assume l: "literal lit v"
  then obtain r where lit: "lit = dquote # r" using literal_hd by blast
  have "scan_all \<lparr>sc_step = BeginValue, sc_stack = st\<rparr> lit = goto EndValue st" for st
    using literal_scan [OF l, of st] by (simp add: lit scan_char.simps step_begin_value_def json_space_def dquote_def)
  moreover have "skip_space lit = lit" by (simp add: lit skip_space_def)
  ultimately show ?thesis using literal_span [OF l] by (simp add: value_text_def closing_def)
qed

lemma skip_leading:
  assumes "scan_all \<lparr>sc_step = BeginValue, sc_stack = []\<rparr> p = Some ae"
  shows "scan_all \<lparr>sc_step = BeginValue, sc_stack = []\<rparr> (skip_space p) = Some ae \<and>
    compact False False (skip_space p) = compact False False p"
  using assms
proof (induction p)
  case (Cons c p)
  show ?case
  proof (cases "json_space c")
    case True
    then have "c \<notin> {CHR ''<'', CHR ''>'', CHR ''&'', CHR 0xE2}" by auto
    with True Cons show ?thesis
      by (simp add: skip_space_def compact.simps(2) scan_char.simps step_begin_value_def)
  qed (simp add: skip_space_def Cons.prems [simplified])
qed (simp add: skip_space_def)

lemma eof_end:
  assumes "scan_eof ae" and "scan_inv ae"
  shows "sc_stack ae = [] \<and> (sc_step ae = EndTop \<or> closing (sc_step ae))"
proof (cases "sc_step ae = EndTop")
  case True
  with assms(2) show ?thesis by (simp add: scan_inv_def)
next
  case False
  with assms(1) obtain e where "scan_char ae (CHR '' '') = Some e" "sc_step e = EndTop"
    by (auto simp: scan_eof_def split: option.splits)
  with scan_move [OF _ assms(2)] have "move ae (CHR '' '') e" by blast
  then have "sc_step e = EndTop \<and> sc_step ae \<noteq> EndTop \<longrightarrow> sc_stack ae = [] \<and> closing (sc_step ae)"
    by (cases rule: move.cases) (auto split: if_splits)
  with \<open>sc_step e = EndTop\<close> False show ?thesis by blast
qed

lemma scan_all_inv: "scan_all a s = Some ae \<Longrightarrow> scan_inv a \<Longrightarrow> scan_inv ae"
proof (induction s arbitrary: a)
  case (Cons c s)
  then obtain a' where step: "scan_char a c = Some a'" and rest: "scan_all a' s = Some ae" by (auto split: option.splits)
  have "scan_inv a'" using move_inv [OF scan_move [OF step Cons.prems(2)]] Cons.prems(2) by blast
  with Cons.IH rest show ?case by blast
qed simp

lemma move_begin:
  "move a c a' \<Longrightarrow> sc_step a = BeginValue \<and> sc_stack a = [] \<longrightarrow>
     json_space c \<or> (c = CHR ''{'' \<or> c = CHR ''['') \<and> length (sc_stack a') = 1 \<or>
     c = dquote \<and> sc_stack a' = [] \<or> plain_char c \<and> scalar_step (sc_step a') \<and> sc_stack a' = []"
  by (induction rule: move.induct) (auto simp: closing_def)

text \<open>What \<open>compact\<close> makes of a valid payload of less than the greatest nesting is a value.\<close>

lemma payload_value:
  assumes "json_valid p" and "nesting p < max_nesting_depth"
  shows "value_text (compact False False p)"
proof -
  let ?start = "\<lparr>sc_step = BeginValue, sc_stack = []\<rparr>"
  let ?t = "compact False False p"
  obtain ae where scan: "scan_all ?start p = Some ae" and eof: "scan_eof ae"
    using assms(1) by (auto simp: json_valid_def scan_start_def split: option.splits)
  have inv: "scan_inv ?start" by (simp add: scan_inv_def)
  have ae: "sc_stack ae = []" "sc_step ae = EndTop \<or> closing (sc_step ae)"
    using eof_end [OF eof scan_all_inv [OF scan inv]] by auto
  have valid: "\<exists>b. scan_all \<lparr>sc_step = BeginValue, sc_stack = [q]\<rparr> ?t = Some b \<and> sc_stack b = [q] \<and> closing (sc_step b)" for q
  proof -
    have "follows [q] ?start \<lparr>sc_step = BeginValue, sc_stack = [q]\<rparr>" by (simp add: follows_def)
    moreover have "scan_height ?start p + length [q] \<le> max_nesting_depth"
      using assms(2) by (simp add: nesting_def scan_start_def)
    ultimately obtain b where "scan_all \<lparr>sc_step = BeginValue, sc_stack = [q]\<rparr> ?t = Some b" "follows [q] ae b"
      using compact_scan [OF scan inv, of "[q]" _ False False] by auto
    with ae show ?thesis by (auto simp: follows_def closing_def)
  qed
  define s where "s = skip_space p"
  have s: "scan_all ?start s = Some ae" "?t = compact False False s"
    using skip_leading [OF scan] by (simp_all add: s_def)
  obtain c q where cq: "s = c # q"
    using s(1) ae(2) by (cases s) (auto simp: closing_def)
  have c: "\<not> json_space c" using cq by (auto simp: s_def skip_space_def dropWhile_eq_Cons_conv)
  have flags: "False = in_string (sc_step ?start)" "False = (sc_step ?start = InStringEsc)" by simp_all
  obtain a' where a': "move ?start c a'" "scan_all a' q = Some ae" "scan_inv a'" "?t = c # compact (c = dquote) False q"
    "in_string (sc_step a') = (c = dquote)" "sc_step a' \<noteq> InStringEsc"
    using s(1) [unfolded cq] inv flags by (cases rule: compact_step) (use c in \<open>auto simp: s(2) cq\<close>)
  have extent: "span_value (?t @ d # r) = (?t, d # r)" if "value_end d" for d r
  proof -
    from move_begin [OF a'(1)] c consider (nested) "c = CHR ''{'' \<or> c = CHR ''[''" "length (sc_stack a') = 1"
      | (quoted) "c = dquote" "sc_stack a' = []" | (scalar) "plain_char c" "scalar_step (sc_step a')" "sc_stack a' = []"
      by auto
    then show ?thesis
    proof cases
      case nested
      then have "sc_stack a' \<noteq> []" by auto
      from span_compact_nested [OF a'(2,3) this ae(1) refl refl] nested a'(5,6)
      have "span_nested False False 1 (compact False False q @ d # r) = (compact False False q, d # r)" by auto
      with nested(1) a'(4) show ?thesis by (auto simp: span_value_def)
    next
      case quoted
      from ae(2) have "\<not> in_string (sc_step ae)" by (auto simp: closing_def)
      from span_compact_string [OF a'(2,3) quoted(2) this, of False "d # r"] quoted a'(4-6)
      show ?thesis by (simp add: span_value_def)
    next
      case scalar
      then have "list_all plain_char (c # compact False False q)" using compact_scalar [OF a'(2,3) scalar(3)] by simp
      moreover have ne: "c \<noteq> dquote" "c \<noteq> CHR ''{''" "c \<noteq> CHR ''[''" using scalar(1) by auto
      ultimately have "\<forall>x \<in> set ?t. \<not> value_end x" using a'(4) plain_not_end by (auto simp: list_all_iff)
      moreover note ne
      ultimately show ?thesis using that a'(4)
        by (simp add: span_value_def takeWhile_append dropWhile_append)
    qed
  qed
  show ?thesis unfolding value_text_def using valid extent c a'(4) by (simp add: skip_space_def)
qed

end
