(* ===== verification/Spec2Isabelle.thy ===== *)
theory Spec2Isabelle
  imports Client_History Session_Protocol Time_Roundtrip Json_Values
begin

text \<open>
  A verification development of olg-nats-agent-core, the NATS runtime library of the OLG agents.
\<close>

end
